(* ===== verification/WS_Prelude.thy ===== *)
theory WS_Prelude
  imports Main "HOL-Library.Word"
begin

text \<open>
  Shared vocabulary of the development: the machine types of the C++ sources, the
  failures a C++ operation can end in, checked array access, and the facts on 64-bit
  words, masks and modular indices that several components use.
\<close>

unbundle bit_operations_syntax

section \<open>Machine types\<close>

text \<open>The integer types of the sources on the 64-bit targets the build files name:
  \<open>std::size_t\<close> and pointers have 64 bits, \<open>int\<close> and \<open>uint32_t\<close> have 32.\<close>

type_synonym byte = "8 word"
type_synonym u32 = "32 word"
type_synonym i32 = "32 word"
type_synonym size_t = "64 word"
type_synonym i64 = "64 word"
type_synonym ptr = "64 word"

abbreviation (input) nullptr :: ptr where
  "nullptr \<equiv> 0"

section \<open>Failures\<close>

text \<open>
  What a C++ operation can end in besides returning: the undefined behaviours the sources
  have to stay away from, a failed \<open>assert\<close>, \<open>std::terminate\<close>, and a wait that did not end within
  the steps another thread was given.
\<close>

datatype cxx_error =
    UB_OutOfBounds
  | UB_NullDeref
  | UB_UseAfterFree
  | UB_SignedOverflow
  | UB_FloatCast
  | UB_ShiftWidth
  | AssertFailed string
  | Terminate string
  | Hangs string

type_synonym 'a result = "cxx_error + 'a"

fun bind_result :: "'a result \<Rightarrow> ('a \<Rightarrow> 'b result) \<Rightarrow> 'b result" where
  "bind_result (Inl e) f = Inl e"
| "bind_result (Inr x) f = f x"

text \<open>\<open>std::array::operator[]\<close> and \<open>std::vector::operator[]\<close>: no bounds check, so an
  index out of range is undefined behaviour.\<close>

definition arr_get :: "'a list \<Rightarrow> size_t \<Rightarrow> 'a result" where
  "arr_get xs i = (if unat i < length xs then Inr (xs ! unat i) else Inl UB_OutOfBounds)"

definition arr_set :: "'a list \<Rightarrow> size_t \<Rightarrow> 'a \<Rightarrow> 'a list result" where
  "arr_set xs i v = (if unat i < length xs then Inr (xs[unat i := v]) else Inl UB_OutOfBounds)"

text \<open>Signed 32-bit arithmetic: a result the type cannot hold is undefined behaviour.\<close>

definition i32_result :: "int \<Rightarrow> i32 result" where
  "i32_result i = (if - (2 ^ 31) \<le> i \<and> i < 2 ^ 31 then Inr (of_int i) else Inl UB_SignedOverflow)"

text \<open>A function that can throw leaves through a return or an exception, or ends the program.\<close>

datatype 'a outcome = Ret 'a | Throw string | Crash cxx_error

type_synonym ('w, 'a) io = "'w \<Rightarrow> 'a outcome \<times> 'w"

fun bind_outcome :: "'a outcome \<times> 'w \<Rightarrow> ('a \<Rightarrow> ('w, 'b) io) \<Rightarrow> 'b outcome \<times> 'w" where
  "bind_outcome (Ret a, w) k = k a w"
| "bind_outcome (Throw e, w) k = (Throw e, w)"
| "bind_outcome (Crash e, w) k = (Crash e, w)"

definition bind_io :: "('w, 'a) io \<Rightarrow> ('a \<Rightarrow> ('w, 'b) io) \<Rightarrow> ('w, 'b) io" where
  "bind_io m k w = bind_outcome (m w) k"

definition return_io :: "'a \<Rightarrow> ('w, 'a) io" where
  "return_io a w = (Ret a, w)"

text \<open>A \<open>std::thread\<close> member: without a thread, or with one at the point of its function the
  second constructor carries. It stays joinable after the function has returned, until it is joined.\<close>

datatype 'pc thread = NoThread | Running 'pc

definition joinable :: "'pc thread \<Rightarrow> bool" where
  "joinable t \<longleftrightarrow> t \<noteq> NoThread"

named_theorems word_facts \<open>reading word arithmetic as natural-number arithmetic\<close>

lemma bind_result_Inr_iff [simp]:
  "bind_result r f = Inr y \<longleftrightarrow> (\<exists>x. r = Inr x \<and> f x = Inr y)"
  by (cases r) auto

lemma bind_result_InrE:
  assumes "bind_result r f = Inr y"
  obtains x where "r = Inr x" and "f x = Inr y"
  using assms by auto

lemma bind_io_Ret_iff:
  "bind_io m k w = (Ret b, w'') \<longleftrightarrow> (\<exists>a w'. m w = (Ret a, w') \<and> k a w' = (Ret b, w''))"
  by (cases "m w"; cases "fst (m w)") (auto simp: bind_io_def)

lemma joinable_simps [simp]: "\<not> joinable NoThread" "joinable (Running pc)"
  by (simp_all add: joinable_def)

lemma arr_get_in_range [simp]: "unat i < length xs \<Longrightarrow> arr_get xs i = Inr (xs ! unat i)"
  by (simp add: arr_get_def)

lemma arr_set_in_range [simp]: "unat i < length xs \<Longrightarrow> arr_set xs i v = Inr (xs[unat i := v])"
  by (simp add: arr_set_def)

lemma arr_get_fails_iff: "arr_get xs i = Inl UB_OutOfBounds \<longleftrightarrow> length xs \<le> unat i"
  by (auto simp: arr_get_def)

lemma i32_result_sint:
  "- (2 ^ 31) \<le> i \<Longrightarrow> i < 2 ^ 31 \<Longrightarrow> \<exists>w. i32_result i = Inr w \<and> sint w = i"
  by (simp add: i32_result_def sint_sbintrunc' signed_take_bit_int_eq_self)

section \<open>Masks and powers of two\<close>

lemma unat_and_mask [word_facts]:
  assumes "k < 64"
  shows "unat ((x :: size_t) AND (2 ^ k - 1)) = unat x mod 2 ^ k"
proof -
  have "x AND (2 ^ k - 1) = take_bit k x"
    by (simp add: take_bit_eq_mask mask_eq_exp_minus_1)
  then show ?thesis
    by (simp only: unsigned_take_bit_eq) (simp add: take_bit_eq_mod)
qed

lemma unat_pow2 [word_facts]: "k < 64 \<Longrightarrow> unat ((2 :: size_t) ^ k) = 2 ^ k"
  using unat_of_nat [of "2 ^ k", where 'a = 64] power_strict_increasing [of k 64 "2 :: nat"]
  by simp

lemma pow2_dvd_word_size: "k < 64 \<Longrightarrow> (2 :: nat) ^ k dvd 2 ^ 64"
  by (rule le_imp_power_dvd) simp

text \<open>Clearing the lowest bit that is set leaves zero exactly on the powers of two.\<close>

lemma nat_and_pred_eq_0:
  "0 < n \<Longrightarrow> n AND (n - 1) = 0 \<Longrightarrow> \<exists>k. n = (2 :: nat) ^ k"
proof (induction n rule: less_induct)
  case (less n)
  show ?case
  proof (cases "even n")
    case True
    then obtain m where m: "n = 2 * m" by blast
    with less.prems have "0 < m" by simp
    then have pred: "n - 1 = 1 + 2 * (m - 1)" using m by simp
    have "(2 * m) AND (1 + 2 * (m - 1)) = 2 * (m AND (m - 1))"
      by (simp add: and_rec [of "2 * m"])
    with less.prems m pred have "m AND (m - 1) = 0" by simp
    with \<open>0 < m\<close> less.IH [of m] m obtain k where "m = 2 ^ k" by auto
    with m have "n = 2 ^ Suc k" by simp
    then show ?thesis by blast
  next
    case False
    then obtain m where m: "n = 1 + 2 * m" by (auto elim: oddE)
    have "(1 + 2 * m) AND (2 * m) = 2 * m"
      using and_rec [of "1 + 2 * m" "2 * m"] by simp
    with less.prems m have "m = 0" by simp
    with m have "n = 2 ^ 0" by simp
    then show ?thesis by blast
  qed
qed

lemma nat_pow2_and_pred: "((2 :: nat) ^ k) AND (2 ^ k - 1) = 0"
proof -
  have "(2 ^ k) AND (2 ^ k - 1) = take_bit k ((2 :: nat) ^ k)"
    by (simp only: take_bit_eq_mask mask_eq_exp_minus_1)
  then show ?thesis by (simp add: take_bit_eq_mod)
qed

lemma unat_and: "unat ((x :: size_t) AND y) = unat x AND unat y"
  by (simp add: unsigned_and_eq)

lemma unat_pred: "0 < (x :: size_t) \<Longrightarrow> unat (x - 1) = unat x - 1"
  by (simp add: unat_minus_one word_gt_0)

theorem word_and_pred_eq_0_iff:
  "0 < (n :: size_t) \<and> n AND (n - 1) = 0 \<longleftrightarrow> (\<exists>k < 64. n = 2 ^ k)" (is "?L \<longleftrightarrow> ?R")
proof
  assume L: ?L
  then have "unat n AND (unat n - 1) = 0"
    by (metis unat_0 unat_and unat_pred)
  with L obtain k where k: "unat n = 2 ^ k"
    using nat_and_pred_eq_0 [of "unat n"] by (auto simp: word_less_nat_alt)
  have "(2 :: nat) ^ k < 2 ^ 64" using unsigned_less [of n] by (simp flip: k)
  then have "k < 64" by (rule power_less_imp_less_exp [rotated]) simp
  with k have "n = 2 ^ k" by (simp add: word_unat_eq_iff unat_pow2)
  with \<open>k < 64\<close> show ?R by blast
next
  assume ?R
  then obtain k where k: "k < 64" "n = 2 ^ k" by blast
  then have un: "unat n = 2 ^ k" by (simp add: unat_pow2)
  then have "0 < n" by (simp add: word_less_nat_alt)
  moreover have "unat (n AND (n - 1)) = 0"
    using \<open>0 < n\<close> un by (simp only: unat_and unat_pred nat_pow2_and_pred)
  ultimately show ?L by (simp add: unat_0_iff)
qed

section \<open>Indices of a ring\<close>

text \<open>Two absolute positions less than one lap apart fall on the same slot only when they
  are equal.\<close>

lemma mod_eq_close:
  fixes a b c :: nat
  assumes "a mod c = b mod c" and "a \<le> b" and "b < a + c"
  shows "a = b"
proof -
  from assms(1,2) have "c dvd b - a" by (metis mod_eq_dvd_iff_nat)
  moreover have "b - a < c" using assms(2,3) by arith
  ultimately have "b - a = 0" by (meson dvd_imp_le gr0I not_le)
  with assms(2) show ?thesis by simp
qed

text \<open>The number of steps from slot \<open>h\<close> forward to slot \<open>t\<close> of a ring of \<open>c\<close> slots.\<close>

definition ring_dist :: "nat \<Rightarrow> nat \<Rightarrow> nat \<Rightarrow> nat" where
  "ring_dist c h t = (t + c - h) mod c"

lemma ring_dist_if:
  "h < c \<Longrightarrow> t < c \<Longrightarrow> ring_dist c h t = (if h \<le> t then t - h else t + c - h)"
  by (auto simp: ring_dist_def) (metis Nat.add_diff_assoc2 less_imp_diff_less mod_add_self2 mod_less)

lemma ring_dist_less: "0 < c \<Longrightarrow> ring_dist c h t < c"
  by (simp add: ring_dist_def)

lemma ring_dist_0_iff: "h < c \<Longrightarrow> t < c \<Longrightarrow> ring_dist c h t = 0 \<longleftrightarrow> h = t"
  by (auto simp: ring_dist_if)

lemma ring_dist_full_iff:
  "h < c \<Longrightarrow> t < c \<Longrightarrow> Suc t mod c = h \<longleftrightarrow> ring_dist c h t = c - 1"
  by (auto simp: ring_dist_if mod_Suc)

lemma ring_dist_Suc_tail:
  "h < c \<Longrightarrow> t < c \<Longrightarrow> ring_dist c h t < c - 1 \<Longrightarrow>
   ring_dist c h (Suc t mod c) = Suc (ring_dist c h t)"
  by (auto simp: ring_dist_if mod_Suc split: if_splits)

lemma ring_dist_Suc_head:
  "h < c \<Longrightarrow> t < c \<Longrightarrow> h \<noteq> t \<Longrightarrow> ring_dist c (Suc h mod c) t = ring_dist c h t - 1"
  by (auto simp: ring_dist_if mod_Suc split: if_splits)

lemma ring_index: "h < c \<Longrightarrow> i < c \<Longrightarrow> (h + i) mod c = (if h + i < c then h + i else h + i - c)"
  for h i c :: nat
  by (simp add: le_mod_geq)

lemma ring_index_end: "h < c \<Longrightarrow> t < c \<Longrightarrow> (h + ring_dist c h t) mod c = t"
  by (auto simp: ring_dist_if)

lemma ring_index_inner: "h < c \<Longrightarrow> t < c \<Longrightarrow> i < ring_dist c h t \<Longrightarrow> (h + i) mod c \<noteq> t"
  using ring_dist_less [of c h t] by (auto simp: ring_dist_if ring_index split: if_splits)

section \<open>Properties that operations keep\<close>

definition keeps :: "('w \<Rightarrow> bool) \<Rightarrow> ('w, 'a) io \<Rightarrow> bool" where
  "keeps P m \<longleftrightarrow> (\<forall>w. P w \<longrightarrow> P (snd (m w)))"

lemma keeps_bind:
  assumes "keeps P m" and "\<And>a. keeps P (k a)"
  shows "keeps P (bind_io m k)"
  unfolding keeps_def
proof (intro allI impI)
  fix w assume "P w"
  then have "P (snd (m w))" using assms(1) by (simp add: keeps_def)
  then show "P (snd (bind_io m k w))"
    using assms(2) by (cases "(m w, k)" rule: bind_outcome.cases) (auto simp: bind_io_def keeps_def)
qed

lemma keepsD: "keeps P m \<Longrightarrow> P w \<Longrightarrow> m w = (r, w') \<Longrightarrow> P w'"
  by (auto simp: keeps_def)

lemma keeps_return: "keeps P (return_io a)"
  by (simp add: keeps_def return_io_def)

lemma keeps_if: "keeps P a \<Longrightarrow> keeps P b \<Longrightarrow> keeps P (if c then a else b)"
  by simp

definition keeps_thrown :: "('w \<Rightarrow> bool) \<Rightarrow> ('w, 'a) io \<Rightarrow> bool" where
  "keeps_thrown P m \<longleftrightarrow> (\<forall>w e w'. P w \<longrightarrow> m w = (Throw e, w') \<longrightarrow> P w')"

lemma keeps_thrown_bind:
  assumes "keeps P m" and "\<And>a. keeps_thrown P (k a)"
  shows "keeps_thrown P (bind_io m k)"
  unfolding keeps_thrown_def
proof (intro allI impI)
  fix w e w' assume w: "P w" "bind_io m k w = (Throw e, w')"
  then have "P (snd (m w))" using assms(1) by (simp add: keeps_def)
  then show "P w'"
    using assms(2) w(2) by (cases "(m w, k)" rule: bind_outcome.cases) (auto simp: bind_io_def keeps_thrown_def)
qed

text \<open>An operation that always returns or throws.\<close>

definition no_crash :: "('w, 'a) io \<Rightarrow> bool" where
  "no_crash m \<longleftrightarrow> (\<forall>w e w'. m w \<noteq> (Crash e, w'))"

lemma no_crash_bind:
  assumes "no_crash m" and "\<And>a. no_crash (k a)"
  shows "no_crash (bind_io m k)"
  unfolding no_crash_def
proof (intro allI)
  fix w e w'
  show "bind_io m k w \<noteq> (Crash e, w')"
    using assms by (cases "(m w, k)" rule: bind_outcome.cases) (auto simp: bind_io_def no_crash_def)
qed

lemma sint_small:
  assumes "unat (w :: 32 word) < 2 ^ 31"
  shows "sint w = int (unat w)"
proof -
  have u: "uint w = int (unat w)" by (rule uint_nat)
  from assms have "int (unat w) < int (2 ^ 31)" by (simp only: of_nat_less_iff)
  then have "uint w < 2 ^ 31" unfolding u by (simp only: of_nat_power of_nat_numeral)
  then have "signed_take_bit 31 (uint w) = uint w"
    by (intro signed_take_bit_int_eq_self) (auto intro: order_trans [of _ 0])
  moreover have "sint w = signed_take_bit 31 (uint w)" by (simp add: sint_uint)
  ultimately show ?thesis using u by argo
qed

lemma sint_of_nat_i32: "n < 2 ^ 31 \<Longrightarrow> sint (of_nat n :: i32) = int n"
  using sint_small [of "of_nat n"] by (simp add: unat_of_nat)

end
