(* ===== verification/Config.thy ===== *)
theory Config
  imports WS_Prelude
begin

text \<open>
  \<open>include/config.h\<close>: the compile-time tunables, the power-of-two check behind the queue's
  static assertion, the wait policies and the feature flags. The client, the queue and the pool
  of the program are compiled with constants of their own (\<open>include/websocket_client.h\<close>,
  \<open>include/spsc_queue.h\<close>), which agree with these.
\<close>

section \<open>Tunables\<close>

definition kDefaultHost :: string where "kDefaultHost = ''echo.websocket.events''"
definition kDefaultPort :: string where "kDefaultPort = ''80''"
definition kTcpNoDelay :: bool where "kTcpNoDelay = True"
definition kSendBufferSize :: size_t where "kSendBufferSize = 65536"
definition kRecvBufferSize :: size_t where "kRecvBufferSize = 65536"
definition config_kQueueCapacity :: size_t where "config_kQueueCapacity = 1024"
definition config_kCacheLineSize :: size_t where "config_kCacheLineSize = 64"
definition config_kPoolBlockSize :: size_t where "config_kPoolBlockSize = 4096"
definition config_kPoolNumBlocks :: size_t where "config_kPoolNumBlocks = 256"
definition kPoolTotalBytes :: size_t where "kPoolTotalBytes = config_kPoolBlockSize * config_kPoolNumBlocks"
definition kPoolTotalKB :: size_t where "kPoolTotalKB = kPoolTotalBytes div 1024"
definition config_kReadBufferSize :: size_t where "config_kReadBufferSize = 65536"
definition kDefaultSampleReserve :: size_t where "kDefaultSampleReserve = 10000"
definition kBenchmarkMessages :: i32 where "kBenchmarkMessages = 100"
definition kWarmupMessages :: i32 where "kWarmupMessages = 10"
definition kInitialBackoffMs :: u32 where "kInitialBackoffMs = 100"
definition kMaxBackoffMs :: u32 where "kMaxBackoffMs = 30000"
definition kMaxReconnectTries :: i32 where "kMaxReconnectTries = 10"
definition kHeartbeatIntervalS :: u32 where "kHeartbeatIntervalS = 30"
definition kHeartbeatTimeoutS :: u32 where "kHeartbeatTimeoutS = 10"

definition kEnableLatencyTracking :: bool where "kEnableLatencyTracking = True"
definition kEnableMemoryPool :: bool where "kEnableMemoryPool = True"
definition kEnableThreadPinning :: bool where "kEnableThreadPinning = True"
definition kEnableHeartbeat :: bool where "kEnableHeartbeat = True"

text \<open>The constants of the client and of the queue.\<close>

definition kQueueCapacity :: size_t where "kQueueCapacity = 1024"
definition kReadBufferSize :: size_t where "kReadBufferSize = 65536"
definition kPoolBlockSize :: size_t where "kPoolBlockSize = 4096"
definition kPoolNumBlocks :: size_t where "kPoolNumBlocks = 256"
definition kCacheLineSize :: size_t where "kCacheLineSize = 64"

lemma config_agrees:
  "config_kQueueCapacity = kQueueCapacity" "config_kReadBufferSize = kReadBufferSize"
  "config_kPoolBlockSize = kPoolBlockSize" "config_kPoolNumBlocks = kPoolNumBlocks"
  "config_kCacheLineSize = kCacheLineSize"
  by (simp_all add: config_kQueueCapacity_def kQueueCapacity_def config_kReadBufferSize_def kReadBufferSize_def
      config_kPoolBlockSize_def kPoolBlockSize_def config_kPoolNumBlocks_def kPoolNumBlocks_def
      config_kCacheLineSize_def kCacheLineSize_def)

section \<open>The power-of-two check\<close>

definition IsPowerOfTwo :: "size_t \<Rightarrow> bool" where
  "IsPowerOfTwo N \<longleftrightarrow> 0 < N \<and> N AND (N - 1) = 0"

section \<open>Wait policies\<close>

text \<open>What a policy's \<open>wait()\<close> asks of the processor or the scheduler; the first argument of
  \<open>wait\<close> says whether the target is x86, the preprocessor test of the source.\<close>

datatype wait_action = MmPause | ThreadYield | SleepMicros u32

datatype wait_policy = SpinWaitPolicy | YieldWaitPolicy | SleepWaitPolicy u32

fun policy_wait :: "bool \<Rightarrow> wait_policy \<Rightarrow> wait_action" where
  "policy_wait x86 SpinWaitPolicy = (if x86 then MmPause else ThreadYield)"
| "policy_wait x86 YieldWaitPolicy = ThreadYield"
| "policy_wait x86 (SleepWaitPolicy us) = SleepMicros us"

fun policy_name :: "wait_policy \<Rightarrow> string" where
  "policy_name SpinWaitPolicy = ''spin-wait''"
| "policy_name YieldWaitPolicy = ''yield''"
| "policy_name (SleepWaitPolicy us) = ''sleep''"

definition SelectWaitPolicy :: "bool \<Rightarrow> wait_policy" where
  "SelectWaitPolicy low_latency = (if low_latency then SpinWaitPolicy else YieldWaitPolicy)"

section \<open>Feature flags\<close>

text \<open>\<open>Feature<Enabled>\<close>: a tag type whose only member repeats its parameter.\<close>

datatype feature = Feature bool

primrec feature_enabled :: "feature \<Rightarrow> bool" where
  "feature_enabled (Feature enabled) = enabled"

section \<open>Powers of two\<close>

lemma IsPowerOfTwo_iff: "IsPowerOfTwo N \<longleftrightarrow> (\<exists>k < 64. N = 2 ^ k)"
  by (simp add: IsPowerOfTwo_def word_and_pred_eq_0_iff)

lemma IsPowerOfTwo_unatE:
  assumes "IsPowerOfTwo N"
  obtains k where "k < 64" and "unat N = 2 ^ k" and "N = 2 ^ k"
  using assms by (auto simp: IsPowerOfTwo_iff unat_pow2)

text \<open>The static assertion of \<open>config.h\<close>.\<close>

lemma config_static_assert: "IsPowerOfTwo config_kQueueCapacity"
  by (simp add: IsPowerOfTwo_def config_kQueueCapacity_def)

lemma kQueueCapacity_pow2: "IsPowerOfTwo kQueueCapacity"
  by (simp add: IsPowerOfTwo_def kQueueCapacity_def)

lemma unat_kQueueCapacity: "unat kQueueCapacity = 1024"
  by (simp add: kQueueCapacity_def)

end
