(* ===== verification/Fifo_Interface.thy ===== *)
theory Fifo_Interface
  imports WS_Prelude
begin

text \<open>
  The contract between the message queue and its clients: a bounded first-in first-out
  queue whose operations never end in undefined behaviour. The clients' facts (what a
  sequence of pushes and pops returns, that nothing is lost, duplicated or reordered) are
  proved here once, from the contract alone.
\<close>

section \<open>Operation sequences and their specification\<close>

datatype 'a qop = Push 'a | Pop

datatype 'a qres = Pushed bool | Popped "'a option"

fun fifo_exec ::
  "('a \<Rightarrow> 'q \<Rightarrow> (bool \<times> 'q) result) \<Rightarrow> ('q \<Rightarrow> ('a option \<times> 'q) result) \<Rightarrow>
   'q \<Rightarrow> 'a qop list \<Rightarrow> ('a qres list \<times> 'q) result" where
  "fifo_exec push pop q [] = Inr ([], q)"
| "fifo_exec push pop q (Push x # ops) =
     bind_result (push x q) (\<lambda>(b, q').
       bind_result (fifo_exec push pop q' ops) (\<lambda>(rs, q''). Inr (Pushed b # rs, q'')))"
| "fifo_exec push pop q (Pop # ops) =
     bind_result (pop q) (\<lambda>(r, q').
       bind_result (fifo_exec push pop q' ops) (\<lambda>(rs, q''). Inr (Popped r # rs, q'')))"

text \<open>The specification runs on the list of queued items, oldest first.\<close>

fun fifo_spec :: "nat \<Rightarrow> 'a list \<Rightarrow> 'a qop list \<Rightarrow> 'a qres list \<times> 'a list" where
  "fifo_spec b xs [] = ([], xs)"
| "fifo_spec b xs (Push x # ops) =
     (let ok = (length xs < b);
          (rs, ys) = fifo_spec b (if ok then xs @ [x] else xs) ops
      in (Pushed ok # rs, ys))"
| "fifo_spec b xs (Pop # ops) =
     (let (rs, ys) = fifo_spec b (tl xs) ops
      in (Popped (case xs of [] \<Rightarrow> None | x # _ \<Rightarrow> Some x) # rs, ys))"

text \<open>The items a run accepted and the items it handed out, in order.\<close>

fun accepted :: "'a qop list \<Rightarrow> 'a qres list \<Rightarrow> 'a list" where
  "accepted (Push x # ops) (Pushed True # rs) = x # accepted ops rs"
| "accepted (_ # ops) (_ # rs) = accepted ops rs"
| "accepted _ _ = []"

fun delivered :: "'a qres list \<Rightarrow> 'a list" where
  "delivered [] = []"
| "delivered (Popped (Some x) # rs) = x # delivered rs"
| "delivered (_ # rs) = delivered rs"

lemma fifo_spec_conserves:
  "fifo_spec b xs ops = (rs, ys) \<Longrightarrow> xs @ accepted ops rs = delivered rs @ ys"
proof (induction b xs ops arbitrary: rs ys rule: fifo_spec.induct)
  case (2 b xs x ops)
  then show ?case
    by (cases "length xs < b") (auto simp: Let_def split: prod.splits)
next
  case (3 b xs ops)
  then show ?case
    by (cases xs) (auto simp: Let_def split: prod.splits)
qed simp

lemma fifo_spec_bounded:
  "length xs \<le> b \<Longrightarrow> length (snd (fifo_spec b xs ops)) \<le> b"
  by (induction b xs ops rule: fifo_spec.induct) (auto simp: Let_def split: prod.splits)

section \<open>The contract\<close>

locale bounded_fifo =
  fixes new_q :: 'q
    and push :: "'a \<Rightarrow> 'q \<Rightarrow> (bool \<times> 'q) result"
    and pop :: "'q \<Rightarrow> ('a option \<times> 'q) result"
    and inv :: "'q \<Rightarrow> bool"
    and contents :: "'q \<Rightarrow> 'a list"
    and bound :: nat
  assumes new_inv: "inv new_q"
    and new_contents: "contents new_q = []"
    and contents_bound: "inv q \<Longrightarrow> length (contents q) \<le> bound"
    and push_room: "inv q \<Longrightarrow> length (contents q) < bound \<Longrightarrow>
      \<exists>q'. push x q = Inr (True, q') \<and> inv q' \<and> contents q' = contents q @ [x]"
    and push_full: "inv q \<Longrightarrow> length (contents q) = bound \<Longrightarrow> push x q = Inr (False, q)"
    and pop_empty: "inv q \<Longrightarrow> contents q = [] \<Longrightarrow> pop q = Inr (None, q)"
    and pop_item: "inv q \<Longrightarrow> contents q = x # xs \<Longrightarrow>
      \<exists>q'. pop q = Inr (Some x, q') \<and> inv q' \<and> contents q' = xs"
begin

lemma push_spec:
  assumes "inv q"
  shows "\<exists>q'. push x q = Inr (length (contents q) < bound, q') \<and> inv q' \<and>
    contents q' = (if length (contents q) < bound then contents q @ [x] else contents q)"
proof (cases "length (contents q) < bound")
  case True
  with push_room [OF assms True] show ?thesis by simp
next
  case False
  with contents_bound [OF assms] have "length (contents q) = bound" by simp
  with push_full [OF assms this] assms show ?thesis by simp
qed

lemma pop_spec:
  assumes "inv q"
  shows "\<exists>q'. pop q = Inr (case contents q of [] \<Rightarrow> None | x # _ \<Rightarrow> Some x, q') \<and> inv q' \<and>
    contents q' = tl (contents q)"
  using pop_empty [OF assms] pop_item [OF assms] assms by (cases "contents q") auto

lemma exec_refines_spec:
  "inv q \<Longrightarrow> \<exists>q'. fifo_exec push pop q ops = Inr (fst (fifo_spec bound (contents q) ops), q') \<and>
     inv q' \<and> contents q' = snd (fifo_spec bound (contents q) ops)"
proof (induction ops arbitrary: q)
  case (Cons op ops)
  show ?case
  proof (cases op)
    case (Push x)
    from push_spec [OF Cons.prems, of x] obtain q1 where
      q1: "push x q = Inr (length (contents q) < bound, q1)" "inv q1"
        "contents q1 = (if length (contents q) < bound then contents q @ [x] else contents q)"
      by blast
    with Cons.IH [OF q1(2)] Push show ?thesis
      by (auto simp: Let_def split: prod.splits)
  next
    case Pop
    from pop_spec [OF Cons.prems] obtain q1 where
      q1: "pop q = Inr (case contents q of [] \<Rightarrow> None | x # _ \<Rightarrow> Some x, q1)" "inv q1"
        "contents q1 = tl (contents q)"
      by blast
    with Cons.IH [OF q1(2)] Pop show ?thesis
      by (auto simp: Let_def split: prod.splits)
  qed
qed simp

text \<open>Nothing is lost, duplicated or reordered: what was accepted is what was delivered
  followed by what is still queued.\<close>

lemma exec_conserves:
  assumes "inv q"
  shows "\<exists>rs q'. fifo_exec push pop q ops = Inr (rs, q') \<and> inv q' \<and>
    contents q @ accepted ops rs = delivered rs @ contents q'"
proof -
  obtain rs ys where sp: "fifo_spec bound (contents q) ops = (rs, ys)" by force
  with exec_refines_spec [OF assms, of ops] fifo_spec_conserves [OF sp] show ?thesis by auto
qed

lemma exec_new:
  "\<exists>rs q'. fifo_exec push pop new_q ops = Inr (rs, q') \<and> inv q' \<and>
    accepted ops rs = delivered rs @ contents q'"
  using exec_conserves [OF new_inv, of ops] by (simp add: new_contents)

end

end
