(* ===== verification/Spsc_Queue.thy ===== *)
theory Spsc_Queue
  imports Config Fifo_Interface
begin

text \<open>
  \<open>include/spsc_queue.h\<close>: the ring buffer between the receiver thread and the main thread, as
  it behaves when its operations do not overlap. \<open>Spsc_Concurrent\<close> has the interleaved
  accesses. The template arguments are arguments here: \<open>C\<close> is \<open>Capacity\<close>, and the item type's
  default value and what \<open>std::move\<close> leaves behind in a slot are parameters.
\<close>

section \<open>State and operations\<close>

record 'a spsc =
  q_head :: size_t
  q_tail :: size_t
  q_buffer :: "'a list"

definition spsc_static_assert :: "size_t \<Rightarrow> bool" where
  "spsc_static_assert C \<longleftrightarrow> 0 < C \<and> C AND (C - 1) = 0"

definition kMask :: "size_t \<Rightarrow> size_t" where
  "kMask C = C - 1"

definition spsc_new :: "size_t \<Rightarrow> 'a \<Rightarrow> 'a spsc" where
  "spsc_new C dflt = \<lparr>q_head = 0, q_tail = 0, q_buffer = replicate (unat C) dflt\<rparr>"

definition try_push :: "size_t \<Rightarrow> 'a \<Rightarrow> 'a spsc \<Rightarrow> (bool \<times> 'a spsc) result" where
  "try_push C item q =
     (let tail = q_tail q;
          next_tail = (tail + 1) AND kMask C
      in if next_tail = q_head q then Inr (False, q)
         else bind_result (arr_set (q_buffer q) tail item)
           (\<lambda>b. Inr (True, q\<lparr>q_tail := next_tail, q_buffer := b\<rparr>)))"

definition try_pop :: "size_t \<Rightarrow> ('a \<Rightarrow> 'a) \<Rightarrow> 'a spsc \<Rightarrow> ('a option \<times> 'a spsc) result" where
  "try_pop C moved q =
     (let head = q_head q
      in if head = q_tail q then Inr (None, q)
         else bind_result (arr_get (q_buffer q) head) (\<lambda>item.
           bind_result (arr_set (q_buffer q) head (moved item)) (\<lambda>b.
             Inr (Some item, q\<lparr>q_head := (head + 1) AND kMask C, q_buffer := b\<rparr>))))"

definition spsc_empty :: "'a spsc \<Rightarrow> bool" where
  "spsc_empty q \<longleftrightarrow> q_head q = q_tail q"

definition spsc_capacity :: "size_t \<Rightarrow> 'a spsc \<Rightarrow> size_t" where
  "spsc_capacity C q = C"

definition size_approx :: "size_t \<Rightarrow> 'a spsc \<Rightarrow> size_t" where
  "size_approx C q = (q_tail q - q_head q) AND kMask C"

section \<open>Invariant and abstraction\<close>

definition spsc_inv :: "size_t \<Rightarrow> 'a spsc \<Rightarrow> bool" where
  "spsc_inv C q \<longleftrightarrow> spsc_static_assert C \<and> unat (q_head q) < unat C \<and> unat (q_tail q) < unat C \<and>
     length (q_buffer q) = unat C"

definition spsc_len :: "size_t \<Rightarrow> 'a spsc \<Rightarrow> nat" where
  "spsc_len C q = ring_dist (unat C) (unat (q_head q)) (unat (q_tail q))"

definition spsc_list :: "size_t \<Rightarrow> 'a spsc \<Rightarrow> 'a list" where
  "spsc_list C q = map (\<lambda>i. q_buffer q ! ((unat (q_head q) + i) mod unat C)) [0..<spsc_len C q]"

section \<open>Index arithmetic\<close>

lemma spsc_static_assertE:
  assumes "spsc_static_assert C"
  obtains k where "k < 64" and "unat C = 2 ^ k" and "C = 2 ^ k"
  using assms IsPowerOfTwo_unatE by (auto simp: spsc_static_assert_def IsPowerOfTwo_def)

lemma spsc_static_assert_iff: "spsc_static_assert C \<longleftrightarrow> (\<exists>k < 64. C = 2 ^ k)"
  by (simp add: spsc_static_assert_def word_and_pred_eq_0_iff)

lemma capacity_pos: "spsc_static_assert C \<Longrightarrow> 0 < unat C"
  by (auto elim: spsc_static_assertE)

lemma unat_and_kMask:
  assumes "spsc_static_assert C"
  shows "unat (x AND kMask C) = unat x mod unat C"
  using assms by (auto elim!: spsc_static_assertE simp: kMask_def unat_and_mask unat_pow2)

lemma unat_next_index:
  assumes "spsc_static_assert C"
  shows "unat ((x + 1) AND kMask C) = Suc (unat x) mod unat C"
proof -
  from assms obtain k where k: "k < 64" "unat C = 2 ^ k" by (rule spsc_static_assertE)
  then have "(Suc (unat x) mod 2 ^ 64) mod 2 ^ k = Suc (unat x) mod 2 ^ k"
    by (intro mod_mod_cancel pow2_dvd_word_size)
  then show ?thesis
    using k by (simp add: unat_and_kMask [OF assms] unat_word_ariths)
qed

lemma unat_index_distance:
  assumes "spsc_static_assert C" and "unat h < unat C" and "unat t < unat C"
  shows "unat ((t - h) AND kMask C) = ring_dist (unat C) (unat h) (unat t)"
proof -
  from assms(1) obtain k where k: "k < 64" "unat C = 2 ^ k" by (rule spsc_static_assertE)
  then obtain m where m: "(2 :: nat) ^ 64 = 2 ^ k * m"
    by (blast dest: pow2_dvd_word_size)
  show ?thesis
  proof (cases "h \<le> t")
    case True
    then have "unat h \<le> unat t" by (simp add: word_le_nat_alt)
    then have "(unat t + unat C - unat h) mod unat C = (unat t - unat h) mod unat C"
      by (metis Nat.add_diff_assoc2 mod_add_self2)
    with \<open>unat h \<le> unat t\<close> show ?thesis
      by (simp add: unat_and_kMask [OF assms(1)] unat_sub_if' ring_dist_def)
  next
    case False
    then have lt: "unat t < unat h" by (simp add: word_le_nat_alt)
    from m have "0 < m" by (cases m) auto
    then have "2 ^ k \<le> 2 ^ k * m" by simp
    have "(unat t + 2 ^ 64 - unat h) mod 2 ^ k = (unat t + 2 ^ k - unat h) mod 2 ^ k"
    proof -
      have "unat t + 2 ^ 64 - unat h = (unat t + 2 ^ k - unat h) + 2 ^ k * (m - 1)"
        using lt assms(2,3) k m \<open>0 < m\<close> by (cases m) auto
      then show ?thesis by (metis mod_mult_self2)
    qed
    with lt k show ?thesis
      by (simp add: unat_and_kMask [OF assms(1)] unat_sub_if' ring_dist_def)
  qed
qed

section \<open>The operations implement a bounded queue\<close>

lemma spsc_invD:
  assumes "spsc_inv C q"
  shows "spsc_static_assert C" and "unat (q_head q) < unat C" and "unat (q_tail q) < unat C"
    and "length (q_buffer q) = unat C"
  using assms by (simp_all add: spsc_inv_def)

lemma length_spsc_list [simp]: "length (spsc_list C q) = spsc_len C q"
  by (simp add: spsc_list_def)

lemma spsc_new_inv: "spsc_static_assert C \<Longrightarrow> spsc_inv C (spsc_new C d)"
  by (simp add: spsc_inv_def spsc_new_def capacity_pos)

lemma spsc_new_list: "spsc_list C (spsc_new C d) = []"
  by (simp add: spsc_list_def spsc_len_def spsc_new_def ring_dist_def)

lemma spsc_len_bound:
  assumes "spsc_inv C q"
  shows "spsc_len C q \<le> unat C - 1"
  using ring_dist_less [OF capacity_pos [OF spsc_invD(1) [OF assms]],
      of "unat (q_head q)" "unat (q_tail q)"]
  by (simp add: spsc_len_def)

lemma try_push_full:
  assumes inv: "spsc_inv C q" and full: "spsc_len C q = unat C - 1"
  shows "try_push C x q = Inr (False, q)"
proof -
  note d = spsc_invD [OF inv]
  have "unat ((q_tail q + 1) AND kMask C) = unat (q_head q)"
    using full d by (simp add: unat_next_index ring_dist_full_iff spsc_len_def)
  then show ?thesis by (simp add: try_push_def word_unat_eq_iff)
qed

lemma try_push_room:
  assumes inv: "spsc_inv C q" and room: "spsc_len C q < unat C - 1"
  shows "\<exists>q'. try_push C x q = Inr (True, q') \<and> spsc_inv C q' \<and>
    spsc_list C q' = spsc_list C q @ [x]"
proof -
  note d = spsc_invD [OF inv]
  let ?n = "(q_tail q + 1) AND kMask C"
  let ?q = "q\<lparr>q_tail := ?n, q_buffer := (q_buffer q)[unat (q_tail q) := x]\<rparr>"
  have n: "unat ?n = Suc (unat (q_tail q)) mod unat C" by (rule unat_next_index [OF d(1)])
  have "unat ?n \<noteq> unat (q_head q)"
    using room d n by (simp add: ring_dist_full_iff spsc_len_def)
  then have "?n \<noteq> q_head q" by auto
  then have "try_push C x q = Inr (True, ?q)" using d by (simp add: try_push_def Let_def)
  moreover have "spsc_inv C ?q" using d n by (simp add: spsc_inv_def)
  moreover have "spsc_list C ?q = spsc_list C q @ [x]"
    using d n room ring_dist_Suc_tail [OF d(2,3)]
    by (auto simp: spsc_list_def spsc_len_def ring_index_end dest: ring_index_inner)
  ultimately show ?thesis by blast
qed

lemma try_pop_empty:
  assumes "spsc_inv C q" and "spsc_list C q = []"
  shows "try_pop C mv q = Inr (None, q)"
proof -
  from assms(2) have "spsc_len C q = 0" by (metis length_spsc_list list.size(3))
  with spsc_invD [OF assms(1)] have "q_head q = q_tail q"
    by (simp add: spsc_len_def ring_dist_0_iff word_unat_eq_iff)
  then show ?thesis by (simp add: try_pop_def)
qed

lemma try_pop_item:
  assumes inv: "spsc_inv C q" and xs: "spsc_list C q = x # xs"
  shows "\<exists>q'. try_pop C mv q = Inr (Some x, q') \<and> spsc_inv C q' \<and> spsc_list C q' = xs"
proof -
  note d = spsc_invD [OF inv]
  let ?h = "unat (q_head q)"
  let ?n = "(q_head q + 1) AND kMask C"
  let ?q = "q\<lparr>q_head := ?n, q_buffer := (q_buffer q)[?h := mv (q_buffer q ! ?h)]\<rparr>"
  have n: "unat ?n = Suc ?h mod unat C" by (rule unat_next_index [OF d(1)])
  from xs have len: "spsc_len C q = Suc (length xs)" by (metis length_Cons length_spsc_list)
  then have ne: "?h \<noteq> unat (q_tail q)"
    using d ring_dist_0_iff [OF d(2,3)] by (auto simp: spsc_len_def)
  then have "q_head q \<noteq> q_tail q" by auto
  moreover have "x = q_buffer q ! ?h" and tl:
    "xs = map (\<lambda>i. q_buffer q ! ((?h + Suc i) mod unat C)) [0..<length xs]"
    using xs len d(2)
    by (auto simp: spsc_list_def upt_conv_Cons comp_def simp flip: map_Suc_upt simp del: upt_Suc)
  ultimately have "try_pop C mv q = Inr (Some x, ?q)"
    using d by (simp add: try_pop_def Let_def)
  moreover have "spsc_inv C ?q" using d n by (simp add: spsc_inv_def)
  moreover have "spsc_list C ?q = xs"
  proof -
    have "spsc_len C ?q = length xs"
      using len n ring_dist_Suc_head [OF d(2,3) ne] by (simp add: spsc_len_def)
    moreover have "?h \<noteq> (?h + Suc i) mod unat C" if "i < length xs" for i
      using that len spsc_len_bound [OF inv] d(2) ring_index [of ?h "unat C" "Suc i"]
      by (auto split: if_splits)
    ultimately show ?thesis
      using n by (subst tl) (auto simp: spsc_list_def mod_simps)
  qed
  ultimately show ?thesis by blast
qed

text \<open>The contract of the message queue holds for every capacity the static assertion lets
  through; the program instantiates it at its own capacity.\<close>

locale spsc_template =
  fixes C :: size_t and dflt :: 'a and moved :: "'a \<Rightarrow> 'a"
  assumes static_assert: "spsc_static_assert C"

sublocale spsc_template \<subseteq> fifo:
  bounded_fifo "spsc_new C dflt" "try_push C" "try_pop C moved" "spsc_inv C" "spsc_list C" "unat C - 1"
proof unfold_locales
  show "spsc_inv C (spsc_new C dflt)" by (rule spsc_new_inv [OF static_assert])
  show "spsc_list C (spsc_new C dflt) = []" by (rule spsc_new_list)
qed (auto simp del: One_nat_def intro: spsc_len_bound try_push_room try_push_full try_pop_empty try_pop_item)


context spsc_template
begin

lemma push_any_capacity:
  "spsc_inv C q \<Longrightarrow> \<exists>q'. try_push C x q = Inr (length (spsc_list C q) < unat C - 1, q') \<and>
    spsc_inv C q' \<and> spsc_list C q' =
      (if length (spsc_list C q) < unat C - 1 then spsc_list C q @ [x] else spsc_list C q)"
  for x :: 'a
  by (rule fifo.push_spec)

lemma pop_any_capacity:
  "spsc_inv C q \<Longrightarrow> \<exists>q'. try_pop C moved q =
      Inr (case spsc_list C q of [] \<Rightarrow> None | x # _ \<Rightarrow> Some x, q') \<and>
    spsc_inv C q' \<and> spsc_list C q' = tl (spsc_list C q)"
  by (rule fifo.pop_spec)

end

interpretation message_queue: spsc_template kQueueCapacity dflt moved for dflt :: 'a and moved
  by unfold_locales (simp add: spsc_static_assert_def kQueueCapacity_def)

lemma spsc_queries_exact:
  assumes "spsc_inv C q"
  shows "unat (size_approx C q) = length (spsc_list C q)"
    and "spsc_empty q \<longleftrightarrow> spsc_list C q = []"
proof -
  note d = spsc_invD [OF assms]
  show "unat (size_approx C q) = length (spsc_list C q)"
    using unat_index_distance [OF d(1-3)] by (simp add: size_approx_def spsc_len_def)
  have "spsc_list C q = [] \<longleftrightarrow> spsc_len C q = 0"
    by (metis length_0_conv length_spsc_list)
  then show "spsc_empty q \<longleftrightarrow> spsc_list C q = []"
    using d by (simp add: spsc_empty_def spsc_len_def ring_dist_0_iff word_unat_eq_iff)
qed

lemma try_push_tail:
  assumes inv: "spsc_inv C q" and C: "1 < unat C" and push: "try_push C x q = Inr (ok, q')"
  shows "q_tail q' \<noteq> q_tail q \<longleftrightarrow> ok"
proof -
  note d = spsc_invD [OF inv]
  have "unat ((q_tail q + 1) AND kMask C) \<noteq> unat (q_tail q)"
    using unat_next_index [OF d(1), of "q_tail q"] d(3) C by (auto simp: mod_Suc)
  then have "(q_tail q + 1) AND kMask C \<noteq> q_tail q" by auto
  with push show ?thesis by (auto simp: try_push_def Let_def split: if_splits)
qed

section \<open>Properties\<close>

text \<open>C4: \<open>try_push\<close> on a well-formed queue never indexes outside the buffer; it returns true
  exactly when fewer than \<open>Capacity - 1\<close> items are queued, then appends the item at the back
  and keeps the invariant, and otherwise leaves the contents alone.\<close>

theorem try_push_refines:
  assumes "spsc_inv C q"
  shows "\<exists>q'. try_push C x q = Inr (length (spsc_list C q) < unat C - 1, q') \<and> spsc_inv C q' \<and>
    spsc_list C q' = (if length (spsc_list C q) < unat C - 1 then spsc_list C q @ [x] else spsc_list C q)"
  by (rule spsc_template.push_any_capacity [OF spsc_template.intro [OF spsc_invD(1) [OF assms]] assms])

theorem try_push_refines_witness:
  "\<exists>q'. try_push 4 (9 :: nat) (spsc_new 4 0) = Inr (True, q') \<and> spsc_inv 4 q' \<and> spsc_list 4 q' = [9]"
proof -
  have inv: "spsc_inv 4 (spsc_new 4 (0 :: nat))"
    by (rule spsc_new_inv) (simp add: spsc_static_assert_def)
  show ?thesis using try_push_refines [OF inv, of 9] by (simp add: spsc_new_list del: length_spsc_list)
qed

text \<open>C5: \<open>try_pop\<close> on a well-formed queue never indexes outside the buffer; it returns the
  oldest item and removes it, or nothing when the queue is empty, whatever a move leaves
  behind in the slot.\<close>

theorem try_pop_refines:
  assumes "spsc_inv C q"
  shows "\<exists>q'. try_pop C moved q = Inr (case spsc_list C q of [] \<Rightarrow> None | x # _ \<Rightarrow> Some x, q') \<and>
    spsc_inv C q' \<and> spsc_list C q' = tl (spsc_list C q)"
  by (rule spsc_template.pop_any_capacity [OF spsc_template.intro [OF spsc_invD(1) [OF assms]] assms])

theorem try_pop_refines_witness:
  "\<exists>q'. try_pop 2 (\<lambda>_. 0) \<lparr>q_head = 1, q_tail = 0, q_buffer = [3, 8 :: nat]\<rparr> = Inr (Some 8, q') \<and>
    spsc_inv 2 q' \<and> spsc_list 2 q' = []"
proof -
  let ?q = "\<lparr>q_head = 1, q_tail = 0, q_buffer = [3, 8 :: nat]\<rparr>"
  have inv: "spsc_inv 2 ?q" by (simp add: spsc_inv_def spsc_static_assert_def)
  have "spsc_list 2 ?q = [8]" by (simp add: spsc_list_def spsc_len_def ring_dist_def)
  then show ?thesis using try_pop_refines [OF inv, of "\<lambda>_. 0"] by simp
qed

text \<open>C6: Any sequence of pushes and pops on the client's fresh message queue runs without
  undefined behaviour and returns what the bounded queue of 1023 items returns; the accepted
  messages are the delivered ones followed by the queued ones, in order.\<close>

theorem message_queue_run:
  "\<exists>q'. fifo_exec (try_push kQueueCapacity) (try_pop kQueueCapacity moved) (spsc_new kQueueCapacity dflt) ops =
      Inr (fst (fifo_spec 1023 [] ops), q') \<and>
    accepted ops (fst (fifo_spec 1023 [] ops)) =
      delivered (fst (fifo_spec 1023 [] ops)) @ spsc_list kQueueCapacity q'"
  using message_queue.fifo.exec_refines_spec [OF message_queue.fifo.new_inv, of moved dflt ops]
    fifo_spec_conserves [of 1023 "[]" ops]
  by (auto simp: message_queue.fifo.new_contents unat_kQueueCapacity prod_eq_iff)

text \<open>\<open>size_approx\<close> and \<open>empty\<close> are exact when no call is in progress: the masked 64-bit
  difference of the indices is the number of queued items, also after the tail has wrapped
  past the head.\<close>

theorem size_approx_exact:
  assumes "spsc_inv C q"
  shows "unat (size_approx C q) = length (spsc_list C q) \<and> (spsc_empty q \<longleftrightarrow> spsc_list C q = [])"
  using spsc_queries_exact [OF assms] by blast

theorem size_approx_exact_witness:
  "unat (size_approx 2 \<lparr>q_head = 1, q_tail = 0, q_buffer = [3, 8 :: nat]\<rparr>) = 1"
proof -
  let ?q = "\<lparr>q_head = 1, q_tail = 0, q_buffer = [3, 8 :: nat]\<rparr>"
  have inv: "spsc_inv 2 ?q" by (simp add: spsc_inv_def spsc_static_assert_def)
  have "spsc_list 2 ?q = [8]" by (simp add: spsc_list_def spsc_len_def ring_dist_def)
  then show ?thesis using size_approx_exact [OF inv] by simp
qed

text \<open>The static assertion of the queue template admits exactly the powers of two up to
  \<open>2 ^ 63\<close>, and on those the masked increment is the increment modulo the capacity.\<close>

lemma static_assert_admits_powers_of_two:
  "(spsc_static_assert C \<longleftrightarrow> (\<exists>k < 64. C = 2 ^ k)) \<and>
   (spsc_static_assert C \<longrightarrow> unat ((i + 1) AND kMask C) = Suc (unat i) mod unat C)"
  using spsc_static_assert_iff unat_next_index by blast

end
