(* ===== verification/Spsc_Concurrent.thy ===== *)
theory Spsc_Concurrent
  imports Spsc_Queue
begin

text \<open>
  \<open>include/spsc_queue.h\<close> under concurrency: one producer inside \<open>try_push\<close> and one consumer
  inside \<open>try_pop\<close>, interleaved access by access, with the memory orders the source names.
  An atomic variable is its modification order, the list of the values stored to it. An
  acquire load of the other thread's variable may return any value of that order that is
  not older than what the thread has read before; the relaxed load of a thread's own
  variable returns its last store. The slots of the buffer are plain memory. Each access to
  a slot leaves a stamp, the index in the modification order of the release store that
  comes after it in its own thread; the other thread's next access to the slot is ordered
  after it only if that thread has acquired that store or a later one, and is otherwise a
  data race, which the flag \<open>raced\<close> records.
\<close>

section \<open>Threads and memory\<close>

datatype 'a producer_pc =
    PIdle
  | PLoaded 'a size_t
  | PChecked 'a size_t size_t
  | PWritten 'a size_t size_t

datatype 'a consumer_pc =
    CIdle
  | CLoaded size_t
  | CChecked size_t
  | CTaken size_t 'a

record 'a ra_state =
  tail_hist :: "size_t list"
  head_hist :: "size_t list"
  p_seen :: nat
  c_seen :: nat
  slots :: "'a list"
  w_stamp :: "nat list"
  r_stamp :: "nat list"
  raced :: bool
  ppc :: "'a producer_pc"
  cpc :: "'a consumer_pc"
  pushed :: "'a list"
  popped :: "'a list"

definition ra_init :: "size_t \<Rightarrow> 'a \<Rightarrow> 'a ra_state" where
  "ra_init C dflt = \<lparr>tail_hist = [0], head_hist = [0], p_seen = 0, c_seen = 0,
     slots = replicate (unat C) dflt, w_stamp = replicate (unat C) 0, r_stamp = replicate (unat C) 0,
     raced = False, ppc = PIdle, cpc = CIdle, pushed = [], popped = []\<rparr>"

text \<open>A plain access to slot \<open>i\<close> by a thread that has acquired the other thread's stores up to
  \<open>seen\<close>: out of range, or not ordered after the other thread's last access.\<close>

definition bad_access :: "nat list \<Rightarrow> nat \<Rightarrow> nat \<Rightarrow> bool" where
  "bad_access stamps i seen \<longleftrightarrow> \<not> (i < length stamps \<and> stamps ! i \<le> seen)"

inductive ra_step :: "size_t \<Rightarrow> ('a \<Rightarrow> 'a) \<Rightarrow> 'a ra_state \<Rightarrow> 'a ra_state \<Rightarrow> bool"
  for C :: size_t and moved :: "'a \<Rightarrow> 'a"
where
  push_call: "ppc s = PIdle \<Longrightarrow>
    ra_step C moved s (s\<lparr>ppc := PLoaded x (last (tail_hist s))\<rparr>)"
| push_full: "ppc s = PLoaded x t \<Longrightarrow> p_seen s \<le> j \<Longrightarrow> j < length (head_hist s) \<Longrightarrow>
    (t + 1) AND kMask C = head_hist s ! j \<Longrightarrow>
    ra_step C moved s (s\<lparr>p_seen := j, ppc := PIdle\<rparr>)"
| push_room: "ppc s = PLoaded x t \<Longrightarrow> p_seen s \<le> j \<Longrightarrow> j < length (head_hist s) \<Longrightarrow>
    (t + 1) AND kMask C \<noteq> head_hist s ! j \<Longrightarrow>
    ra_step C moved s (s\<lparr>p_seen := j, ppc := PChecked x t ((t + 1) AND kMask C)\<rparr>)"
| push_write: "ppc s = PChecked x t n \<Longrightarrow>
    ra_step C moved s (s\<lparr>slots := (slots s)[unat t := x],
      w_stamp := (w_stamp s)[unat t := length (tail_hist s)],
      raced := raced s \<or> bad_access (r_stamp s) (unat t) (p_seen s),
      ppc := PWritten x t n\<rparr>)"
| push_publish: "ppc s = PWritten x t n \<Longrightarrow>
    ra_step C moved s (s\<lparr>tail_hist := tail_hist s @ [n], ppc := PIdle, pushed := pushed s @ [x]\<rparr>)"
| pop_call: "cpc s = CIdle \<Longrightarrow>
    ra_step C moved s (s\<lparr>cpc := CLoaded (last (head_hist s))\<rparr>)"
| pop_none: "cpc s = CLoaded h \<Longrightarrow> c_seen s \<le> j \<Longrightarrow> j < length (tail_hist s) \<Longrightarrow>
    h = tail_hist s ! j \<Longrightarrow>
    ra_step C moved s (s\<lparr>c_seen := j, cpc := CIdle\<rparr>)"
| pop_some: "cpc s = CLoaded h \<Longrightarrow> c_seen s \<le> j \<Longrightarrow> j < length (tail_hist s) \<Longrightarrow>
    h \<noteq> tail_hist s ! j \<Longrightarrow>
    ra_step C moved s (s\<lparr>c_seen := j, cpc := CChecked h\<rparr>)"
| pop_take: "cpc s = CChecked h \<Longrightarrow>
    ra_step C moved s (s\<lparr>slots := (slots s)[unat h := moved (slots s ! unat h)],
      r_stamp := (r_stamp s)[unat h := length (head_hist s)],
      raced := raced s \<or> bad_access (w_stamp s) (unat h) (c_seen s),
      cpc := CTaken h (slots s ! unat h)\<rparr>)"
| pop_publish: "cpc s = CTaken h x \<Longrightarrow>
    ra_step C moved s (s\<lparr>head_hist := head_hist s @ [(h + 1) AND kMask C], cpc := CIdle,
      popped := popped s @ [x]\<rparr>)"

inductive ra_reachable :: "size_t \<Rightarrow> 'a \<Rightarrow> ('a \<Rightarrow> 'a) \<Rightarrow> 'a ra_state \<Rightarrow> bool"
  for C :: size_t and dflt :: 'a and moved :: "'a \<Rightarrow> 'a"
where
  ra_start: "ra_reachable C dflt moved (ra_init C dflt)"
| ra_next: "ra_reachable C dflt moved s \<Longrightarrow> ra_step C moved s s' \<Longrightarrow> ra_reachable C dflt moved s'"

section \<open>Invariant\<close>

fun mid_push :: "'a producer_pc \<Rightarrow> nat" where
  "mid_push (PWritten _ _ _) = 1"
| "mid_push _ = 0"

fun mid_pop :: "'a consumer_pc \<Rightarrow> nat" where
  "mid_pop (CTaken _ _) = 1"
| "mid_pop _ = 0"

definition taken :: "'a ra_state \<Rightarrow> nat" where
  "taken s = length (popped s) + mid_pop (cpc s)"

definition written :: "'a ra_state \<Rightarrow> nat" where
  "written s = length (pushed s) + mid_push (ppc s)"

text \<open>The \<open>j\<close>-th store to an index variable stored \<open>j\<close> modulo the capacity.\<close>

definition counts :: "nat \<Rightarrow> size_t list \<Rightarrow> nat \<Rightarrow> bool" where
  "counts c hist n \<longleftrightarrow> length hist = Suc n \<and> (\<forall>j \<le> n. unat (hist ! j) = j mod c)"

definition stamped :: "nat \<Rightarrow> nat list \<Rightarrow> nat \<Rightarrow> bool" where
  "stamped c stamps n \<longleftrightarrow> length stamps = c \<and>
     (\<forall>i < c. stamps ! i = 0 \<or> (\<exists>j < n. j mod c = i \<and> stamps ! i = Suc j))"

definition ra_order :: "size_t \<Rightarrow> 'a ra_state \<Rightarrow> bool" where
  "ra_order C s \<longleftrightarrow> spsc_static_assert C \<and>
     counts (unat C) (tail_hist s) (length (pushed s)) \<and>
     counts (unat C) (head_hist s) (length (popped s)) \<and>
     p_seen s \<le> length (popped s) \<and> length (popped s) \<le> c_seen s \<and>
     c_seen s \<le> length (pushed s) \<and> length (pushed s) < p_seen s + unat C"

fun producer_ok :: "size_t \<Rightarrow> size_t \<Rightarrow> nat \<Rightarrow> nat \<Rightarrow> 'a list \<Rightarrow> 'a producer_pc \<Rightarrow> bool" where
  "producer_ok C tv np seen sl PIdle \<longleftrightarrow> True"
| "producer_ok C tv np seen sl (PLoaded x t) \<longleftrightarrow> t = tv"
| "producer_ok C tv np seen sl (PChecked x t n) \<longleftrightarrow>
     t = tv \<and> n = (t + 1) AND kMask C \<and> Suc np < seen + unat C"
| "producer_ok C tv np seen sl (PWritten x t n) \<longleftrightarrow>
     t = tv \<and> n = (t + 1) AND kMask C \<and> Suc np < seen + unat C \<and> sl ! (np mod unat C) = x"

fun consumer_ok :: "size_t \<Rightarrow> nat \<Rightarrow> nat \<Rightarrow> 'a list \<Rightarrow> 'a consumer_pc \<Rightarrow> bool" where
  "consumer_ok hv nc seen ps CIdle \<longleftrightarrow> True"
| "consumer_ok hv nc seen ps (CLoaded h) \<longleftrightarrow> h = hv"
| "consumer_ok hv nc seen ps (CChecked h) \<longleftrightarrow> h = hv \<and> nc < seen"
| "consumer_ok hv nc seen ps (CTaken h x) \<longleftrightarrow> h = hv \<and> nc < seen \<and> x = ps ! nc"

definition ra_threads :: "size_t \<Rightarrow> 'a ra_state \<Rightarrow> bool" where
  "ra_threads C s \<longleftrightarrow>
     producer_ok C (last (tail_hist s)) (length (pushed s)) (p_seen s) (slots s) (ppc s) \<and>
     consumer_ok (last (head_hist s)) (length (popped s)) (c_seen s) (pushed s) (cpc s)"

definition ra_slots :: "size_t \<Rightarrow> 'a ra_state \<Rightarrow> bool" where
  "ra_slots C s \<longleftrightarrow> length (slots s) = unat C \<and> popped s = take (length (popped s)) (pushed s) \<and>
     (\<forall>j. taken s \<le> j \<and> j < length (pushed s) \<longrightarrow> slots s ! (j mod unat C) = pushed s ! j)"

definition ra_stamps :: "size_t \<Rightarrow> 'a ra_state \<Rightarrow> bool" where
  "ra_stamps C s \<longleftrightarrow> stamped (unat C) (w_stamp s) (written s) \<and>
     stamped (unat C) (r_stamp s) (taken s) \<and> \<not> raced s"

definition ra_inv :: "size_t \<Rightarrow> 'a ra_state \<Rightarrow> bool" where
  "ra_inv C s \<longleftrightarrow> ra_order C s \<and> ra_threads C s \<and> ra_slots C s \<and> ra_stamps C s"

lemmas ra_defs = ra_order_def ra_threads_def ra_slots_def ra_stamps_def taken_def written_def

section \<open>Preservation\<close>

lemma counts_last: "counts c hist n \<Longrightarrow> unat (last hist) = n mod c"
  by (cases hist rule: rev_cases) (auto simp: counts_def nth_append)

lemma counts_snoc:
  "counts c hist n \<Longrightarrow> unat v = Suc n mod c \<Longrightarrow> counts c (hist @ [v]) (Suc n)"
  by (auto simp: counts_def nth_append le_Suc_eq)

lemma counts_nth: "counts c hist n \<Longrightarrow> j < length hist \<Longrightarrow> unat (hist ! j) = j mod c"
  by (simp add: counts_def less_Suc_eq_le)

lemma stamped_mono: "stamped c st n \<Longrightarrow> n \<le> m \<Longrightarrow> stamped c st m"
  by (force simp: stamped_def)

lemma stamped_update:
  assumes "stamped c st n" and "0 < c"
  shows "stamped c (st[n mod c := Suc n]) (Suc n)"
  using assms by (force simp: stamped_def nth_list_update)

lemma stampedE:
  assumes "stamped c st m" and "0 < c"
  obtains "st ! (n mod c) = 0" | j where "j < m" "j mod c = n mod c" "st ! (n mod c) = Suc j"
proof -
  have "st ! (n mod c) = 0 \<or> (\<exists>j < m. j mod c = n mod c \<and> st ! (n mod c) = Suc j)"
    using assms by (simp add: stamped_def)
  with that show thesis by metis
qed

text \<open>A later access to the slot of position \<open>n\<close> finds the stamp of a position at most \<open>n\<close> if the
  other thread is less than a lap ahead.\<close>

lemma stamped_le:
  assumes st: "stamped c st m" and c: "0 < c" and lap: "m \<le> n + c"
  shows "st ! (n mod c) \<le> Suc n"
proof -
  from st c show ?thesis
  proof (cases rule: stampedE [where n = n])
    case (2 j)
    have "j \<le> n"
    proof (rule ccontr)
      assume "\<not> j \<le> n"
      then show False using mod_eq_close [of n c j] 2 lap by auto
    qed
    with 2 show ?thesis by simp
  qed simp
qed

text \<open>If moreover \<open>n\<close> itself has not been stamped, the stamp is a whole lap older.\<close>

lemma stamped_lap:
  assumes st: "stamped c st m" and c: "0 < c" and fresh: "m \<le> n"
  shows "st ! (n mod c) = 0 \<or> st ! (n mod c) + c \<le> Suc n"
proof -
  from st c show ?thesis
  proof (cases rule: stampedE [where n = n])
    case (2 j)
    have "j + c \<le> n"
    proof (rule ccontr)
      assume "\<not> j + c \<le> n"
      then show False using mod_eq_close [of j c n] 2 fresh by auto
    qed
    with 2 show ?thesis by simp
  qed simp
qed

lemma consumer_ok_taken_le:
  "consumer_ok hv nc seen ps pc \<Longrightarrow> nc \<le> seen \<Longrightarrow> nc + mid_pop pc \<le> seen"
  by (cases pc) auto

lemma producer_ok_written_less:
  "producer_ok C tv np seen sl pc \<Longrightarrow> np < seen + unat C \<Longrightarrow> np + mid_push pc < seen + unat C"
  by (cases pc) auto

lemma consumer_ok_append:
  "consumer_ok hv nc seen ps pc \<Longrightarrow> seen \<le> length ps \<Longrightarrow> consumer_ok hv nc seen (ps @ qs) pc"
  by (cases pc) (auto simp: nth_append)

lemma ra_inv_init: "spsc_static_assert C \<Longrightarrow> ra_inv C (ra_init C d)"
  by (auto simp: ra_inv_def ra_defs ra_init_def counts_def stamped_def capacity_pos)

lemma ra_inv_push_call:
  assumes "ra_inv C s" and "ppc s = PIdle"
  shows "ra_inv C (s\<lparr>ppc := PLoaded x (last (tail_hist s))\<rparr>)"
  using assms by (simp add: ra_inv_def ra_defs)

lemma ra_inv_push_full:
  assumes "ra_inv C s" and "ppc s = PLoaded x t" and "p_seen s \<le> j" and "j < length (head_hist s)"
  shows "ra_inv C (s\<lparr>p_seen := j, ppc := PIdle\<rparr>)"
  using assms by (auto simp: ra_inv_def ra_defs counts_def)

lemma ra_inv_push_room:
  assumes "ra_inv C s" and "ppc s = PLoaded x t" and "p_seen s \<le> j" and "j < length (head_hist s)"
    and ne: "(t + 1) AND kMask C \<noteq> head_hist s ! j"
  shows "ra_inv C (s\<lparr>p_seen := j, ppc := PChecked x t ((t + 1) AND kMask C)\<rparr>)"
proof -
  have sa: "spsc_static_assert C" and t: "t = last (tail_hist s)"
    and ct: "counts (unat C) (tail_hist s) (length (pushed s))"
    and ch: "counts (unat C) (head_hist s) (length (popped s))"
    and lap: "length (pushed s) < j + unat C"
    using assms by (auto simp: ra_inv_def ra_defs)
  have "unat ((t + 1) AND kMask C) = Suc (length (pushed s)) mod unat C"
    using counts_last [OF ct] by (simp add: unat_next_index [OF sa] t mod_Suc_eq)
  moreover have "unat (head_hist s ! j) = j mod unat C"
    using counts_nth [OF ch] assms(4) by simp
  ultimately have "Suc (length (pushed s)) mod unat C \<noteq> j mod unat C"
    using ne by (auto simp: word_unat_eq_iff)
  then have "Suc (length (pushed s)) \<noteq> j + unat C" by (metis mod_add_self2)
  with lap have "Suc (length (pushed s)) < j + unat C" by simp
  then show ?thesis using assms(1-4) by (auto simp: ra_inv_def ra_defs counts_def)
qed

lemma ra_inv_push_write:
  assumes inv: "ra_inv C s" and pc: "ppc s = PChecked x t n"
  shows "ra_inv C (s\<lparr>slots := (slots s)[unat t := x],
      w_stamp := (w_stamp s)[unat t := length (tail_hist s)],
      raced := raced s \<or> bad_access (r_stamp s) (unat t) (p_seen s),
      ppc := PWritten x t n\<rparr>)" (is "ra_inv C ?s")
proof -
  let ?np = "length (pushed s)" and ?c = "unat C"
  have sa: "spsc_static_assert C" and ct: "counts ?c (tail_hist s) ?np"
    and room: "Suc ?np < p_seen s + ?c" and t: "t = last (tail_hist s)"
    and seen: "p_seen s \<le> length (popped s)" "taken s \<le> ?np"
    and st: "stamped ?c (r_stamp s) (taken s)" "stamped ?c (w_stamp s) ?np"
    and len: "length (slots s) = ?c"
    using inv pc consumer_ok_taken_le by (fastforce simp: ra_inv_def ra_defs)+
  note c = capacity_pos [OF sa]
  have ut: "unat t = ?np mod ?c" using counts_last [OF ct] t by simp
  have "r_stamp s ! (?np mod ?c) \<le> p_seen s"
    using stamped_lap [OF st(1) c seen(2)] room by linarith
  then have ok: "\<not> bad_access (r_stamp s) (unat t) (p_seen s)"
    using st(1) c by (simp add: bad_access_def ut stamped_def)
  have wst: "stamped ?c ((w_stamp s)[unat t := length (tail_hist s)]) (Suc ?np)"
    using stamped_update [OF st(2) c] ct by (simp add: ut counts_def)
  have keep: "?np mod ?c \<noteq> j mod ?c" if "taken s \<le> j" "j < ?np" for j
  proof
    assume "?np mod ?c = j mod ?c"
    moreover have "length (popped s) \<le> taken s" by (simp add: taken_def)
    ultimately have "j = ?np"
      using mod_eq_close [of j ?c ?np] that seen(1) room by simp
    with that(2) show False by simp
  qed
  have "ra_order C ?s" "ra_threads C ?s"
    using inv pc ut len c by (auto simp: ra_inv_def ra_defs)
  moreover have "ra_slots C ?s"
    using inv pc keep by (auto simp: ra_inv_def ra_slots_def ut taken_def)
  moreover have "ra_stamps C ?s"
    using inv pc ok wst by (auto simp: ra_inv_def ra_stamps_def taken_def written_def)
  ultimately show ?thesis by (simp add: ra_inv_def)
qed

lemma ra_inv_push_publish:
  assumes inv: "ra_inv C s" and pc: "ppc s = PWritten x t n"
  shows "ra_inv C (s\<lparr>tail_hist := tail_hist s @ [n], ppc := PIdle, pushed := pushed s @ [x]\<rparr>)"
proof -
  let ?np = "length (pushed s)" and ?c = "unat C"
  have sa: "spsc_static_assert C" and ct: "counts ?c (tail_hist s) ?np"
    and n: "n = (last (tail_hist s) + 1) AND kMask C" and x: "slots s ! (?np mod ?c) = x"
    and le: "length (popped s) \<le> ?np"
    using inv pc by (auto simp: ra_inv_def ra_defs)
  have "unat n = Suc ?np mod ?c"
    using counts_last [OF ct] by (simp add: n unat_next_index [OF sa] mod_Suc_eq)
  then have "counts ?c (tail_hist s @ [n]) (Suc ?np)" by (rule counts_snoc [OF ct])
  then show ?thesis
    using inv pc x le
    by (auto simp: ra_inv_def ra_defs nth_append less_Suc_eq intro: consumer_ok_append)
qed

lemma ra_inv_pop_call:
  assumes "ra_inv C s" and "cpc s = CIdle"
  shows "ra_inv C (s\<lparr>cpc := CLoaded (last (head_hist s))\<rparr>)"
  using assms by (simp add: ra_inv_def ra_defs)

lemma ra_inv_pop_none:
  assumes "ra_inv C s" and "cpc s = CLoaded h" and "c_seen s \<le> j" and "j < length (tail_hist s)"
  shows "ra_inv C (s\<lparr>c_seen := j, cpc := CIdle\<rparr>)"
  using assms by (auto simp: ra_inv_def ra_defs counts_def)

lemma ra_inv_pop_some:
  assumes "ra_inv C s" and "cpc s = CLoaded h" and "c_seen s \<le> j" and "j < length (tail_hist s)"
    and ne: "h \<noteq> tail_hist s ! j"
  shows "ra_inv C (s\<lparr>c_seen := j, cpc := CChecked h\<rparr>)"
proof -
  have h: "h = last (head_hist s)" and le: "length (popped s) \<le> j"
    and ct: "counts (unat C) (tail_hist s) (length (pushed s))"
    and ch: "counts (unat C) (head_hist s) (length (popped s))"
    using assms by (auto simp: ra_inv_def ra_defs)
  have "unat h = length (popped s) mod unat C" "unat (tail_hist s ! j) = j mod unat C"
    using counts_last [OF ch] counts_nth [OF ct] assms(4) h by simp_all
  with ne have "length (popped s) \<noteq> j" by (auto simp: word_unat_eq_iff)
  with le have "length (popped s) < j" by simp
  then show ?thesis using assms(1-4) by (auto simp: ra_inv_def ra_defs counts_def)
qed

lemma ra_inv_pop_take:
  assumes inv: "ra_inv C s" and pc: "cpc s = CChecked h"
  shows "ra_inv C (s\<lparr>slots := (slots s)[unat h := moved (slots s ! unat h)],
      r_stamp := (r_stamp s)[unat h := length (head_hist s)],
      raced := raced s \<or> bad_access (w_stamp s) (unat h) (c_seen s),
      cpc := CTaken h (slots s ! unat h)\<rparr>)" (is "ra_inv C ?s")
proof -
  let ?nc = "length (popped s)" and ?np = "length (pushed s)" and ?c = "unat C"
  have sa: "spsc_static_assert C" and ch: "counts ?c (head_hist s) ?nc"
    and h: "h = last (head_hist s)" and some: "?nc < c_seen s" "c_seen s \<le> ?np"
    and seen: "p_seen s \<le> ?nc" and wr: "written s < p_seen s + ?c"
    and st: "stamped ?c (w_stamp s) (written s)" "stamped ?c (r_stamp s) ?nc"
    and cont: "slots s ! (?nc mod ?c) = pushed s ! ?nc"
    using inv pc producer_ok_written_less by (fastforce simp: ra_inv_def ra_defs)+
  note c = capacity_pos [OF sa]
  have uh: "unat h = ?nc mod ?c" using counts_last [OF ch] h by simp
  have "w_stamp s ! (?nc mod ?c) \<le> c_seen s"
    using stamped_le [OF st(1) c, of ?nc] wr seen some(1) by linarith
  then have ok: "\<not> bad_access (w_stamp s) (unat h) (c_seen s)"
    using st(1) c by (simp add: bad_access_def uh stamped_def)
  have rst: "stamped ?c ((r_stamp s)[unat h := length (head_hist s)]) (Suc ?nc)"
    using stamped_update [OF st(2) c] ch by (simp add: uh counts_def)
  have keep: "?nc mod ?c \<noteq> j mod ?c" if "?nc < j" "j < ?nc + ?c" for j
    using mod_eq_close [of ?nc ?c j] that by auto
  have keepP: "producer_ok C tv ?np (p_seen s) ((slots s)[unat h := v]) (ppc s)"
    if "producer_ok C tv ?np (p_seen s) (slots s) (ppc s)" for tv v
    using that keep [of ?np] some seen by (cases "ppc s") (auto simp: uh)
  have "ra_order C ?s" "ra_threads C ?s"
    using inv pc uh cont keepP by (auto simp: ra_inv_def ra_defs)
  moreover have "ra_slots C ?s"
    using inv pc keep seen by (auto simp: ra_inv_def ra_slots_def uh taken_def ra_order_def)
  moreover have "ra_stamps C ?s"
    using inv pc ok rst by (auto simp: ra_inv_def ra_stamps_def taken_def written_def)
  ultimately show ?thesis by (simp add: ra_inv_def)
qed

lemma ra_inv_pop_publish:
  assumes inv: "ra_inv C s" and pc: "cpc s = CTaken h x"
  shows "ra_inv C (s\<lparr>head_hist := head_hist s @ [(h + 1) AND kMask C], cpc := CIdle,
      popped := popped s @ [x]\<rparr>)"
proof -
  let ?nc = "length (popped s)" and ?c = "unat C"
  have sa: "spsc_static_assert C" and ch: "counts ?c (head_hist s) ?nc"
    and h: "h = last (head_hist s)" and x: "x = pushed s ! ?nc" and lt: "?nc < length (pushed s)"
    and pre: "popped s = take ?nc (pushed s)"
    using inv pc by (auto simp: ra_inv_def ra_defs)
  have "unat ((h + 1) AND kMask C) = Suc ?nc mod ?c"
    using counts_last [OF ch] by (simp add: h unat_next_index [OF sa] mod_Suc_eq)
  then have "counts ?c (head_hist s @ [(h + 1) AND kMask C]) (Suc ?nc)" by (rule counts_snoc [OF ch])
  moreover have "popped s @ [x] = take (Suc ?nc) (pushed s)"
    using pre x lt by (simp add: take_Suc_conv_app_nth)
  ultimately show ?thesis
    using inv pc by (auto simp: ra_inv_def ra_defs)
qed

lemma ra_step_inv: "ra_step C moved s s' \<Longrightarrow> ra_inv C s \<Longrightarrow> ra_inv C s'"
  by (induction rule: ra_step.induct)
    (simp_all add: ra_inv_push_call ra_inv_push_full ra_inv_push_room ra_inv_push_write
      ra_inv_push_publish ra_inv_pop_call ra_inv_pop_none ra_inv_pop_some ra_inv_pop_take
      ra_inv_pop_publish)

lemma ra_reachable_inv:
  "ra_reachable C d moved s \<Longrightarrow> spsc_static_assert C \<Longrightarrow> ra_inv C s"
  by (induction rule: ra_reachable.induct) (auto intro: ra_inv_init ra_step_inv)

section \<open>Undisturbed calls\<close>

text \<open>The queue object as the last store of each variable shows it. A thread that runs its call
  without interruption and reads the latest values does what the sequential operation
  does.\<close>

definition ra_queue :: "'a ra_state \<Rightarrow> 'a spsc" where
  "ra_queue s = \<lparr>q_head = last (head_hist s), q_tail = last (tail_hist s), q_buffer = slots s\<rparr>"

lemma last_index: "counts c hist n \<Longrightarrow> hist ! n = last hist \<and> n < length hist"
  by (cases hist rule: rev_cases) (auto simp: counts_def nth_append)

lemma push_write_ex:
  assumes "ppc s = PChecked x t n"
  obtains s' where "ra_step C moved s s'" "ppc s' = PWritten x t n" "slots s' = (slots s)[unat t := x]"
    "tail_hist s' = tail_hist s" "head_hist s' = head_hist s" "pushed s' = pushed s"
    "popped s' = popped s" "cpc s' = cpc s"
  using ra_step.push_write [OF assms, of C moved] by (rule that) simp_all

lemma pop_take_ex:
  assumes "cpc s = CChecked h"
  obtains s' where "ra_step C moved s s'" "cpc s' = CTaken h (slots s ! unat h)"
    "slots s' = (slots s)[unat h := moved (slots s ! unat h)]"
    "tail_hist s' = tail_hist s" "head_hist s' = head_hist s" "pushed s' = pushed s"
    "popped s' = popped s" "ppc s' = ppc s"
  using ra_step.pop_take [OF assms, of C moved] by (rule that) simp_all

lemma undisturbed_push:
  assumes inv: "ra_inv C s" and idle: "ppc s = PIdle"
  shows "\<exists>b s'. (ra_step C moved)\<^sup>*\<^sup>* s s' \<and> try_push C x (ra_queue s) = Inr (b, ra_queue s') \<and>
    ppc s' = PIdle \<and> cpc s' = cpc s \<and> pushed s' = pushed s @ (if b then [x] else []) \<and>
    popped s' = popped s"
proof -
  let ?t = "last (tail_hist s)" and ?j = "length (popped s)"
  let ?n = "(?t + 1) AND kMask C"
  let ?s1 = "s\<lparr>ppc := PLoaded x ?t\<rparr>"
  have ch: "counts (unat C) (head_hist s) ?j" and ct: "counts (unat C) (tail_hist s) (length (pushed s))"
    and seen: "p_seen s \<le> ?j" and sa: "spsc_static_assert C" and len: "length (slots s) = unat C"
    using inv by (auto simp: ra_inv_def ra_defs)
  have call: "ra_step C moved s ?s1" by (rule ra_step.push_call [OF idle])
  show ?thesis
  proof (cases "?n = last (head_hist s)")
    case True
    then have "ra_step C moved ?s1 (?s1\<lparr>p_seen := ?j, ppc := PIdle\<rparr>)"
      using ra_step.push_full [of ?s1 x ?t ?j] last_index [OF ch] seen by simp
    with call have "(ra_step C moved)\<^sup>*\<^sup>* s (?s1\<lparr>p_seen := ?j, ppc := PIdle\<rparr>)" by simp
    with True idle show ?thesis
      by (intro exI [of _ False] exI [of _ "?s1\<lparr>p_seen := ?j, ppc := PIdle\<rparr>"])
        (simp add: try_push_def ra_queue_def)
  next
    case False
    let ?s2 = "?s1\<lparr>p_seen := ?j, ppc := PChecked x ?t ?n\<rparr>"
    have "ra_step C moved ?s1 ?s2"
      using ra_step.push_room [of ?s1 x ?t ?j] last_index [OF ch] seen False by simp
    moreover from push_write_ex [of ?s2 x ?t ?n C moved] obtain s3 where
      s3: "ra_step C moved ?s2 s3" "ppc s3 = PWritten x ?t ?n" "slots s3 = (slots s)[unat ?t := x]"
        "tail_hist s3 = tail_hist s" "head_hist s3 = head_hist s" "pushed s3 = pushed s"
        "popped s3 = popped s" "cpc s3 = cpc s" by auto
    moreover note ra_step.push_publish [OF s3(2), of C moved]
    ultimately have "(ra_step C moved)\<^sup>*\<^sup>* s
        (s3\<lparr>tail_hist := tail_hist s3 @ [?n], ppc := PIdle, pushed := pushed s3 @ [x]\<rparr>)"
      using call by (meson converse_rtranclp_into_rtranclp r_into_rtranclp)
    moreover have "unat ?t < unat C" using counts_last [OF ct] capacity_pos [OF sa] by simp
    ultimately show ?thesis
      using False s3 len
      by (intro exI [of _ True]
          exI [of _ "s3\<lparr>tail_hist := tail_hist s3 @ [?n], ppc := PIdle, pushed := pushed s3 @ [x]\<rparr>"])
        (simp add: try_push_def ra_queue_def Let_def)
  qed
qed

lemma undisturbed_pop:
  assumes inv: "ra_inv C s" and idle: "cpc s = CIdle"
  shows "\<exists>r s'. (ra_step C moved)\<^sup>*\<^sup>* s s' \<and> try_pop C moved (ra_queue s) = Inr (r, ra_queue s') \<and>
    cpc s' = CIdle \<and> ppc s' = ppc s \<and> popped s' = popped s @ (case r of None \<Rightarrow> [] | Some x \<Rightarrow> [x]) \<and>
    pushed s' = pushed s"
proof -
  let ?h = "last (head_hist s)" and ?j = "length (pushed s)"
  let ?n = "(?h + 1) AND kMask C"
  let ?s1 = "s\<lparr>cpc := CLoaded ?h\<rparr>"
  have ch: "counts (unat C) (head_hist s) (length (popped s))" and ct: "counts (unat C) (tail_hist s) ?j"
    and seen: "c_seen s \<le> ?j" and sa: "spsc_static_assert C" and len: "length (slots s) = unat C"
    using inv by (auto simp: ra_inv_def ra_defs)
  have call: "ra_step C moved s ?s1" by (rule ra_step.pop_call [OF idle])
  show ?thesis
  proof (cases "?h = last (tail_hist s)")
    case True
    then have "ra_step C moved ?s1 (?s1\<lparr>c_seen := ?j, cpc := CIdle\<rparr>)"
      using ra_step.pop_none [of ?s1 ?h ?j] last_index [OF ct] seen by simp
    with call have "(ra_step C moved)\<^sup>*\<^sup>* s (?s1\<lparr>c_seen := ?j, cpc := CIdle\<rparr>)" by simp
    with True idle show ?thesis
      by (intro exI [of _ None] exI [of _ "?s1\<lparr>c_seen := ?j, cpc := CIdle\<rparr>"])
        (simp add: try_pop_def ra_queue_def Let_def)
  next
    case False
    let ?s2 = "?s1\<lparr>c_seen := ?j, cpc := CChecked ?h\<rparr>" and ?x = "slots s ! unat ?h"
    have "ra_step C moved ?s1 ?s2"
      using ra_step.pop_some [of ?s1 ?h ?j] last_index [OF ct] seen False by simp
    moreover from pop_take_ex [of ?s2 ?h C moved] obtain s3 where
      s3: "ra_step C moved ?s2 s3" "cpc s3 = CTaken ?h ?x" "slots s3 = (slots s)[unat ?h := moved ?x]"
        "tail_hist s3 = tail_hist s" "head_hist s3 = head_hist s" "pushed s3 = pushed s"
        "popped s3 = popped s" "ppc s3 = ppc s" by auto
    moreover note ra_step.pop_publish [OF s3(2), of C moved]
    ultimately have "(ra_step C moved)\<^sup>*\<^sup>* s
        (s3\<lparr>head_hist := head_hist s3 @ [?n], cpc := CIdle, popped := popped s3 @ [?x]\<rparr>)"
      using call by (meson converse_rtranclp_into_rtranclp r_into_rtranclp)
    moreover have "unat ?h < unat C" using counts_last [OF ch] capacity_pos [OF sa] by simp
    ultimately show ?thesis
      using False s3 len
      by (intro exI [of _ "Some ?x"]
          exI [of _ "s3\<lparr>head_hist := head_hist s3 @ [?n], cpc := CIdle, popped := popped s3 @ [?x]\<rparr>"])
        (simp add: try_pop_def ra_queue_def Let_def)
  qed
qed

lemma ra_reach_rtrancl:
  "(ra_step C moved)\<^sup>*\<^sup>* s s' \<Longrightarrow> ra_reachable C d moved s \<Longrightarrow> ra_reachable C d moved s'"
  by (induction rule: rtranclp_induct) (auto intro: ra_reachable.ra_next)

text \<open>A run of the example buffer that has accepted one item.\<close>

lemma one_pushed: "\<exists>s. ra_reachable 4 (7 :: nat) (\<lambda>x. x) s \<and> pushed s = [5]"
proof -
  have sa: "spsc_static_assert 4" by (simp add: spsc_static_assert_def)
  let ?i = "ra_init 4 (7 :: nat)"
  obtain b s where s: "(ra_step 4 (\<lambda>x. x))\<^sup>*\<^sup>* ?i s" "try_push 4 5 (ra_queue ?i) = Inr (b, ra_queue s)"
    "pushed s = pushed ?i @ (if b then [5] else [])"
    using undisturbed_push [OF ra_inv_init [OF sa], of "7 :: nat" "\<lambda>x. x" 5]
    by (auto simp: ra_init_def)
  have "b" using s(2) by (simp add: try_push_def ra_queue_def ra_init_def kMask_def arr_set_def)
  moreover have "ra_reachable 4 7 (\<lambda>x. x) s"
    by (rule ra_reach_rtrancl [OF s(1) ra_reachable.ra_start])
  ultimately show ?thesis using s(3) by (auto simp: ra_init_def)
qed

section \<open>Calls that fail\<close>

text \<open>The index of the slot after the last one written meets the head the producer read only when
  the buffer was full at that head.\<close>

lemma full_at_head:
  assumes "ra_inv C s" and "ppc s = PLoaded x t" and "p_seen s \<le> j" and "j < length (head_hist s)"
    and eq: "(t + 1) AND kMask C = head_hist s ! j"
  shows "Suc (length (pushed s)) = j + unat C"
proof -
  have sa: "spsc_static_assert C" and t: "t = last (tail_hist s)"
    and ct: "counts (unat C) (tail_hist s) (length (pushed s))"
    and ch: "counts (unat C) (head_hist s) (length (popped s))"
    and le: "j \<le> length (pushed s)" and lap: "length (pushed s) < j + unat C"
    using assms by (auto simp: ra_inv_def ra_defs counts_def)
  have "Suc (length (pushed s)) mod unat C = j mod unat C"
    using counts_last [OF ct] counts_nth [OF ch assms(4)] arg_cong [OF eq, of unat]
    by (simp add: unat_next_index [OF sa] t mod_Suc_eq)
  with mod_eq_close [of j "unat C" "Suc (length (pushed s))"] le lap show ?thesis by fastforce
qed

lemma empty_at_tail:
  assumes "ra_inv C s" and "cpc s = CLoaded h" and "c_seen s \<le> j" and "j < length (tail_hist s)"
    and eq: "h = tail_hist s ! j"
  shows "length (popped s) = j"
proof -
  have h: "h = last (head_hist s)" and le: "length (popped s) \<le> j" and j: "j \<le> length (pushed s)"
    and ct: "counts (unat C) (tail_hist s) (length (pushed s))"
    and ch: "counts (unat C) (head_hist s) (length (popped s))"
    and lap: "length (pushed s) < length (popped s) + unat C"
    using assms by (auto simp: ra_inv_def ra_defs counts_def)
  have "length (popped s) mod unat C = j mod unat C"
    using counts_last [OF ch] counts_nth [OF ct assms(4)] h eq by simp
  with mod_eq_close [of "length (popped s)" "unat C" j] le j lap show ?thesis by fastforce
qed

section \<open>Properties\<close>

text \<open>C2: In every state two threads can reach by interleaving the accesses of \<open>try_push\<close> and
  \<open>try_pop\<close>, with loads as stale as acquire and release allow, the items handed out are a
  prefix of the items accepted: nothing is lost, duplicated or reordered, and at most
  \<open>Capacity - 1\<close> items are in flight.\<close>

theorem concurrent_fifo:
  assumes "spsc_static_assert C" and "ra_reachable C dflt moved s"
  shows "\<exists>rest. pushed s = popped s @ rest \<and> length rest \<le> unat C - 1"
proof -
  have inv: "ra_inv C s" using ra_reachable_inv [OF assms(2,1)] .
  then have "pushed s = popped s @ drop (length (popped s)) (pushed s)"
    by (metis append_take_drop_id ra_inv_def ra_slots_def)
  moreover have "length (drop (length (popped s)) (pushed s)) \<le> unat C - 1"
    using inv by (auto simp: ra_inv_def ra_order_def)
  ultimately show ?thesis by blast
qed

theorem concurrent_fifo_witness:
  "\<exists>s. ra_reachable 4 (7 :: nat) (\<lambda>x. x) s \<and> pushed s = [5] \<and>
    (\<exists>rest. [5] = popped s @ rest \<and> length rest \<le> unat (4 :: size_t) - 1)"
proof -
  have sa: "spsc_static_assert 4" by (simp add: spsc_static_assert_def)
  obtain s where s: "ra_reachable 4 (7 :: nat) (\<lambda>x. x) s" "pushed s = [5]" using one_pushed by blast
  with concurrent_fifo [OF sa s(1)] show ?thesis by metis
qed

text \<open>C3: No interleaving has a data race on a slot of the buffer, and no access to the buffer is
  out of range: each plain access is ordered after the other thread's last access to the
  same slot by a release store and the acquire load that read it.\<close>

theorem concurrent_race_free:
  assumes "spsc_static_assert C" and "ra_reachable C dflt moved s"
  shows "\<not> raced s"
  using ra_reachable_inv [OF assms(2,1)] by (simp add: ra_inv_def ra_stamps_def)

theorem concurrent_race_free_witness:
  "\<exists>s. ra_reachable 4 (7 :: nat) (\<lambda>x. x) s \<and> pushed s = [5] \<and> \<not> raced s"
proof -
  have sa: "spsc_static_assert 4" by (simp add: spsc_static_assert_def)
  obtain s where s: "ra_reachable 4 (7 :: nat) (\<lambda>x. x) s" "pushed s = [5]" using one_pushed by blast
  with concurrent_race_free [OF sa s(1)] show ?thesis by blast
qed



text \<open>C8: Calls fail for a reason, under every interleaving. When \<open>try_push\<close> returns false, the items accepted exceed
  the removals it has seen by exactly \<open>Capacity - 1\<close>: the buffer was full at the head it read, and
  that head is no older than the one it read before. When \<open>try_pop\<close> returns nothing, every item up to
  the tail it read has been taken, and that tail is no older than the one it read before. So a
  thread that reads the other's latest store fails only on a buffer that is full, or empty,
  at that moment.\<close>

theorem concurrent_failures_justified:
  assumes "spsc_static_assert C" and "ra_reachable C dflt moved s" and "ra_step C moved s s'"
  shows "(ppc s = PLoaded x t \<and> ppc s' = PIdle \<longrightarrow>
      length (pushed s) = p_seen s' + (unat C - 1) \<and> p_seen s \<le> p_seen s' \<and> p_seen s' \<le> length (popped s) \<and>
      pushed s' = pushed s) \<and>
    (cpc s = CLoaded h \<and> cpc s' = CIdle \<longrightarrow>
      length (popped s) = c_seen s' \<and> c_seen s \<le> c_seen s' \<and> c_seen s' \<le> length (pushed s) \<and>
      popped s' = popped s)"
proof -
  have inv: "ra_inv C s" by (rule ra_reachable_inv [OF assms(2,1)])
  then have len: "length (head_hist s) = Suc (length (popped s))" "length (tail_hist s) = Suc (length (pushed s))"
    by (auto simp: ra_inv_def ra_order_def counts_def)
  from assms(3) show ?thesis
  proof (cases rule: ra_step.cases)
    case (push_full y u j)
    from full_at_head [OF inv this(2-5)] push_full len capacity_pos [OF assms(1)] show ?thesis by force
  next
    case (pop_none g j)
    from empty_at_tail [OF inv this(2-5)] pop_none len show ?thesis by auto
  qed auto
qed

text \<open>The example: capacity two, one item accepted, the next one refused.\<close>

theorem concurrent_failures_justified_witness:
  "\<exists>s s'. ra_reachable 2 (0 :: nat) (\<lambda>x. x) s \<and> ra_step 2 (\<lambda>x. x) s s' \<and> ppc s = PLoaded 8 1 \<and> ppc s' = PIdle \<and>
    length (pushed s) = p_seen s' + (unat (2 :: size_t) - 1)"
proof -
  have sa: "spsc_static_assert 2" by (simp add: spsc_static_assert_def)
  let ?i = "ra_init 2 (0 :: nat)" and ?id = "\<lambda>x :: nat. x"
  let ?s1 = "?i\<lparr>ppc := PLoaded 9 0\<rparr>" let ?s2 = "?s1\<lparr>ppc := PChecked 9 0 1\<rparr>"
  let ?s3 = "?s2\<lparr>slots := [9, 0], w_stamp := [1, 0], ppc := PWritten 9 0 1\<rparr>"
  let ?s4 = "?s3\<lparr>tail_hist := [0, 1], ppc := PIdle, pushed := [9]\<rparr>" let ?s5 = "?s4\<lparr>ppc := PLoaded 8 1\<rparr>"
  have two: "replicate 2 x = [x, x]" for x :: nat by (simp add: numeral_2_eq_2)
  have 1: "ra_step 2 ?id ?i ?s1" using ra_step.push_call [of ?i 2 ?id 9] by (simp add: ra_init_def)
  have 2: "ra_step 2 ?id ?s1 ?s2"
    using ra_step.push_room [of ?s1 9 0 0 2 ?id] by (simp add: ra_init_def kMask_def)
  have 3: "ra_step 2 ?id ?s2 ?s3"
    using ra_step.push_write [of ?s2 9 0 1 2 ?id] by (simp add: ra_init_def bad_access_def two)
  have 4: "ra_step 2 ?id ?s3 ?s4" using ra_step.push_publish [of ?s3 9 0 1 2 ?id] by (simp add: ra_init_def)
  have 5: "ra_step 2 ?id ?s4 ?s5" using ra_step.push_call [of ?s4 2 ?id 8] by (simp add: ra_init_def)
  have 6: "ra_step 2 ?id ?s5 (?s5\<lparr>p_seen := 0, ppc := PIdle\<rparr>)"
    by (rule ra_step.push_full [of _ 8 1 0]) (simp_all add: ra_init_def kMask_def)
  have r: "ra_reachable 2 0 ?id ?s5"
    by (rule ra_next [OF ra_next [OF ra_next [OF ra_next [OF ra_next [OF ra_start 1] 2] 3] 4] 5])
  from concurrent_failures_justified [OF sa r 6, of 8 1] r 6 show ?thesis by fastforce
qed

end
