(* ===== verification/Cxx_Strings.thy ===== *)
theory Cxx_Strings
  imports WS_Prelude
begin

text \<open>
  The conversions between numbers and text the sources take from the C++ standard library:
  \<open>std::to_string\<close> on integers and \<open>std::stoi\<close>, the latter with the two exceptions it throws.
\<close>

section \<open>Printing\<close>

definition digit_char :: "nat \<Rightarrow> char" where
  "digit_char d = char_of (48 + d)"

definition digit_val :: "char \<Rightarrow> nat" where
  "digit_val ch = of_char ch - 48"

definition is_digit :: "char \<Rightarrow> bool" where
  "is_digit ch \<longleftrightarrow> 48 \<le> (of_char ch :: nat) \<and> (of_char ch :: nat) \<le> 57"

definition is_space :: "char \<Rightarrow> bool" where
  "is_space ch \<longleftrightarrow> (of_char ch :: nat) = 32 \<or> (9 \<le> (of_char ch :: nat) \<and> (of_char ch :: nat) \<le> 13)"

fun nat_to_string :: "nat \<Rightarrow> string" where
  "nat_to_string n =
     (if n < 10 then [digit_char n] else nat_to_string (n div 10) @ [digit_char (n mod 10)])"

declare nat_to_string.simps [simp del]

definition int_to_string :: "int \<Rightarrow> string" where
  "int_to_string i = (if i < 0 then CHR ''-'' # nat_to_string (nat (- i)) else nat_to_string (nat i))"

definition nl :: string where
  "nl = [CHR 0x0A]"

section \<open>Parsing\<close>

definition digits_value :: "string \<Rightarrow> nat" where
  "digits_value = foldl (\<lambda>a ch. 10 * a + digit_val ch) 0"

fun split_sign :: "string \<Rightarrow> bool \<times> string" where
  "split_sign (ch # r) =
     (if ch = CHR ''-'' then (True, r) else if ch = CHR ''+'' then (False, r) else (False, ch # r))"
| "split_sign [] = (False, [])"

text \<open>\<open>std::stoi(s)\<close> in base 10: leading white space is skipped, a sign may follow, then as many
  digits as there are; what comes after them is ignored.\<close>

definition stoi :: "string \<Rightarrow> i32 outcome" where
  "stoi s =
     (let (neg, rest) = split_sign (dropWhile is_space s);
          ds = takeWhile is_digit rest;
          v = (if neg then - int (digits_value ds) else int (digits_value ds))
      in if ds = [] then Throw ''stoi: invalid_argument''
         else if - (2 ^ 31) \<le> v \<and> v < 2 ^ 31 then Ret (of_int v)
         else Throw ''stoi: out_of_range'')"

section \<open>Digits\<close>

lemma of_char_digit [simp]: "d < 10 \<Longrightarrow> (of_char (digit_char d) :: nat) = 48 + d"
  by (simp add: digit_char_def of_char_of take_bit_eq_mod)

lemma is_digit_digit_char [simp]: "d < 10 \<Longrightarrow> is_digit (digit_char d)"
  by (simp add: is_digit_def)

lemma digit_val_digit_char [simp]: "d < 10 \<Longrightarrow> digit_val (digit_char d) = d"
  by (simp add: digit_val_def)

lemma nat_to_string_digits: "list_all is_digit (nat_to_string n)"
proof (induction n rule: nat_to_string.induct)
  case (1 n)
  then show ?case by (subst nat_to_string.simps) auto
qed

lemma nat_to_string_nonempty [simp]: "nat_to_string n \<noteq> []"
  by (subst nat_to_string.simps) simp

lemma digits_value_snoc [simp]: "digits_value (ds @ [ch]) = 10 * digits_value ds + digit_val ch"
  by (simp add: digits_value_def)

lemma digits_value_nat_to_string: "digits_value (nat_to_string n) = n"
proof (induction n rule: nat_to_string.induct)
  case (1 n)
  then show ?case
    by (subst nat_to_string.simps) (auto simp: digits_value_def)
qed

lemma length_nat_to_string: "0 < k \<Longrightarrow> n < 10 ^ k \<Longrightarrow> length (nat_to_string n) \<le> k"
proof (induction n arbitrary: k rule: nat_to_string.induct)
  case (1 n)
  show ?case
  proof (cases "n < 10")
    case True
    with 1 show ?thesis by (subst nat_to_string.simps) simp
  next
    case False
    then obtain j where k: "k = Suc j" "0 < j"
      using 1(2,3) by (cases k; cases "k - 1") auto
    then have "n div 10 < 10 ^ j" using 1(3) by (simp add: less_mult_imp_div_less mult.commute)
    with 1(1) [OF False k(2)] False k show ?thesis by (subst nat_to_string.simps) simp
  qed
qed

lemma takeWhile_digits:
  assumes "list_all is_digit ds" and "rest = [] \<or> \<not> is_digit (hd rest)"
  shows "takeWhile is_digit (ds @ rest) = ds"
  using assms by (cases rest) (auto simp: list_all_iff takeWhile_append2)

lemma digit_not_sign_space:
  assumes "is_digit ch"
  shows "ch \<noteq> CHR ''-''" and "ch \<noteq> CHR ''+''" and "\<not> is_space ch"
  using assms by (auto simp: is_digit_def is_space_def)

text \<open>Reading back what \<open>to_string\<close> printed gives the number, also in front of text that does
  not go on with a digit.\<close>

lemma stoi_to_string:
  assumes "- (2 ^ 31) \<le> i" and "i < 2 ^ 31" and rest: "rest = [] \<or> \<not> is_digit (hd rest)"
  shows "stoi (int_to_string i @ rest) = Ret (of_int i)"
proof -
  let ?d = "nat_to_string (nat \<bar>i\<bar>)"
  have dg: "takeWhile is_digit (?d @ rest) = ?d"
    using takeWhile_digits [OF nat_to_string_digits rest] .
  obtain c ds where d: "?d = c # ds" using nat_to_string_nonempty by (cases ?d) blast+
  then have c: "is_digit c" using nat_to_string_digits [of "nat \<bar>i\<bar>"] by simp
  have v: "int (digits_value ?d) = \<bar>i\<bar>" by (simp add: digits_value_nat_to_string)
  have minus: "\<not> is_space (CHR ''-'')" by (simp add: is_space_def)
  show ?thesis
  proof (cases "i < 0")
    case True
    then have "split_sign (dropWhile is_space (int_to_string i @ rest)) = (True, ?d @ rest)"
      using minus by (simp add: int_to_string_def)
    with True dg v assms(1,2) show ?thesis by (simp add: stoi_def)
  next
    case False
    then have "split_sign (dropWhile is_space (int_to_string i @ rest)) = (False, ?d @ rest)"
      using d digit_not_sign_space [OF c] by (simp add: int_to_string_def)
    with False dg v assms(1,2) show ?thesis by (simp add: stoi_def)
  qed
qed

lemma stoi_not_number:
  assumes "s = [] \<or> (hd s = CHR ''-'' \<and> (tl s = [] \<or> \<not> is_digit (hd (tl s))))"
  shows "stoi s = Throw ''stoi: invalid_argument''"
proof -
  have minus: "\<not> is_space (CHR ''-'')" by (simp add: is_space_def)
  show ?thesis using assms minus by (cases s; cases "tl s") (auto simp: stoi_def)
qed

end
