(* ===== verification/Thread_Utils.thy ===== *)
theory Thread_Utils
  imports Cxx_Strings
begin

text \<open>
  \<open>include/thread_utils.h\<close>: pinning a thread to a core, naming it, and counting the cores. The
  operating system is a parameter: what its calls return. The calls the code makes, with
  their arguments, are recorded in order, for both platforms of the preprocessor test.
\<close>

datatype platform = Win32 | Posix

record os_api =
  os_platform :: platform
  hardware_concurrency :: u32
  os_set_affinity_mask :: "64 word \<Rightarrow> 64 word"
  os_set_priority_highest :: bool
  os_GetLastError :: u32
  os_setaffinity_np :: "nat list \<Rightarrow> i32"
  os_has_SetThreadDescription :: bool

datatype os_call =
    SetThreadAffinityMask "64 word"
  | SetThreadPriorityHighest
  | PthreadSetaffinityNp "nat list"
  | SetThreadDescription string
  | PrctlSetName string
  | Cerr string
  | Cout string

text \<open>\<open>CPU_ZERO\<close> and \<open>CPU_SET\<close>: the set of the cores named, which ignores a number outside the
  1024 bits of \<open>cpu_set_t\<close>.\<close>

definition cpu_set :: "i32 \<Rightarrow> nat list" where
  "cpu_set core_id = (if 0 \<le> sint core_id \<and> sint core_id < 1024 then [nat (sint core_id)] else [])"

definition pin_failed_msg :: "i32 \<Rightarrow> string \<Rightarrow> string \<Rightarrow> string" where
  "pin_failed_msg core_id what code =
     ''[thread] Failed to pin to core '' @ int_to_string (sint core_id) @ '' ('' @ what @ code @ '')'' @ nl"

definition priority_msg :: string where
  "priority_msg = ''[thread] Warning: could not set high priority'' @ nl"

definition pinned_msg :: "string \<Rightarrow> i32 \<Rightarrow> u32 \<Rightarrow> string" where
  "pinned_msg name core_id count =
     ''[thread] '' @ [CHR 0x27] @ name @ [CHR 0x27] @ '' pinned to core '' @ int_to_string (sint core_id) @
     '' / '' @ nat_to_string (unat count) @ '' cores'' @ nl"

definition pin_thread_to_core :: "os_api \<Rightarrow> i32 \<Rightarrow> (bool \<times> os_call list) result" where
  "pin_thread_to_core os core_id =
     (case os_platform os of
        Win32 \<Rightarrow>
          if sint core_id < 0 \<or> 64 \<le> sint core_id then Inl UB_ShiftWidth
          else let mask = push_bit (nat (sint core_id)) 1
            in if os_set_affinity_mask os mask = 0
               then Inr (False, [SetThreadAffinityMask mask,
                 Cerr (pin_failed_msg core_id ''error: '' (nat_to_string (unat (os_GetLastError os))))])
               else Inr (True, [SetThreadAffinityMask mask, SetThreadPriorityHighest] @
                 (if os_set_priority_highest os then [] else [Cerr priority_msg]))
      | Posix \<Rightarrow>
          let cpuset = cpu_set core_id; rc = os_setaffinity_np os cpuset
          in if rc \<noteq> 0
             then Inr (False, [PthreadSetaffinityNp cpuset,
               Cerr (pin_failed_msg core_id ''errno: '' (int_to_string (sint rc)))])
             else Inr (True, [PthreadSetaffinityNp cpuset]))"

definition set_thread_name :: "os_api \<Rightarrow> string \<Rightarrow> os_call list" where
  "set_thread_name os name =
     (case os_platform os of
        Win32 \<Rightarrow> if os_has_SetThreadDescription os then [SetThreadDescription name] else []
      | Posix \<Rightarrow> [PrctlSetName (take 15 name)])"

definition get_cpu_count :: "os_api \<Rightarrow> u32" where
  "get_cpu_count os = (let count = hardware_concurrency os in if 0 < count then count else 1)"

record thread_pinner =
  tp_core_id :: i32
  tp_pinned :: bool

definition thread_pinner_new :: "os_api \<Rightarrow> i32 \<Rightarrow> string \<Rightarrow> (thread_pinner \<times> os_call list) result" where
  "thread_pinner_new os core_id name =
     (let named = (if name \<noteq> '''' then set_thread_name os name else [])
      in bind_result (pin_thread_to_core os core_id) (\<lambda>(pinned, calls).
        Inr (\<lparr>tp_core_id = core_id, tp_pinned = pinned\<rparr>,
          named @ calls @ (if pinned
            then [Cout (pinned_msg name core_id (get_cpu_count os))]
            else []))))"

definition is_pinned :: "thread_pinner \<Rightarrow> bool" where
  "is_pinned tp = tp_pinned tp"

definition core_id :: "thread_pinner \<Rightarrow> i32" where
  "core_id tp = tp_core_id tp"

lemma get_cpu_count_pos: "0 < unat (get_cpu_count os)"
  by (simp add: get_cpu_count_def Let_def word_less_nat_alt)

lemma cpu_set_subset: "set (cpu_set c) \<subseteq> {..<1024}"
  by (auto simp: cpu_set_def)

text \<open>What the pinner asks of the system, over both platforms: the cores its affinity call names.\<close>

fun requested_cores :: "os_call \<Rightarrow> nat set" where
  "requested_cores (SetThreadAffinityMask m) = {i. i < 64 \<and> bit m i}"
| "requested_cores (PthreadSetaffinityNp cs) = set cs"
| "requested_cores _ = {}"

definition max_cores :: "os_api \<Rightarrow> nat" where
  "max_cores os = (case os_platform os of Win32 \<Rightarrow> 64 | Posix \<Rightarrow> 1024)"

definition os_accepts :: "os_api \<Rightarrow> nat \<Rightarrow> bool" where
  "os_accepts os core = (case os_platform os of
      Win32 \<Rightarrow> os_set_affinity_mask os (push_bit core 1) \<noteq> 0
    | Posix \<Rightarrow> os_setaffinity_np os [core] = 0)"

lemma bits_of_exp: "n < 64 \<Longrightarrow> {i. i < 64 \<and> bit ((2 :: 64 word) ^ n) i} = {n}"
  by (auto simp: bit_exp_iff)

lemma set_thread_name_requests: "(\<Union>c \<in> set (set_thread_name os name). requested_cores c) = {}"
  by (cases "os_platform os") (auto simp: set_thread_name_def)

lemma pin_thread_to_core_ok:
  assumes "0 \<le> sint core" and "sint core < int (max_cores os)"
  shows "\<exists>calls. pin_thread_to_core os core = Inr (os_accepts os (nat (sint core)), calls) \<and>
    (\<Union>c \<in> set calls. requested_cores c) = {nat (sint core)}"
proof (cases "os_platform os")
  case Win32
  then have "nat (sint core) < 64" using assms by (simp add: max_cores_def)
  with Win32 assms show ?thesis
    by (auto simp: pin_thread_to_core_def Let_def max_cores_def os_accepts_def bits_of_exp)
next
  case Posix
  with assms show ?thesis
    by (auto simp: pin_thread_to_core_def Let_def max_cores_def os_accepts_def cpu_set_def)
qed

lemma thread_pinner_new_ok:
  assumes "0 \<le> sint core" and "sint core < int (max_cores os)"
  shows "\<exists>tp calls. thread_pinner_new os core name = Inr (tp, calls) \<and>
    is_pinned tp = os_accepts os (nat (sint core)) \<and> core_id tp = core \<and>
    (\<Union>c \<in> set calls. requested_cores c) = {nat (sint core)}"
proof -
  from pin_thread_to_core_ok [OF assms] obtain calls where
    "pin_thread_to_core os core = Inr (os_accepts os (nat (sint core)), calls)"
    "(\<Union>c \<in> set calls. requested_cores c) = {nat (sint core)}" by blast
  then show ?thesis
    using set_thread_name_requests [of os name]
    by (simp add: thread_pinner_new_def is_pinned_def core_id_def)
qed

end
