(* ===== verification/WebSocket_Client.thy ===== *)
theory WebSocket_Client
  imports Spsc_Queue Thread_Utils
begin

text \<open>
  \<open>include/message.h\<close>, \<open>include/websocket_client.h\<close> and the parts of
  \<open>include/secure_websocket_client.h\<close> that repeat it with another log prefix: the client object,
  its operations, and its receiver thread step by step. The socket, the WebSocket stream and
  thread creation belong to Boost and the system; they are the record \<open>beast_api\<close>, whose
  operations act on an abstract stream state.
\<close>

section \<open>Messages and configuration\<close>

record message =
  payload :: string
  is_text :: bool

definition message_default :: message where
  "message_default = \<lparr>payload = '''', is_text = True\<rparr>"

definition message_new :: "string \<Rightarrow> bool \<Rightarrow> message" where
  "message_new data text = \<lparr>payload = data, is_text = text\<rparr>"

record client_config =
  pin_receiver_thread :: bool
  receiver_core_id :: i32
  use_memory_pool :: bool

definition client_config_default :: client_config where
  "client_config_default = \<lparr>pin_receiver_thread = False, receiver_core_id = - 1, use_memory_pool = True\<rparr>"

section \<open>The stream\<close>

type_synonym endpoint = "string \<times> 16 word"

datatype sock_option = NoDelay bool | ReceiveBufferSize size_t | SendBufferSize size_t

text \<open>How \<open>ws_.read(read_buffer, ec)\<close> ends: with the bytes of one message, with the error code
  \<open>websocket::error::closed\<close>, with another error code, or by an exception.\<close>

datatype read_result = ReadOk string | ReadClosed | ReadError string | ReadThrow string

record 'w beast_api =
  b_stream :: "'w \<Rightarrow> 'w"
  b_resolve :: "string \<Rightarrow> string \<Rightarrow> ('w, endpoint list) io"
  b_connect :: "endpoint list \<Rightarrow> ('w, endpoint) io"
  b_set_option :: "sock_option \<Rightarrow> ('w, unit) io"
  b_set_sni :: "string \<Rightarrow> 'w \<Rightarrow> bool \<times> 'w"
  b_ssl_error :: "'w \<Rightarrow> string \<times> 'w"
  b_tls_handshake :: "('w, unit) io"
  b_handshake :: "string \<Rightarrow> string \<Rightarrow> ('w, unit) io"
  b_spawn :: "('w, unit) io"
  b_text :: "bool \<Rightarrow> 'w \<Rightarrow> 'w"
  b_binary :: "bool \<Rightarrow> 'w \<Rightarrow> 'w"
  b_write :: "byte list \<Rightarrow> ('w, unit) io"
  b_is_open :: "'w \<Rightarrow> bool"
  b_close :: "'w \<Rightarrow> string option \<times> 'w"
  b_read :: "'w \<Rightarrow> read_result option \<times> 'w"
  b_got_text :: "'w \<Rightarrow> bool"
  b_moved :: "message \<Rightarrow> message"

text \<open>\<open>b_read\<close> returns nothing while the call still blocks. \<open>b_moved\<close> is what a move leaves behind
  in a \<open>Message\<close>.\<close>

section \<open>The client object\<close>

text \<open>The points of \<open>receive_loop\<close> between which another thread can run.\<close>

datatype receiver_pc = R_Start | R_Loop | R_Read | R_Push message | R_Exit | R_Done

record 'w client =
  cl_stream :: 'w
  cl_host :: string
  cl_port :: string
  cl_config :: client_config
  cl_running :: bool
  cl_receiver :: "receiver_pc thread"
  cl_queue :: "message spsc"
  cl_out :: "os_call list"

definition client_new :: "'w beast_api \<Rightarrow> 'w \<Rightarrow> string \<Rightarrow> string \<Rightarrow> client_config \<Rightarrow> 'w client" where
  "client_new api ioc host port config =
     \<lparr>cl_stream = b_stream api ioc, cl_host = host, cl_port = port, cl_config = config,
      cl_running = False, cl_receiver = NoThread,
      cl_queue = spsc_new kQueueCapacity message_default, cl_out = []\<rparr>"

definition cl_print :: "os_call list \<Rightarrow> 'w client \<Rightarrow> 'w client" where
  "cl_print cs cl = cl\<lparr>cl_out := cl_out cl @ cs\<rparr>"

definition logline :: "string \<Rightarrow> string \<Rightarrow> string" where
  "logline tag text = ''['' @ tag @ ''] '' @ text @ nl"

text \<open>\<open>running_.store(true)\<close>, the log line, and \<open>receiver_thread_ = std::thread(...)\<close>: creating the
  thread can throw, and assigning to a member that is still joinable ends the program.\<close>

definition start_receiver :: "'w beast_api \<Rightarrow> string \<Rightarrow> 'w client \<Rightarrow> unit outcome \<times> 'w client" where
  "start_receiver api line cl =
     (let cl1 = cl_print [Cout line] (cl\<lparr>cl_running := True\<rparr>);
          (r, w) = b_spawn api (cl_stream cl1);
          cl2 = cl1\<lparr>cl_stream := w\<rparr>
      in case r of
           Throw e \<Rightarrow> (Throw e, cl2)
         | Crash e \<Rightarrow> (Crash e, cl2)
         | Ret _ \<Rightarrow> if joinable (cl_receiver cl)
             then (Crash (Terminate ''assignment to a joinable thread''), cl2)
             else (Ret (), cl2\<lparr>cl_receiver := Running R_Start\<rparr>))"

section \<open>Connecting\<close>

definition ws_establish :: "'w beast_api \<Rightarrow> string \<Rightarrow> string \<Rightarrow> ('w, unit) io" where
  "ws_establish api host port =
     bind_io (b_resolve api host port) (\<lambda>results.
     bind_io (b_connect api results) (\<lambda>_.
     bind_io (b_set_option api (NoDelay True)) (\<lambda>_.
     bind_io (b_set_option api (ReceiveBufferSize kReadBufferSize)) (\<lambda>_.
     bind_io (b_set_option api (SendBufferSize kReadBufferSize)) (\<lambda>_.
     b_handshake api host ''/'')))))"

definition ws_connect :: "'w beast_api \<Rightarrow> 'w client \<Rightarrow> unit outcome \<times> 'w client" where
  "ws_connect api cl =
     (let (r, w) = ws_establish api (cl_host cl) (cl_port cl) (cl_stream cl);
          cl1 = cl\<lparr>cl_stream := w\<rparr>
      in case r of
           Ret _ \<Rightarrow> start_receiver api
             (logline ''ws'' (''Connected to '' @ cl_host cl @ '':'' @ cl_port cl)) cl1
         | Throw e \<Rightarrow> (Throw e, cl1)
         | Crash e \<Rightarrow> (Crash e, cl1))"

definition sni_io :: "'w beast_api \<Rightarrow> string \<Rightarrow> ('w, unit) io" where
  "sni_io api host w =
     (let (ok, w1) = b_set_sni api host w
      in if ok then (Ret (), w1) else (let (e, w2) = b_ssl_error api w1 in (Throw e, w2)))"

definition wss_establish :: "'w beast_api \<Rightarrow> string \<Rightarrow> string \<Rightarrow> ('w, unit) io" where
  "wss_establish api host port =
     bind_io (b_resolve api host port) (\<lambda>results.
     bind_io (b_connect api results) (\<lambda>ep.
     bind_io (sni_io api host) (\<lambda>_.
     bind_io (b_set_option api (NoDelay True)) (\<lambda>_.
     bind_io (b_set_option api (ReceiveBufferSize kReadBufferSize)) (\<lambda>_.
     bind_io (b_set_option api (SendBufferSize kReadBufferSize)) (\<lambda>_.
     bind_io (b_tls_handshake api) (\<lambda>_.
     b_handshake api (host @ '':'' @ nat_to_string (unat (snd ep))) ''/'')))))))"

definition wss_connect :: "'w beast_api \<Rightarrow> 'w client \<Rightarrow> unit outcome \<times> 'w client" where
  "wss_connect api cl =
     (let (r, w) = wss_establish api (cl_host cl) (cl_port cl) (cl_stream cl);
          cl1 = cl\<lparr>cl_stream := w\<rparr>
      in case r of
           Ret _ \<Rightarrow> start_receiver api
             (logline ''wss'' (''Connected to '' @ cl_host cl @ '':'' @ cl_port cl @ '' (TLS secured)'')) cl1
         | Throw e \<Rightarrow> (Throw e, cl1)
         | Crash e \<Rightarrow> (Crash e, cl1))"

section \<open>Sending, receiving and closing\<close>

definition string_bytes :: "string \<Rightarrow> byte list" where
  "string_bytes s = map (\<lambda>ch. of_nat (of_char ch)) s"

definition send_text :: "'w beast_api \<Rightarrow> string \<Rightarrow> 'w client \<Rightarrow> unit outcome \<times> 'w client" where
  "send_text api message cl =
     (let (r, w) = b_write api (string_bytes message) (b_text api True (cl_stream cl))
      in (r, cl\<lparr>cl_stream := w\<rparr>))"

definition send_binary :: "'w beast_api \<Rightarrow> byte list \<Rightarrow> 'w client \<Rightarrow> unit outcome \<times> 'w client" where
  "send_binary api data cl =
     (let (r, w) = b_write api data (b_binary api True (cl_stream cl))
      in (r, cl\<lparr>cl_stream := w\<rparr>))"

definition try_receive :: "'w beast_api \<Rightarrow> 'w client \<Rightarrow> (message option \<times> 'w client) result" where
  "try_receive api cl =
     bind_result (try_pop kQueueCapacity (b_moved api) (cl_queue cl)) (\<lambda>(r, q).
       Inr (r, cl\<lparr>cl_queue := q\<rparr>))"

definition is_running :: "'w client \<Rightarrow> bool" where
  "is_running cl = cl_running cl"

definition client_conf :: "'w client \<Rightarrow> client_config" where
  "client_conf cl = cl_config cl"

text \<open>\<open>close()\<close> up to the join, and the join, which waits until the receiver has returned.\<close>

definition close_stream :: "'w beast_api \<Rightarrow> string \<Rightarrow> 'w client \<Rightarrow> 'w client" where
  "close_stream api tag cl =
     (let cl1 = cl\<lparr>cl_running := False\<rparr>
      in if b_is_open api (cl_stream cl1)
         then let (ec, w) = b_close api (cl_stream cl1); cl2 = cl1\<lparr>cl_stream := w\<rparr>
              in (case ec of None \<Rightarrow> cl2
                  | Some e \<Rightarrow> cl_print [Cerr (logline tag (''Close error: '' @ e))] cl2)
         else cl1)"

fun join_receiver :: "'w client \<Rightarrow> 'w client option" where
  "join_receiver cl =
     (case cl_receiver cl of
        NoThread \<Rightarrow> Some cl
      | Running R_Done \<Rightarrow> Some (cl\<lparr>cl_receiver := NoThread\<rparr>)
      | Running _ \<Rightarrow> None)"

declare join_receiver.simps [simp del]

section \<open>The receiver thread\<close>

definition receiver_core :: "os_api \<Rightarrow> client_config \<Rightarrow> i32 result" where
  "receiver_core os config =
     (let core = receiver_core_id config
      in if sint core < 0 then i32_result (sint (get_cpu_count os) - 1) else Inr core)"

definition receiver_pin :: "os_api \<Rightarrow> string \<Rightarrow> client_config \<Rightarrow> os_call list result" where
  "receiver_pin os tag config =
     (if pin_receiver_thread config
      then bind_result (receiver_core os config) (\<lambda>core.
        bind_result (thread_pinner_new os core (tag @ ''_receiver'')) (\<lambda>(pinner, calls). Inr calls))
      else Inr [])"

definition set_pc :: "receiver_pc \<Rightarrow> 'w client \<Rightarrow> 'w client" where
  "set_pc pc cl = cl\<lparr>cl_receiver := Running pc\<rparr>"

fun read_done :: "'w beast_api \<Rightarrow> string \<Rightarrow> read_result \<Rightarrow> 'w client \<Rightarrow> 'w client" where
  "read_done api tag (ReadOk data) cl =
     (if b_got_text api (cl_stream cl) then set_pc (R_Push (message_new data True)) cl
      else set_pc (R_Push (message_new data False)) cl)"
| "read_done api tag ReadClosed cl =
     set_pc R_Exit (cl_print [Cout (logline tag ''Connection closed by server.'')] cl)"
| "read_done api tag (ReadError e) cl =
     set_pc R_Exit (if cl_running cl then cl_print [Cerr (logline tag (''Read error: '' @ e))] cl else cl)"
| "read_done api tag (ReadThrow e) cl =
     set_pc R_Exit
       (if cl_running cl then cl_print [Cerr (logline tag (''Receiver exception: '' @ e))] cl else cl)"

fun receive_at :: "'w beast_api \<Rightarrow> os_api \<Rightarrow> string \<Rightarrow> receiver_pc \<Rightarrow> 'w client \<Rightarrow> 'w client result" where
  "receive_at api os tag R_Start cl =
     bind_result (receiver_pin os tag (cl_config cl)) (\<lambda>calls. Inr (set_pc R_Loop (cl_print calls cl)))"
| "receive_at api os tag R_Loop cl =
     (if cl_running cl then Inr (set_pc R_Read cl) else Inr (set_pc R_Exit cl))"
| "receive_at api os tag R_Read cl =
     (case b_read api (cl_stream cl) of
        (None, w) \<Rightarrow> Inr (cl\<lparr>cl_stream := w\<rparr>)
      | (Some r, w) \<Rightarrow> Inr (read_done api tag r (cl\<lparr>cl_stream := w\<rparr>)))"
| "receive_at api os tag (R_Push msg) cl =
     bind_result (try_push kQueueCapacity msg (cl_queue cl)) (\<lambda>(ok, q).
       Inr (set_pc R_Loop
         ((if ok then id
           else cl_print [Cerr (logline tag ''WARNING: Message queue full, dropping message!'')])
          (cl\<lparr>cl_queue := q\<rparr>))))"
| "receive_at api os tag R_Exit cl = Inr (set_pc R_Done (cl\<lparr>cl_running := False\<rparr>))"
| "receive_at api os tag R_Done cl = Inr cl"

text \<open>One step of the receiver thread, if there is one.\<close>

definition receive_step :: "'w beast_api \<Rightarrow> os_api \<Rightarrow> string \<Rightarrow> 'w client \<Rightarrow> 'w client result" where
  "receive_step api os tag cl =
     (case cl_receiver cl of NoThread \<Rightarrow> Inr cl | Running pc \<Rightarrow> receive_at api os tag pc cl)"

text \<open>\<open>receive_loop\<close> on its own, for a number of steps.\<close>

fun receive_loop :: "nat \<Rightarrow> 'w beast_api \<Rightarrow> os_api \<Rightarrow> string \<Rightarrow> 'w client \<Rightarrow> 'w client result" where
  "receive_loop 0 api os tag cl = Inr cl"
| "receive_loop (Suc n) api os tag cl =
     bind_result (receive_step api os tag cl) (receive_loop n api os tag)"

text \<open>\<open>close()\<close>: the receiver gets the steps it needs while the join waits; nothing when it did
  not return within them.\<close>

definition client_close ::
  "nat \<Rightarrow> 'w beast_api \<Rightarrow> os_api \<Rightarrow> string \<Rightarrow> 'w client \<Rightarrow> 'w client option result" where
  "client_close fuel api os tag cl =
     bind_result (receive_loop fuel api os tag (close_stream api tag cl)) (\<lambda>cl'. Inr (join_receiver cl'))"

text \<open>\<open>spin_receive()\<close>: polls until a message is there. The schedule gives the steps the receiver
  takes before each poll; nothing when every poll of it found the queue empty.\<close>

fun spin_receive ::
  "nat list \<Rightarrow> 'w beast_api \<Rightarrow> os_api \<Rightarrow> string \<Rightarrow> 'w client \<Rightarrow> (message \<times> 'w client) option result" where
  "spin_receive [] api os tag cl = Inr None"
| "spin_receive (k # sched) api os tag cl =
     bind_result (receive_loop k api os tag cl) (\<lambda>cl1.
     bind_result (try_receive api cl1) (\<lambda>(r, cl2).
       case r of Some msg \<Rightarrow> Inr (Some (msg, cl2)) | None \<Rightarrow> spin_receive sched api os tag cl2))"

text \<open>The destructor closes; destroying the thread member while it is joinable would end the
  program.\<close>

definition client_destroy ::
  "nat \<Rightarrow> 'w beast_api \<Rightarrow> os_api \<Rightarrow> string \<Rightarrow> 'w client \<Rightarrow> 'w option result" where
  "client_destroy fuel api os tag cl =
     bind_result (client_close fuel api os tag cl) (\<lambda>r.
       case r of None \<Rightarrow> Inr None
       | Some cl' \<Rightarrow> if joinable (cl_receiver cl') then Inl (Terminate ''destruction of a joinable thread'')
           else Inr (Some (cl_stream cl')))"

section \<open>The TLS client\<close>

text \<open>\<open>SecureWebSocketClient\<close> repeats the members and these operations of \<open>WebSocketClient\<close> over a TLS
  stream, with \<open>wss\<close> in its log lines and its thread name.\<close>

type_synonym 'w secure_client = "'w client"

definition wss_new :: "'w beast_api \<Rightarrow> 'w \<Rightarrow> string \<Rightarrow> string \<Rightarrow> client_config \<Rightarrow> 'w secure_client" where
  "wss_new api ioc host port config = client_new api ioc host port config"

definition wss_send_text :: "'w beast_api \<Rightarrow> string \<Rightarrow> 'w client \<Rightarrow> unit outcome \<times> 'w client" where
  "wss_send_text api message cl = send_text api message cl"

definition wss_send_binary :: "'w beast_api \<Rightarrow> byte list \<Rightarrow> 'w client \<Rightarrow> unit outcome \<times> 'w client" where
  "wss_send_binary api data cl = send_binary api data cl"

definition wss_try_receive :: "'w beast_api \<Rightarrow> 'w client \<Rightarrow> (message option \<times> 'w client) result" where
  "wss_try_receive api cl = try_receive api cl"

definition wss_spin_receive ::
  "nat list \<Rightarrow> 'w beast_api \<Rightarrow> os_api \<Rightarrow> 'w client \<Rightarrow> (message \<times> 'w client) option result" where
  "wss_spin_receive sched api os cl = spin_receive sched api os ''wss'' cl"

definition wss_close :: "nat \<Rightarrow> 'w beast_api \<Rightarrow> os_api \<Rightarrow> 'w client \<Rightarrow> 'w client option result" where
  "wss_close fuel api os cl = client_close fuel api os ''wss'' cl"

definition wss_destroy :: "nat \<Rightarrow> 'w beast_api \<Rightarrow> os_api \<Rightarrow> 'w client \<Rightarrow> 'w option result" where
  "wss_destroy fuel api os cl = client_destroy fuel api os ''wss'' cl"

definition wss_is_running :: "'w client \<Rightarrow> bool" where
  "wss_is_running cl = is_running cl"

definition wss_config :: "'w client \<Rightarrow> client_config" where
  "wss_config cl = client_conf cl"

definition wss_receive_loop :: "nat \<Rightarrow> 'w beast_api \<Rightarrow> os_api \<Rightarrow> 'w client \<Rightarrow> 'w client result" where
  "wss_receive_loop fuel api os cl = receive_loop fuel api os ''wss'' cl"

end
