(* ===== verification/Doubles.thy ===== *)
theory Doubles
  imports Complex_Main WS_Prelude
begin

text \<open>
  The \<open>double\<close> arithmetic of the sources. A double is the real number it stands for, and every
  operation of the source rounds its exact result. The definitions that compute with doubles
  take the rounding function as an argument; what they need of it is the locale \<open>rounding\<close>,
  and \<open>fl\<close>, IEEE-754 binary64 rounding to nearest with ties to even, is a model of it. The
  quantities of the program (nanoseconds, counts, milliseconds) stay far from the overflow and
  subnormal ranges, which \<open>fl\<close> leaves out.
\<close>

locale rounding =
  fixes rnd :: "real \<Rightarrow> real"
  assumes rnd_mono: "x \<le> y \<Longrightarrow> rnd x \<le> rnd y"
    and rnd_int: "\<bar>i\<bar> \<le> 2 ^ 53 \<Longrightarrow> rnd (of_int i) = of_int i"
begin

lemma rnd_nat: "n \<le> 2 ^ 53 \<Longrightarrow> rnd (of_nat n) = of_nat n"
  using rnd_int [of "int n"] by (simp flip: of_nat_le_iff)

lemma rnd_0: "rnd 0 = 0"
  using rnd_int [of 0] by simp

lemma rnd_1: "rnd 1 = 1"
  using rnd_int [of 1] by simp

lemma rnd_nonneg: "0 \<le> x \<Longrightarrow> 0 \<le> rnd x"
  using rnd_mono [of 0 x] by (simp add: rnd_0)

text \<open>A product of a number in the unit interval and a count stays below the count.\<close>

lemma rnd_scaled_count:
  assumes "0 \<le> q" and "q \<le> 1" and "n \<le> 2 ^ 53"
  shows "0 \<le> rnd (rnd q * of_nat n) \<and> rnd (rnd q * of_nat n) \<le> of_nat n"
proof -
  have q: "0 \<le> rnd q" "rnd q \<le> 1" using rnd_nonneg [OF assms(1)] rnd_mono [OF assms(2)] by (auto simp: rnd_1)
  then have "rnd q * of_nat n \<le> of_nat n" by (simp add: mult_left_le_one_le)
  then have "rnd (rnd q * of_nat n) \<le> of_nat n" using rnd_mono rnd_nat [OF assms(3)] by metis
  with q show ?thesis by (simp add: rnd_nonneg)
qed

end

text \<open>Exact arithmetic is the rounding that changes nothing.\<close>

interpretation exact: rounding "\<lambda>x. x"
  by unfold_locales auto

section \<open>Round to nearest, ties to even\<close>

definition rne :: "real \<Rightarrow> int" where
  "rne x = (let f = \<lfloor>x\<rfloor>; d = x - of_int f
     in if d < 1 / 2 then f else if 1 / 2 < d then f + 1 else if even f then f else f + 1)"

definition fl_unit :: "real \<Rightarrow> real" where
  "fl_unit x = 2 powr (of_int (\<lfloor>log 2 \<bar>x\<bar>\<rfloor> - 52))"

definition fl :: "real \<Rightarrow> real" where
  "fl x = (if x = 0 then 0 else of_int (rne (x / fl_unit x)) * fl_unit x)"

lemma rne_int [simp]: "rne (of_int i) = i"
  by (simp add: rne_def)

lemma rne_numeral [simp]: "rne (numeral n) = numeral n"
  using rne_int [of "numeral n"] by simp

lemma rne_floor: "\<lfloor>x\<rfloor> \<le> rne x" "rne x \<le> \<lfloor>x\<rfloor> + 1"
  by (simp_all add: rne_def Let_def)

lemma rne_mono: "x \<le> y \<Longrightarrow> rne x \<le> rne y"
proof (cases "\<lfloor>x\<rfloor> = \<lfloor>y\<rfloor>")
  case True
  assume "x \<le> y"
  with True show ?thesis by (auto simp: rne_def Let_def)
next
  case False
  assume "x \<le> y"
  with False have "\<lfloor>x\<rfloor> + 1 \<le> \<lfloor>y\<rfloor>" using floor_mono by fastforce
  with rne_floor [of x] rne_floor [of y] show ?thesis by linarith
qed

lemma rne_uminus: "rne (- x) = - rne x"
proof (cases "x = of_int \<lfloor>x\<rfloor>")
  case True
  then show ?thesis by (metis of_int_minus rne_int)
next
  case False
  then have "\<lfloor>- x\<rfloor> = - \<lfloor>x\<rfloor> - 1" by linarith
  then show ?thesis by (auto simp: rne_def Let_def)
qed

lemma fl_unit_pos: "0 < fl_unit x"
  by (simp add: fl_unit_def)

lemma fl_uminus: "fl (- x) = - fl x"
  by (simp add: fl_def fl_unit_def rne_uminus)

lemma fl_binade:
  assumes "0 < x"
  shows "2 powr of_int \<lfloor>log 2 x\<rfloor> \<le> fl x" and "fl x \<le> 2 powr of_int (\<lfloor>log 2 x\<rfloor> + 1)"
proof -
  let ?e = "\<lfloor>log 2 x\<rfloor>" and ?u = "fl_unit x"
  have u: "?u = 2 powr (of_int ?e) / 2 ^ 52"
    using assms by (simp add: fl_unit_def powr_diff powr_realpow flip: powr_realpow)
  have e: "2 powr of_int ?e \<le> x" "x < 2 powr of_int (?e + 1)"
    using floor_log_eq_powr_iff [of x 2 ?e] assms by auto
  have "of_int (2 ^ 52) \<le> x / ?u" using e(1) fl_unit_pos [of x] by (simp add: u field_simps)
  moreover have "x / ?u \<le> of_int (2 ^ 53)"
    using e(2) fl_unit_pos [of x] by (simp add: u field_simps powr_add)
  ultimately have r: "2 ^ 52 \<le> rne (x / ?u)" "rne (x / ?u) \<le> 2 ^ 53"
    using rne_mono [of "of_int (2 ^ 52)" "x / ?u"] rne_mono [of "x / ?u" "of_int (2 ^ 53)"] by auto
  have "(2 :: real) ^ 52 \<le> of_int (rne (x / ?u))" "of_int (rne (x / ?u)) \<le> (2 :: real) ^ 53"
    using r by (simp_all flip: of_int_le_iff)
  then show "2 powr of_int ?e \<le> fl x" "fl x \<le> 2 powr of_int (?e + 1)"
    using assms by (simp_all add: fl_def u powr_add field_simps)
qed

lemma fl_mono_pos:
  assumes "0 < x" and "x \<le> y"
  shows "fl x \<le> fl y"
proof (cases "\<lfloor>log 2 x\<rfloor> = \<lfloor>log 2 y\<rfloor>")
  case True
  then have "fl_unit x = fl_unit y" using assms by (simp add: fl_unit_def)
  then show ?thesis
    using assms rne_mono [of "x / fl_unit y" "y / fl_unit y"] fl_unit_pos [of y]
    by (simp add: fl_def divide_right_mono mult_right_mono)
next
  case False
  have "\<lfloor>log 2 x\<rfloor> \<le> \<lfloor>log 2 y\<rfloor>" using assms by (simp add: floor_mono)
  with False have "of_int (\<lfloor>log 2 x\<rfloor> + 1) \<le> (of_int \<lfloor>log 2 y\<rfloor> :: real)" by linarith
  then have "2 powr of_int (\<lfloor>log 2 x\<rfloor> + 1) \<le> (2 :: real) powr of_int \<lfloor>log 2 y\<rfloor>"
    by (rule powr_mono) simp
  then show ?thesis using fl_binade [of x] fl_binade [of y] assms by linarith
qed

lemma fl_nonneg: "0 \<le> x \<Longrightarrow> 0 \<le> fl x"
proof (cases "x = 0")
  case False
  assume "0 \<le> x"
  with False show ?thesis using fl_binade(1) [of x] powr_gt_zero [of 2 "of_int \<lfloor>log 2 x\<rfloor>"] by linarith
qed (simp add: fl_def)

lemma fl_mono:
  assumes "x \<le> y"
  shows "fl x \<le> fl y"
proof -
  consider "0 < x" | "y < 0" | "x \<le> 0" "0 \<le> y" using assms by linarith
  then show ?thesis
  proof cases
    case 1
    then show ?thesis by (rule fl_mono_pos [OF _ assms])
  next
    case 2
    with assms fl_mono_pos [of "- y" "- x"] show ?thesis by (simp add: fl_uminus)
  next
    case 3
    with fl_nonneg [of y] fl_nonneg [of "- x"] show ?thesis by (simp add: fl_uminus)
  qed
qed

lemma fl_exact: "x / fl_unit x = of_int k \<Longrightarrow> fl x = x"
  using fl_unit_pos [of x] by (auto simp: fl_def) (simp add: field_simps)

lemma fl_pos_int:
  assumes "0 < i" and "i \<le> 2 ^ 53"
  shows "fl (of_int i) = of_int i"
proof -
  let ?e = "\<lfloor>log 2 (of_int i)\<rfloor>"
  have e: "2 powr of_int ?e \<le> (of_int i :: real)" "0 \<le> ?e"
    using floor_log_eq_powr_iff [of "of_int i" 2 ?e] assms by auto
  show ?thesis
  proof (cases "?e \<le> 52")
    case True
    then have "fl_unit (of_int i) = 1 / 2 ^ nat (52 - ?e)"
      using assms by (simp add: fl_unit_def powr_minus_divide flip: powr_realpow)
        (simp add: powr_diff)
    then show ?thesis by (intro fl_exact [where k = "i * 2 ^ nat (52 - ?e)"]) simp
  next
    case False
    have "(of_int i :: real) \<le> of_int (2 ^ 53)" using assms(2) by (simp only: of_int_le_iff)
    moreover have "2 powr 53 \<le> (2 powr of_int ?e :: real)" using False by (intro powr_mono) auto
    ultimately have "(of_int i :: real) = 2 ^ 53" using e(1) by (simp add: powr_realpow [symmetric])
    then have i: "i = 2 ^ 53" by (metis of_int_eq_iff of_int_numeral of_int_power)
    have "fl_unit (2 ^ 53) = 2"
      by (simp add: fl_unit_def log_nat_power del: power_numeral)
    then show ?thesis unfolding i by (intro fl_exact [where k = "2 ^ 52"]) simp
  qed
qed

lemma fl_int: "\<bar>i\<bar> \<le> 2 ^ 53 \<Longrightarrow> fl (of_int i) = of_int i"
proof -
  assume b: "\<bar>i\<bar> \<le> 2 ^ 53"
  consider "0 < i" | "i = 0" | "i < 0" by linarith
  then show ?thesis
  proof cases
    case 1
    with b show ?thesis by (intro fl_pos_int) auto
  next
    case 3
    with b fl_pos_int [of "- i"] fl_uminus [of "of_int i"] show ?thesis by simp
  qed (simp add: fl_def)
qed

interpretation ieee: rounding fl
  by unfold_locales (auto intro: fl_mono fl_int)

section \<open>Conversions to integers\<close>

text \<open>A \<open>static_cast\<close> from \<open>double\<close> to an unsigned type truncates; a value whose integral part
  the type cannot hold is undefined behaviour.\<close>

definition to_size_t :: "real \<Rightarrow> size_t result" where
  "to_size_t r = (if - 1 < r \<and> r < 2 ^ 64 then Inr (of_nat (nat \<lfloor>r\<rfloor>)) else Inl UB_FloatCast)"

definition to_u32 :: "real \<Rightarrow> u32 result" where
  "to_u32 r = (if - 1 < r \<and> r < 2 ^ 32 then Inr (of_nat (nat \<lfloor>r\<rfloor>)) else Inl UB_FloatCast)"

lemma to_size_t_count:
  assumes "0 \<le> r" and "r \<le> of_nat n" and "n \<le> 2 ^ 53"
  shows "\<exists>k. to_size_t r = Inr k \<and> unat k = nat \<lfloor>r\<rfloor> \<and> unat k \<le> n"
proof -
  have "(of_nat n :: real) \<le> of_nat (2 ^ 53)" using assms(3) by (simp only: of_nat_le_iff)
  then have r: "r < 2 ^ 64" using assms(2) by simp
  have "nat \<lfloor>r\<rfloor> \<le> n" using assms(2) by linarith
  moreover from this assms(3) have "unat (of_nat (nat \<lfloor>r\<rfloor>) :: size_t) = nat \<lfloor>r\<rfloor>"
    by (simp add: unat_of_nat)
  ultimately show ?thesis using assms(1) r by (simp add: to_size_t_def)
qed

lemma to_u32_nat:
  assumes "n < 2 ^ 32"
  shows "to_u32 (of_nat n) = Inr (of_nat n)"
proof -
  have "(of_nat n :: real) < of_nat (2 ^ 32)" using assms by (simp only: of_nat_less_iff)
  then show ?thesis by (simp add: to_u32_def)
qed

end
