(* ===== verification/Connection_Manager.thy ===== *)
theory Connection_Manager
  imports WebSocket_Client Doubles
begin

text \<open>
  \<open>include/connection_manager.h\<close>: the connection manager, its three threads point by point, and the
  interleavings of its threads with \<open>start\<close>, \<open>stop\<close> and the destructor called by the main thread.
  A thread is at one of the points of its loop where it tests a flag or wakes from a sleep;
  what it does between two such points is one step. The threads of the manager itself can
  always be created.
\<close>

section \<open>Configuration and state\<close>

record connection_config =
  cc_host :: string
  cc_port :: string
  auto_reconnect :: bool
  max_reconnect_tries :: i32
  initial_backoff_ms :: u32
  max_backoff_ms :: u32
  backoff_multiplier :: real
  heartbeat_enabled :: bool
  heartbeat_interval_s :: u32
  heartbeat_timeout_s :: u32
  cc_pin_receiver_thread :: bool
  cc_receiver_core_id :: i32

definition connection_config_default :: connection_config where
  "connection_config_default =
     \<lparr>cc_host = '''', cc_port = '''', auto_reconnect = True, max_reconnect_tries = 10,
      initial_backoff_ms = 100, max_backoff_ms = 30000, backoff_multiplier = 2,
      heartbeat_enabled = True, heartbeat_interval_s = 30, heartbeat_timeout_s = 10,
      cc_pin_receiver_thread = False, cc_receiver_core_id = - 1\<rparr>"

text \<open>The defaults repeat the tunables of \<open>config.h\<close>, which the manager does not use.\<close>

definition kBackoffMultiplier :: real where "kBackoffMultiplier = 2"

lemma connection_config_agrees:
  "max_reconnect_tries connection_config_default = kMaxReconnectTries"
  "initial_backoff_ms connection_config_default = kInitialBackoffMs"
  "max_backoff_ms connection_config_default = kMaxBackoffMs"
  "backoff_multiplier connection_config_default = kBackoffMultiplier"
  "heartbeat_interval_s connection_config_default = kHeartbeatIntervalS"
  "heartbeat_timeout_s connection_config_default = kHeartbeatTimeoutS"
  by (simp_all add: connection_config_default_def kMaxReconnectTries_def kInitialBackoffMs_def kMaxBackoffMs_def
      kBackoffMultiplier_def kHeartbeatIntervalS_def kHeartbeatTimeoutS_def)

datatype ConnectionState = Disconnected | Connecting | Connected | Reconnecting | Closing | Closed

fun state_to_string :: "ConnectionState \<Rightarrow> string" where
  "state_to_string Disconnected = ''DISCONNECTED''"
| "state_to_string Connecting = ''CONNECTING''"
| "state_to_string Connected = ''CONNECTED''"
| "state_to_string Reconnecting = ''RECONNECTING''"
| "state_to_string Closing = ''CLOSING''"
| "state_to_string Closed = ''CLOSED''"

text \<open>A \<open>std::function\<close> member: empty, or one that returns or throws when called.\<close>

datatype callback = Unset | Returns | Throws string

datatype cm_event =
    OnConnect
  | OnDisconnect string
  | OnReconnect i32 u32
  | StateChange ConnectionState ConnectionState
  | Printed os_call

text \<open>The points of the three loops.\<close>

datatype reconnect_pc = RC_Loop u32 | RC_Awake u32 | RC_Done
datatype monitor_pc = M_Loop | M_Awake | M_Reconnect reconnect_pc | M_Done
datatype heartbeat_pc = H_Loop | H_Awake | H_Done

record 'w conn_manager =
  cm_config :: connection_config
  cm_state :: ConnectionState
  cm_should_run :: bool
  cm_reconnect_count :: i32
  cm_ioc :: 'w
  cm_client :: "'w client option"
  cm_heartbeat_thread :: "heartbeat_pc thread"
  cm_monitor_thread :: "monitor_pc thread"
  cm_reconnect_thread :: "reconnect_pc thread"
  cm_on_connect :: callback
  cm_on_disconnect :: callback
  cm_on_reconnect :: callback
  cm_log :: "cm_event list"

text \<open>What the manager runs on: Boost, the system, the rounding of doubles, and the steps a
  client's receiver thread gets while another thread waits for it.\<close>

record 'w cm_env =
  env_api :: "'w beast_api"
  env_os :: os_api
  env_rnd :: "real \<Rightarrow> real"
  env_steps :: nat

definition cm_new :: "'w \<Rightarrow> connection_config \<Rightarrow> 'w conn_manager" where
  "cm_new ioc config =
     \<lparr>cm_config = config, cm_state = Disconnected, cm_should_run = False, cm_reconnect_count = 0,
      cm_ioc = ioc, cm_client = None, cm_heartbeat_thread = NoThread, cm_monitor_thread = NoThread,
      cm_reconnect_thread = NoThread, cm_on_connect = Unset, cm_on_disconnect = Unset,
      cm_on_reconnect = Unset, cm_log = []\<rparr>"

definition on_connect :: "callback \<Rightarrow> 'w conn_manager \<Rightarrow> 'w conn_manager" where
  "on_connect cb cm = cm\<lparr>cm_on_connect := cb\<rparr>"

definition on_disconnect :: "callback \<Rightarrow> 'w conn_manager \<Rightarrow> 'w conn_manager" where
  "on_disconnect cb cm = cm\<lparr>cm_on_disconnect := cb\<rparr>"

definition on_reconnect :: "callback \<Rightarrow> 'w conn_manager \<Rightarrow> 'w conn_manager" where
  "on_reconnect cb cm = cm\<lparr>cm_on_reconnect := cb\<rparr>"

definition get_state :: "'w conn_manager \<Rightarrow> ConnectionState" where
  "get_state cm = cm_state cm"

definition cm_is_connected :: "'w conn_manager \<Rightarrow> bool" where
  "cm_is_connected cm \<longleftrightarrow> cm_state cm = Connected"

definition cm_get_client :: "'w conn_manager \<Rightarrow> 'w client option" where
  "cm_get_client cm = cm_client cm"

definition reconnect_count :: "'w conn_manager \<Rightarrow> i32" where
  "reconnect_count cm = cm_reconnect_count cm"

definition log_event :: "cm_event \<Rightarrow> 'w conn_manager \<Rightarrow> 'w conn_manager" where
  "log_event ev cm = cm\<lparr>cm_log := cm_log cm @ [ev]\<rparr>"

definition set_state :: "ConnectionState \<Rightarrow> 'w conn_manager \<Rightarrow> 'w conn_manager" where
  "set_state new_state cm =
     (let old_state = cm_state cm; cm1 = cm\<lparr>cm_state := new_state\<rparr>
      in if old_state \<noteq> new_state then log_event (StateChange old_state new_state) cm1 else cm1)"

text \<open>Calling a callback in a thread function: an exception that leaves it ends the program.\<close>

fun call_back :: "callback \<Rightarrow> cm_event \<Rightarrow> 'w conn_manager \<Rightarrow> 'w conn_manager result" where
  "call_back Unset ev cm = Inr cm"
| "call_back Returns ev cm = Inr (log_event ev cm)"
| "call_back (Throws e) ev cm = Inl (Terminate e)"

section \<open>Connecting\<close>

text \<open>\<open>client_.reset()\<close>: the destructor of the client, if there is one.\<close>

definition client_reset :: "'w cm_env \<Rightarrow> 'w conn_manager \<Rightarrow> 'w conn_manager result" where
  "client_reset env cm =
     (case cm_client cm of
        None \<Rightarrow> Inr cm
      | Some cl \<Rightarrow>
          bind_result (client_destroy (env_steps env) (env_api env) (env_os env) ''ws'' cl) (\<lambda>r.
            case r of None \<Rightarrow> Inl (Hangs ''join of the receiver thread'')
            | Some w \<Rightarrow> Inr (cm\<lparr>cm_client := None, cm_ioc := w\<rparr>)))"

text \<open>The handler of \<open>try_connect\<close>.\<close>

definition connect_failed :: "'w cm_env \<Rightarrow> string \<Rightarrow> 'w conn_manager \<Rightarrow> (bool \<times> 'w conn_manager) result" where
  "connect_failed env e cm =
     bind_result (client_reset env (log_event (Printed (Cerr (''[conn] Connection failed: '' @ e @ nl))) cm))
       (\<lambda>cm'. Inr (False, cm'))"

fun after_connect ::
  "'w cm_env \<Rightarrow> unit outcome \<Rightarrow> callback \<Rightarrow> 'w conn_manager \<Rightarrow> (bool \<times> 'w conn_manager) result" where
  "after_connect env (Crash e) cb cm = Inl e"
| "after_connect env (Throw e) cb cm = connect_failed env e cm"
| "after_connect env (Ret _) Unset cm = Inr (True, cm)"
| "after_connect env (Ret _) Returns cm = Inr (True, log_event OnConnect cm)"
| "after_connect env (Ret _) (Throws e) cm = connect_failed env e cm"

text \<open>The client is built with the default \<open>ClientConfig\<close>. The one it replaces, if any, is destroyed.\<close>

definition try_connect :: "'w cm_env \<Rightarrow> 'w conn_manager \<Rightarrow> (bool \<times> 'w conn_manager) result" where
  "try_connect env cm =
     bind_result (client_reset env cm) (\<lambda>cm1.
       let cl = client_new (env_api env) (cm_ioc cm1) (cc_host (cm_config cm1)) (cc_port (cm_config cm1))
                  client_config_default;
           (r, cl') = ws_connect (env_api env) cl
       in after_connect env r (cm_on_connect cm1) (cm1\<lparr>cm_client := Some cl'\<rparr>))"

section \<open>The reconnect loop\<close>

definition next_backoff :: "(real \<Rightarrow> real) \<Rightarrow> connection_config \<Rightarrow> u32 \<Rightarrow> u32 result" where
  "next_backoff rnd config backoff_ms =
     bind_result (to_u32 (rnd (real (unat backoff_ms) * backoff_multiplier config))) (\<lambda>b.
       Inr (min b (max_backoff_ms config)))"

definition max_tries_msg :: "connection_config \<Rightarrow> string" where
  "max_tries_msg config = ''[conn] Max reconnection attempts ('' @
     int_to_string (sint (max_reconnect_tries config)) @ '') exceeded.'' @ nl"

definition attempt_msg :: "i32 \<Rightarrow> u32 \<Rightarrow> string" where
  "attempt_msg count backoff_ms = ''[conn] Reconnecting (attempt '' @ int_to_string (sint count) @
     '', backoff '' @ nat_to_string (unat backoff_ms) @ ''ms)...'' @ nl"

definition reconnected_msg :: "i32 \<Rightarrow> string" where
  "reconnected_msg count =
     ''[conn] Reconnected after '' @ int_to_string (sint count) @ '' attempt(s).'' @ nl"

definition start_threads :: "'w conn_manager \<Rightarrow> 'w conn_manager" where
  "start_threads cm =
     (let cm1 = (if heartbeat_enabled (cm_config cm) \<and> \<not> joinable (cm_heartbeat_thread cm)
                 then cm\<lparr>cm_heartbeat_thread := Running H_Loop\<rparr> else cm)
      in if \<not> joinable (cm_monitor_thread cm1)
         then cm1\<lparr>cm_monitor_thread := Running M_Loop\<rparr> else cm1)"

fun reconnect_at :: "'w cm_env \<Rightarrow> reconnect_pc \<Rightarrow> 'w conn_manager \<Rightarrow> (reconnect_pc \<times> 'w conn_manager) result" where
  "reconnect_at env (RC_Loop backoff_ms) cm =
     (if \<not> cm_should_run cm then Inr (RC_Done, cm)
      else bind_result (i32_result (sint (cm_reconnect_count cm) + 1)) (\<lambda>count.
        let cm1 = cm\<lparr>cm_reconnect_count := count\<rparr>; tries = max_reconnect_tries (cm_config cm)
        in if 0 < sint tries \<and> sint tries < sint count
           then bind_result
             (call_back (cm_on_disconnect cm) (OnDisconnect ''max retries exceeded'')
               (set_state Disconnected (log_event (Printed (Cerr (max_tries_msg (cm_config cm)))) cm1)))
             (\<lambda>cm2. Inr (RC_Done, cm2))
           else bind_result
             (call_back (cm_on_reconnect cm) (OnReconnect count backoff_ms)
               (log_event (Printed (Cout (attempt_msg count backoff_ms))) cm1))
             (\<lambda>cm2. Inr (RC_Awake backoff_ms, cm2))))"
| "reconnect_at env (RC_Awake backoff_ms) cm =
     bind_result (try_connect env cm) (\<lambda>(ok, cm1).
       if ok then Inr (RC_Done, start_threads ((set_state Connected
         (log_event (Printed (Cout (reconnected_msg (cm_reconnect_count cm1)))) cm1))\<lparr>cm_reconnect_count := 0\<rparr>))
       else bind_result (next_backoff (env_rnd env) (cm_config cm1) backoff_ms) (\<lambda>b.
         Inr (RC_Loop b, cm1)))"
| "reconnect_at env RC_Done cm = Inr (RC_Done, cm)"

text \<open>\<open>reconnect_loop()\<close> on its own, for a number of steps.\<close>

fun reconnect_loop ::
  "nat \<Rightarrow> 'w cm_env \<Rightarrow> reconnect_pc \<Rightarrow> 'w conn_manager \<Rightarrow> (reconnect_pc \<times> 'w conn_manager) result" where
  "reconnect_loop 0 env pc cm = Inr (pc, cm)"
| "reconnect_loop (Suc n) env pc cm =
     bind_result (reconnect_at env pc cm) (\<lambda>(pc', cm'). reconnect_loop n env pc' cm')"

section \<open>The monitor and the heartbeat\<close>

definition connection_lost :: "'w conn_manager \<Rightarrow> bool" where
  "connection_lost cm = (case cm_client cm of None \<Rightarrow> False | Some cl \<Rightarrow> \<not> is_running cl)"

definition lost_msg :: string where
  "lost_msg = ''[conn] Connection lost, initiating reconnect...'' @ nl"

fun monitor_at :: "'w cm_env \<Rightarrow> monitor_pc \<Rightarrow> 'w conn_manager \<Rightarrow> (monitor_pc \<times> 'w conn_manager) result" where
  "monitor_at env M_Loop cm = Inr (if cm_should_run cm then M_Awake else M_Done, cm)"
| "monitor_at env M_Awake cm =
     (if \<not> cm_should_run cm then Inr (M_Done, cm)
      else if connection_lost cm
      then bind_result (call_back (cm_on_disconnect cm) (OnDisconnect ''connection lost'')
             (set_state Reconnecting (log_event (Printed (Cout lost_msg)) cm))) (\<lambda>cm1.
           bind_result (client_reset env cm1) (\<lambda>cm2.
             if auto_reconnect (cm_config cm2)
             then Inr (M_Reconnect (RC_Loop (initial_backoff_ms (cm_config cm2))), cm2)
             else Inr (M_Done, set_state Disconnected cm2)))
      else Inr (M_Loop, cm))"
| "monitor_at env (M_Reconnect pc) cm =
     bind_result (reconnect_at env pc cm) (\<lambda>(pc', cm').
       Inr (if pc' = RC_Done then M_Done else M_Reconnect pc', cm'))"
| "monitor_at env M_Done cm = Inr (M_Done, cm)"

fun ping :: "'w cm_env \<Rightarrow> unit outcome \<times> 'w client \<Rightarrow> 'w conn_manager \<Rightarrow>
    (heartbeat_pc \<times> 'w conn_manager) result" where
  "ping env (Ret _, cl) cm = Inr (H_Loop, cm\<lparr>cm_client := Some cl\<rparr>)"
| "ping env (Throw e, cl) cm =
     Inr (H_Done, log_event (Printed (Cerr (''[heartbeat] Ping failed: '' @ e @ nl))) (cm\<lparr>cm_client := Some cl\<rparr>))"
| "ping env (Crash e, cl) cm = Inl e"

fun heartbeat_at :: "'w cm_env \<Rightarrow> heartbeat_pc \<Rightarrow> 'w conn_manager \<Rightarrow> (heartbeat_pc \<times> 'w conn_manager) result" where
  "heartbeat_at env H_Loop cm =
     Inr (if cm_should_run cm \<and> cm_state cm = Connected then H_Awake else H_Done, cm)"
| "heartbeat_at env H_Awake cm =
     (if \<not> cm_should_run cm then Inr (H_Done, cm)
      else case cm_client cm of
          None \<Rightarrow> Inr (H_Done, cm)
        | Some cl \<Rightarrow> if \<not> is_running cl then Inr (H_Done, cm)
            else ping env (send_text (env_api env) ''__ping__'' cl) cm)"
| "heartbeat_at env H_Done cm = Inr (H_Done, cm)"

section \<open>Starting and stopping\<close>

text \<open>Assigning a new thread to a member that is still joinable ends the program.\<close>

definition thread_assign :: "'pc thread \<Rightarrow> 'pc \<Rightarrow> 'pc thread result" where
  "thread_assign t pc = (if joinable t then Inl (Terminate ''assignment to a joinable thread'') else Inr (Running pc))"

definition start_monitoring :: "'w conn_manager \<Rightarrow> 'w conn_manager result" where
  "start_monitoring cm =
     bind_result
       (if heartbeat_enabled (cm_config cm)
        then bind_result (thread_assign (cm_heartbeat_thread cm) H_Loop) (\<lambda>t. Inr (cm\<lparr>cm_heartbeat_thread := t\<rparr>))
        else Inr cm) (\<lambda>cm1.
     bind_result (thread_assign (cm_monitor_thread cm1) M_Loop) (\<lambda>t. Inr (cm1\<lparr>cm_monitor_thread := t\<rparr>)))"

definition cm_start :: "'w cm_env \<Rightarrow> 'w conn_manager \<Rightarrow> 'w conn_manager result" where
  "cm_start env cm =
     bind_result (try_connect env (set_state Connecting (cm\<lparr>cm_should_run := True\<rparr>))) (\<lambda>(ok, cm1).
       if ok then start_monitoring ((set_state Connected cm1)\<lparr>cm_reconnect_count := 0\<rparr>)
       else if auto_reconnect (cm_config cm1)
       then (let cm2 = set_state Reconnecting cm1
             in bind_result (thread_assign (cm_reconnect_thread cm2)
                  (RC_Loop (initial_backoff_ms (cm_config cm2)))) (\<lambda>t.
                Inr (cm2\<lparr>cm_reconnect_thread := t\<rparr>)))
       else Inr (set_state Disconnected cm1))"

text \<open>Where the main thread is: outside, at one of the joins of \<open>stop\<close>, or before its last line.\<close>

datatype main_pc = Idle | Join_Heartbeat | Join_Monitor | Join_Reconnect | Stopped | Destroyed

definition stop_begin :: "'w cm_env \<Rightarrow> 'w conn_manager \<Rightarrow> (main_pc \<times> 'w conn_manager) result" where
  "stop_begin env cm =
     (if \<not> cm_should_run cm then Inr (Idle, cm)
      else let cm1 = (set_state Closing cm)\<lparr>cm_should_run := False\<rparr>
        in case cm_client cm1 of
             None \<Rightarrow> Inr (Join_Heartbeat, cm1)
           | Some cl \<Rightarrow>
               bind_result (client_close (env_steps env) (env_api env) (env_os env) ''ws'' cl) (\<lambda>r.
                 case r of None \<Rightarrow> Inl (Hangs ''join of the receiver thread'')
                 | Some cl' \<Rightarrow> Inr (Join_Heartbeat, cm1\<lparr>cm_client := Some cl'\<rparr>)))"

text \<open>A join passes when the member has no thread or its thread function has returned.\<close>

fun stop_at :: "main_pc \<Rightarrow> 'w conn_manager \<Rightarrow> main_pc \<times> 'w conn_manager" where
  "stop_at Join_Heartbeat cm =
     (if cm_heartbeat_thread cm \<in> {NoThread, Running H_Done}
      then (Join_Monitor, cm\<lparr>cm_heartbeat_thread := NoThread\<rparr>) else (Join_Heartbeat, cm))"
| "stop_at Join_Monitor cm =
     (if cm_monitor_thread cm \<in> {NoThread, Running M_Done}
      then (Join_Reconnect, cm\<lparr>cm_monitor_thread := NoThread\<rparr>) else (Join_Monitor, cm))"
| "stop_at Join_Reconnect cm =
     (if cm_reconnect_thread cm \<in> {NoThread, Running RC_Done}
      then (Stopped, cm\<lparr>cm_reconnect_thread := NoThread\<rparr>) else (Join_Reconnect, cm))"
| "stop_at Stopped cm = (Idle, set_state Closed cm)"
| "stop_at Idle cm = (Idle, cm)"
| "stop_at Destroyed cm = (Destroyed, cm)"

text \<open>The end of the destructor, after its call of \<open>stop\<close>: the members are destroyed.\<close>

definition destroy_members :: "'w cm_env \<Rightarrow> 'w conn_manager \<Rightarrow> 'w conn_manager result" where
  "destroy_members env cm =
     (if joinable (cm_reconnect_thread cm) \<or> joinable (cm_monitor_thread cm) \<or> joinable (cm_heartbeat_thread cm)
      then Inl (Terminate ''destruction of a joinable thread'')
      else client_reset env cm)"

section \<open>Interleavings\<close>

datatype cm_action = Start | Stop | StopJoin | Destroy | Mon | Hb | Rc | Receiver

definition on_thread ::
  "('pc \<Rightarrow> 'w conn_manager \<Rightarrow> ('pc \<times> 'w conn_manager) result) \<Rightarrow>
   ('pc \<Rightarrow> 'w conn_manager \<Rightarrow> 'w conn_manager) \<Rightarrow> 'pc thread \<Rightarrow> 'w conn_manager \<Rightarrow> 'w conn_manager result" where
  "on_thread step put t cm =
     (case t of NoThread \<Rightarrow> Inr cm
      | Running pc \<Rightarrow> bind_result (step pc cm) (\<lambda>(pc', cm'). Inr (put pc' cm')))"

definition recv_action :: "'w cm_env \<Rightarrow> 'w conn_manager \<Rightarrow> 'w conn_manager result" where
  "recv_action env cm =
     (case cm_client cm of None \<Rightarrow> Inr cm
      | Some cl \<Rightarrow> bind_result (receive_step (env_api env) (env_os env) ''ws'' cl) (\<lambda>cl'.
          Inr (cm\<lparr>cm_client := Some cl'\<rparr>)))"

fun cm_step :: "'w cm_env \<Rightarrow> cm_action \<Rightarrow> main_pc \<times> 'w conn_manager \<Rightarrow> (main_pc \<times> 'w conn_manager) result" where
  "cm_step env Start (m, cm) =
     (if m = Idle then bind_result (cm_start env cm) (\<lambda>cm'. Inr (Idle, cm')) else Inr (m, cm))"
| "cm_step env Stop (m, cm) = (if m = Idle then stop_begin env cm else Inr (m, cm))"
| "cm_step env StopJoin (m, cm) = Inr (stop_at m cm)"
| "cm_step env Destroy (m, cm) =
     (if m = Idle \<and> \<not> cm_should_run cm
      then bind_result (destroy_members env cm) (\<lambda>cm'. Inr (Destroyed, cm')) else Inr (m, cm))"
| "cm_step env Mon (m, cm) =
     bind_result (on_thread (monitor_at env) (\<lambda>pc c. c\<lparr>cm_monitor_thread := Running pc\<rparr>)
       (cm_monitor_thread cm) cm) (\<lambda>cm'. Inr (m, cm'))"
| "cm_step env Hb (m, cm) =
     bind_result (on_thread (heartbeat_at env) (\<lambda>pc c. c\<lparr>cm_heartbeat_thread := Running pc\<rparr>)
       (cm_heartbeat_thread cm) cm) (\<lambda>cm'. Inr (m, cm'))"
| "cm_step env Rc (m, cm) =
     bind_result (on_thread (reconnect_at env) (\<lambda>pc c. c\<lparr>cm_reconnect_thread := Running pc\<rparr>)
       (cm_reconnect_thread cm) cm) (\<lambda>cm'. Inr (m, cm'))"
| "cm_step env Receiver (m, cm) = bind_result (recv_action env cm) (\<lambda>cm'. Inr (m, cm'))"

fun cm_run :: "'w cm_env \<Rightarrow> cm_action list \<Rightarrow> main_pc \<times> 'w conn_manager \<Rightarrow> (main_pc \<times> 'w conn_manager) result" where
  "cm_run env [] s = Inr s"
| "cm_run env (a # as) s = bind_result (cm_step env a s) (cm_run env as)"

end
