(* ===== verification/Client_Runs.thy ===== *)
theory Client_Runs
  imports WebSocket_Client "HOL-Library.Sublist"
begin

text \<open>
  The client under every interleaving of its two threads: the receiver thread's steps and the
  calls of the main thread in any order. The observations of a run are the messages read from
  the stream, the attempts to queue them, and the messages handed to the main thread.
\<close>

section \<open>Runs\<close>

datatype client_event =
  Recv | TryReceive | SendText string | SendBinary "byte list" | CloseStream | Join

datatype obs = ORead message | OPush message bool | ODeliver message

fun recv_obs :: "receiver_pc thread \<Rightarrow> message spsc \<Rightarrow> 'w client \<Rightarrow> obs option" where
  "recv_obs (Running R_Read) q cl' =
     (case cl_receiver cl' of Running (R_Push m) \<Rightarrow> Some (ORead m) | _ \<Rightarrow> None)"
| "recv_obs (Running (R_Push m)) q cl' = Some (OPush m (q_tail (cl_queue cl') \<noteq> q_tail q))"
| "recv_obs _ q cl' = None"

fun client_step ::
  "'w beast_api \<Rightarrow> os_api \<Rightarrow> string \<Rightarrow> client_event \<Rightarrow> 'w client \<Rightarrow> (obs option \<times> 'w client) result" where
  "client_step api os tag Recv cl =
     bind_result (receive_step api os tag cl) (\<lambda>cl'. Inr (recv_obs (cl_receiver cl) (cl_queue cl) cl', cl'))"
| "client_step api os tag TryReceive cl =
     bind_result (try_receive api cl) (\<lambda>(r, cl'). Inr (map_option ODeliver r, cl'))"
| "client_step api os tag (SendText s) cl = Inr (None, snd (send_text api s cl))"
| "client_step api os tag (SendBinary d) cl = Inr (None, snd (send_binary api d cl))"
| "client_step api os tag CloseStream cl = Inr (None, close_stream api tag cl)"
| "client_step api os tag Join cl =
     Inr (None, case join_receiver cl of None \<Rightarrow> cl | Some cl' \<Rightarrow> cl')"

definition the_list :: "'a option \<Rightarrow> 'a list" where
  "the_list ob = (case ob of None \<Rightarrow> [] | Some x \<Rightarrow> [x])"

fun client_run ::
  "'w beast_api \<Rightarrow> os_api \<Rightarrow> string \<Rightarrow> client_event list \<Rightarrow> 'w client \<Rightarrow> (obs list \<times> 'w client) result" where
  "client_run api os tag [] cl = Inr ([], cl)"
| "client_run api os tag (ev # evs) cl =
     bind_result (client_step api os tag ev cl) (\<lambda>(ob, cl1).
     bind_result (client_run api os tag evs cl1) (\<lambda>(obs, cl2).
       Inr (the_list ob @ obs, cl2)))"

fun reads :: "obs list \<Rightarrow> message list" where
  "reads [] = []"
| "reads (ORead m # obs) = m # reads obs"
| "reads (_ # obs) = reads obs"

fun push_attempts :: "obs list \<Rightarrow> message list" where
  "push_attempts [] = []"
| "push_attempts (OPush m ok # obs) = m # push_attempts obs"
| "push_attempts (_ # obs) = push_attempts obs"

fun enqueued :: "obs list \<Rightarrow> message list" where
  "enqueued [] = []"
| "enqueued (OPush m True # obs) = m # enqueued obs"
| "enqueued (_ # obs) = enqueued obs"

fun handed_out :: "obs list \<Rightarrow> message list" where
  "handed_out [] = []"
| "handed_out (ODeliver m # obs) = m # handed_out obs"
| "handed_out (_ # obs) = handed_out obs"

text \<open>With \<open>n\<close> messages queued at first, a message is refused exactly when \<open>b\<close> are queued.\<close>

fun drops_justified :: "nat \<Rightarrow> nat \<Rightarrow> obs list \<Rightarrow> bool" where
  "drops_justified b n [] = True"
| "drops_justified b n (OPush m ok # obs) =
     (ok = (n < b) \<and> drops_justified b (if ok then Suc n else n) obs)"
| "drops_justified b n (ODeliver m # obs) = (0 < n \<and> drops_justified b (n - 1) obs)"
| "drops_justified b n (ORead m # obs) = drops_justified b n obs"

fun pending :: "receiver_pc thread \<Rightarrow> message list" where
  "pending (Running (R_Push m)) = [m]"
| "pending _ = []"

definition client_inv :: "os_api \<Rightarrow> string \<Rightarrow> 'w client \<Rightarrow> bool" where
  "client_inv os tag cl \<longleftrightarrow> spsc_inv kQueueCapacity (cl_queue cl) \<and>
     (\<exists>calls. receiver_pin os tag (cl_config cl) = Inr calls)"

abbreviation queued :: "'w client \<Rightarrow> message list" where
  "queued cl \<equiv> spsc_list kQueueCapacity (cl_queue cl)"

section \<open>The fields the operations leave alone\<close>

named_theorems client_simps \<open>what the client operations leave alone\<close>

lemma cl_print_simps [client_simps]:
  "cl_stream (cl_print cs cl) = cl_stream cl" "cl_config (cl_print cs cl) = cl_config cl"
  "cl_running (cl_print cs cl) = cl_running cl" "cl_receiver (cl_print cs cl) = cl_receiver cl"
  "cl_queue (cl_print cs cl) = cl_queue cl"
  by (simp_all add: cl_print_def)

lemma set_pc_simps [client_simps]:
  "cl_stream (set_pc pc cl) = cl_stream cl" "cl_config (set_pc pc cl) = cl_config cl"
  "cl_running (set_pc pc cl) = cl_running cl" "cl_receiver (set_pc pc cl) = Running pc"
  "cl_queue (set_pc pc cl) = cl_queue cl"
  by (simp_all add: set_pc_def)

lemma read_done_simps [client_simps]:
  "cl_queue (read_done api tag r cl) = cl_queue cl"
  "cl_config (read_done api tag r cl) = cl_config cl"
  "cl_running (read_done api tag r cl) = cl_running cl"
  by (cases r; simp add: client_simps)+

lemma read_done_pc:
  "cl_receiver (read_done api tag r cl) =
     Running (case r of ReadOk d \<Rightarrow> R_Push (message_new d (b_got_text api (cl_stream cl))) | _ \<Rightarrow> R_Exit)"
  by (cases r) (auto simp: client_simps)

lemma close_stream_simps [client_simps]:
  "cl_queue (close_stream api tag cl) = cl_queue cl"
  "cl_config (close_stream api tag cl) = cl_config cl"
  "cl_receiver (close_stream api tag cl) = cl_receiver cl"
  "cl_running (close_stream api tag cl) = False"
  by (auto simp: close_stream_def Let_def cl_print_simps split: prod.splits option.splits)

lemma send_simps [client_simps]:
  "cl_queue (snd (send_text api s cl)) = cl_queue cl"
  "cl_config (snd (send_text api s cl)) = cl_config cl"
  "cl_receiver (snd (send_text api s cl)) = cl_receiver cl"
  "cl_running (snd (send_text api s cl)) = cl_running cl"
  "cl_queue (snd (send_binary api d cl)) = cl_queue cl"
  "cl_config (snd (send_binary api d cl)) = cl_config cl"
  "cl_receiver (snd (send_binary api d cl)) = cl_receiver cl"
  "cl_running (snd (send_binary api d cl)) = cl_running cl"
  by (simp_all add: send_text_def send_binary_def split: prod.splits)

lemma join_receiver_Some:
  assumes "join_receiver cl = Some cl'"
  shows "cl_queue cl' = cl_queue cl" and "cl_config cl' = cl_config cl" and "cl_running cl' = cl_running cl"
    and "cl_receiver cl' = NoThread" and "cl_receiver cl = NoThread \<or> cl_receiver cl = Running R_Done"
  using assms
  by (auto simp: join_receiver.simps split: thread.splits receiver_pc.splits)

section \<open>One step\<close>

text \<open>The push of the receiver, through the queue's contract.\<close>

lemma push_pc_step:
  assumes inv: "spsc_inv kQueueCapacity (cl_queue cl)"
  shows "\<exists>cl'. receive_at api os tag (R_Push m) cl = Inr cl' \<and> cl_receiver cl' = Running R_Loop \<and>
    cl_config cl' = cl_config cl \<and> cl_running cl' = cl_running cl \<and>
    spsc_inv kQueueCapacity (cl_queue cl') \<and>
    (q_tail (cl_queue cl') \<noteq> q_tail (cl_queue cl) \<longleftrightarrow> length (queued cl) < 1023) \<and>
    queued cl' = (if length (queued cl) < 1023 then queued cl @ [m] else queued cl)"
proof -
  from message_queue.push_any_capacity [OF inv, of m] obtain q where
    q: "try_push kQueueCapacity m (cl_queue cl) = Inr (length (queued cl) < 1023, q)"
      "spsc_inv kQueueCapacity q"
      "spsc_list kQueueCapacity q = (if length (queued cl) < 1023 then queued cl @ [m] else queued cl)"
    by (auto simp: unat_kQueueCapacity)
  have t: "q_tail q \<noteq> q_tail (cl_queue cl) \<longleftrightarrow> length (queued cl) < 1023"
    using try_push_tail [OF inv _ q(1)] by (simp add: unat_kQueueCapacity)
  show ?thesis using q t by (auto simp: client_simps)
qed

text \<open>Any other step of the receiver leaves the queue alone.\<close>

fun read_of :: "receiver_pc thread \<Rightarrow> receiver_pc thread \<Rightarrow> message list" where
  "read_of (Running R_Read) t = pending t"
| "read_of _ t = []"

lemma other_pc_step:
  assumes "client_inv os tag cl" and "\<forall>m. pc \<noteq> R_Push m"
  shows "\<exists>cl'. receive_at api os tag pc cl = Inr cl' \<and> cl_queue cl' = cl_queue cl \<and>
    cl_config cl' = cl_config cl \<and>
    (cl_receiver cl = Running pc \<longrightarrow> pending (cl_receiver cl') = read_of (Running pc) (cl_receiver cl'))"
proof (cases pc)
  case R_Start
  with assms show ?thesis by (auto simp: client_inv_def client_simps)
next
  case R_Read
  show ?thesis
    by (cases "b_read api (cl_stream cl)"; cases "fst (b_read api (cl_stream cl))")
      (auto simp: R_Read client_simps)
qed (use assms in \<open>auto simp: client_simps\<close>)

lemma recv_obs_other:
  assumes "\<forall>m. pc \<noteq> R_Push m"
  shows "the_list (recv_obs (Running pc) q cl') = map ORead (read_of (Running pc) (cl_receiver cl'))"
proof (cases pc)
  case R_Read
  show ?thesis
  proof (cases "cl_receiver cl'")
    case (Running pc')
    with R_Read show ?thesis by (cases pc') (simp_all add: the_list_def)
  qed (simp add: R_Read the_list_def)
qed (use assms in \<open>simp_all add: the_list_def\<close>)

lemma reads_map:
  "reads (map ORead ms) = ms" "push_attempts (map ORead ms) = []" "enqueued (map ORead ms) = []"
  "handed_out (map ORead ms) = []" "drops_justified b n (map ORead ms)"
  by (induction ms) simp_all

definition step_ok :: "os_api \<Rightarrow> string \<Rightarrow> 'w client \<Rightarrow> obs option \<Rightarrow> 'w client \<Rightarrow> bool" where
  "step_ok os tag cl ob cl' \<longleftrightarrow> client_inv os tag cl' \<and>
     pending (cl_receiver cl) @ reads (the_list ob) = push_attempts (the_list ob) @ pending (cl_receiver cl') \<and>
     queued cl @ enqueued (the_list ob) = handed_out (the_list ob) @ queued cl' \<and>
     drops_justified 1023 (length (queued cl)) (the_list ob)"

lemma recv_step_ok:
  assumes inv: "client_inv os tag cl"
  shows "\<exists>ob cl'. client_step api os tag Recv cl = Inr (ob, cl') \<and> step_ok os tag cl ob cl'"
proof (cases "cl_receiver cl")
  case NoThread
  with inv show ?thesis by (simp add: receive_step_def step_ok_def the_list_def)
next
  case (Running pc)
  show ?thesis
  proof (cases "\<exists>m. pc = R_Push m")
    case True
    then obtain m where pc: "pc = R_Push m" by blast
    have q: "spsc_inv kQueueCapacity (cl_queue cl)" using inv by (simp add: client_inv_def)
    from push_pc_step [OF q, of api os tag m] obtain cl' where
      "receive_at api os tag (R_Push m) cl = Inr cl'" and
      r: "cl_receiver cl' = Running R_Loop" "cl_config cl' = cl_config cl"
        "spsc_inv kQueueCapacity (cl_queue cl')"
        "q_tail (cl_queue cl') \<noteq> q_tail (cl_queue cl) \<longleftrightarrow> length (queued cl) < 1023"
        "queued cl' = (if length (queued cl) < 1023 then queued cl @ [m] else queued cl)"
      by blast
    then have "client_step api os tag Recv cl = Inr (Some (OPush m (length (queued cl) < 1023)), cl')"
      using Running pc by (simp add: receive_step_def)
    moreover have "step_ok os tag cl (Some (OPush m (length (queued cl) < 1023))) cl'"
      using inv r Running pc
      by (cases "length (queued cl) < 1023") (simp_all add: step_ok_def client_inv_def the_list_def)
    ultimately show ?thesis by blast
  next
    case False
    then obtain cl' where
      r: "receive_at api os tag pc cl = Inr cl'" "cl_queue cl' = cl_queue cl" "cl_config cl' = cl_config cl"
        "pending (cl_receiver cl') = read_of (Running pc) (cl_receiver cl')"
      using other_pc_step [OF inv, of pc api] Running by blast
    let ?ob = "recv_obs (Running pc) (cl_queue cl) cl'"
    have ob: "the_list ?ob = map ORead (pending (cl_receiver cl'))"
      using recv_obs_other [of pc "cl_queue cl" cl'] False r(4) by auto
    have "pending (Running pc) = []" using False by (cases pc) auto
    then have "step_ok os tag cl ?ob cl'"
      using r(2,3) inv Running by (simp add: step_ok_def client_inv_def ob reads_map)
    then show ?thesis using r(1) Running by (simp add: receive_step_def)
  qed
qed

lemma try_receive_spec:
  assumes "spsc_inv kQueueCapacity (cl_queue cl)"
  shows "\<exists>q. try_receive api cl = Inr (case queued cl of [] \<Rightarrow> None | m # _ \<Rightarrow> Some m, cl\<lparr>cl_queue := q\<rparr>) \<and>
    spsc_inv kQueueCapacity q \<and> spsc_list kQueueCapacity q = tl (queued cl)"
  using message_queue.pop_any_capacity [OF assms, of "b_moved api"] by (auto simp: try_receive_def)

lemma client_step_ok:
  assumes inv: "client_inv os tag cl"
  shows "\<exists>ob cl'. client_step api os tag ev cl = Inr (ob, cl') \<and> step_ok os tag cl ob cl'"
proof (cases ev)
  case Recv
  then show ?thesis using recv_step_ok [OF inv, of api] by simp
next
  case TryReceive
  have "spsc_inv kQueueCapacity (cl_queue cl)" using inv by (simp add: client_inv_def)
  from try_receive_spec [OF this, of api] obtain q where
    "try_receive api cl = Inr (case queued cl of [] \<Rightarrow> None | m # _ \<Rightarrow> Some m, cl\<lparr>cl_queue := q\<rparr>)"
    "spsc_inv kQueueCapacity q" "spsc_list kQueueCapacity q = tl (queued cl)" by blast
  then show ?thesis
    using inv TryReceive
    by (cases "queued cl") (auto simp: step_ok_def client_inv_def the_list_def simp flip: length_spsc_list)
next
  case Join
  show ?thesis
  proof (cases "join_receiver cl")
    case (Some cl')
    from join_receiver_Some [OF this] Some inv Join show ?thesis
      by (auto simp: step_ok_def client_inv_def the_list_def)
  qed (use Join inv in \<open>simp add: step_ok_def the_list_def\<close>)
qed (use inv in \<open>auto simp: step_ok_def client_inv_def the_list_def client_simps\<close>)

section \<open>Whole runs\<close>

lemma reads_append: "reads (xs @ ys) = reads xs @ reads ys"
  by (induction xs rule: reads.induct) auto

lemma push_attempts_append: "push_attempts (xs @ ys) = push_attempts xs @ push_attempts ys"
  by (induction xs rule: push_attempts.induct) auto

lemma handed_out_append: "handed_out (xs @ ys) = handed_out xs @ handed_out ys"
  by (induction xs rule: handed_out.induct) auto

lemma enqueued_append: "enqueued (xs @ ys) = enqueued xs @ enqueued ys"
  by (induction xs rule: enqueued.induct) auto

lemmas obs_append = reads_append push_attempts_append handed_out_append enqueued_append

lemma enqueued_subseq: "subseq (enqueued obs) (push_attempts obs)"
  by (induction obs rule: enqueued.induct) auto

lemma drops_justified_step:
  assumes "drops_justified b (length xs) (the_list ob)" and "drops_justified b (length ys) obs"
    and "xs @ enqueued (the_list ob) = handed_out (the_list ob) @ ys"
  shows "drops_justified b (length xs) (the_list ob @ obs)"
proof -
  from assms(3) have len: "length xs + length (enqueued (the_list ob)) =
      length (handed_out (the_list ob)) + length ys"
    by (metis length_append)
  show ?thesis
  proof (cases ob)
    case (Some x)
    then show ?thesis
    proof (cases x)
      case (OPush m ok)
      with Some assms(1,2) len show ?thesis by (cases ok) (simp_all add: the_list_def)
    qed (use Some assms(1,2) len in \<open>simp_all add: the_list_def\<close>)
  qed (use assms len in \<open>simp_all add: the_list_def\<close>)
qed

lemma client_run_ok:
  assumes "client_inv os tag cl"
  shows "\<exists>obs cl'. client_run api os tag evs cl = Inr (obs, cl') \<and> client_inv os tag cl' \<and>
    pending (cl_receiver cl) @ reads obs = push_attempts obs @ pending (cl_receiver cl') \<and>
    queued cl @ enqueued obs = handed_out obs @ queued cl' \<and>
    drops_justified 1023 (length (queued cl)) obs"
  using assms
proof (induction evs arbitrary: cl)
  case (Cons ev evs)
  from client_step_ok [OF Cons.prems, of api ev] obtain ob cl1 where
    st: "client_step api os tag ev cl = Inr (ob, cl1)" and ok: "step_ok os tag cl ob cl1" by blast
  then have inv1: "client_inv os tag cl1" by (simp add: step_ok_def)
  from Cons.IH [OF this] obtain obs cl2 where
    r: "client_run api os tag evs cl1 = Inr (obs, cl2)" "client_inv os tag cl2"
      "pending (cl_receiver cl1) @ reads obs = push_attempts obs @ pending (cl_receiver cl2)"
      "queued cl1 @ enqueued obs = handed_out obs @ queued cl2"
      "drops_justified 1023 (length (queued cl1)) obs" by blast
  have "client_run api os tag (ev # evs) cl = Inr (the_list ob @ obs, cl2)"
    using st r(1) by simp
  moreover have "pending (cl_receiver cl) @ reads (the_list ob @ obs) =
      push_attempts (the_list ob @ obs) @ pending (cl_receiver cl2)"
    using ok r(3) by (simp add: step_ok_def obs_append) (metis append.assoc)
  moreover have "queued cl @ enqueued (the_list ob @ obs) = handed_out (the_list ob @ obs) @ queued cl2"
    using ok r(4) by (simp add: step_ok_def obs_append) (metis append.assoc)
  moreover have "drops_justified 1023 (length (queued cl)) (the_list ob @ obs)"
    using ok r(5) unfolding step_ok_def by (blast intro: drops_justified_step)
  ultimately show ?case using r(2) by blast
qed simp

text \<open>The running flag goes down when the receiver leaves, and no step of a run raises it.\<close>

fun flag_ok :: "receiver_pc thread \<Rightarrow> bool \<Rightarrow> bool" where
  "flag_ok NoThread running = (\<not> running)"
| "flag_ok (Running R_Done) running = (\<not> running)"
| "flag_ok (Running _) running = True"

lemma flag_ok_False [simp]: "flag_ok t False"
  by (cases "(t, False)" rule: flag_ok.cases) simp_all

lemma receive_step_flag:
  assumes "receive_step api os tag cl = Inr cl'" and "flag_ok (cl_receiver cl) (cl_running cl)"
  shows "flag_ok (cl_receiver cl') (cl_running cl')"
proof (cases "cl_receiver cl")
  case NoThread
  with assms show ?thesis by (simp add: receive_step_def)
next
  case (Running pc)
  with assms show ?thesis
    by (cases pc) (auto simp: receive_step_def client_simps read_done_pc
        split: if_splits prod.splits option.splits read_result.splits)
qed

lemma client_step_flag:
  assumes "client_step api os tag ev cl = Inr (ob, cl')" and "flag_ok (cl_receiver cl) (cl_running cl)"
  shows "flag_ok (cl_receiver cl') (cl_running cl')"
proof (cases ev)
  case Recv
  with assms show ?thesis using receive_step_flag by auto
next
  case TryReceive
  with assms show ?thesis by (auto simp: try_receive_def split: prod.splits)
next
  case Join
  show ?thesis
  proof (cases "join_receiver cl")
    case (Some cl1)
    with join_receiver_Some [OF Some] assms Join show ?thesis by auto
  qed (use assms Join in simp)
qed (use assms in \<open>auto simp: client_simps\<close>)

lemma client_run_flag:
  "client_run api os tag evs cl = Inr (obs, cl') \<Longrightarrow> flag_ok (cl_receiver cl) (cl_running cl) \<Longrightarrow>
   flag_ok (cl_receiver cl') (cl_running cl')"
proof (induction evs arbitrary: cl obs)
  case (Cons ev evs)
  from Cons.prems(1) obtain ob cl1 obs1 where
    "client_step api os tag ev cl = Inr (ob, cl1)" "client_run api os tag evs cl1 = Inr (obs1, cl')"
    by (auto split: prod.splits)
  with Cons.IH Cons.prems(2) client_step_flag show ?case by blast
qed simp

end
