(* ===== verification/Client_Properties.thy ===== *)
theory Client_Properties
  imports Client_Runs
begin

text \<open>
  What the two client classes promise: the stages of \<open>connect\<close>, what it leaves behind on
  failure, the messages the main thread gets, how \<open>spin_receive\<close> and \<open>close\<close> end, and which core
  the receiver is pinned to.
\<close>

section \<open>Connecting\<close>

lemma start_receiver_outcome:
  assumes "cl_receiver cl = NoThread"
  shows "fst (start_receiver api line cl) = Ret () \<longleftrightarrow> fst (b_spawn api (cl_stream cl)) = Ret ()"
    and "is_running (snd (start_receiver api line cl))"
    and "cl_receiver (snd (start_receiver api line cl)) =
      (if fst (b_spawn api (cl_stream cl)) = Ret () then Running R_Start else NoThread)"
    and "cl_queue (snd (start_receiver api line cl)) = cl_queue cl"
  using assms
  by (auto simp: start_receiver_def Let_def is_running_def client_simps
      split: prod.splits outcome.splits)

lemma start_receiver_config: "cl_config (snd (start_receiver api line cl)) = cl_config cl"
  by (auto simp: start_receiver_def Let_def client_simps split: prod.splits outcome.splits)

lemma start_receiver_joinable:
  assumes "joinable (cl_receiver cl)"
  shows "fst (start_receiver api line cl) \<noteq> Ret ()"
  using assms by (auto simp: start_receiver_def Let_def split: prod.splits outcome.splits)

text \<open>A stream that also keeps the list of the stages it was asked for.\<close>

datatype stage =
    SResolve string string
  | SConnect "endpoint list"
  | SSni string
  | SOption sock_option
  | STls
  | SUpgrade string string

definition note_stage :: "stage \<Rightarrow> ('w, 'a) io \<Rightarrow> ('w \<times> stage list, 'a) io" where
  "note_stage st f wt = (let (r, w') = f (fst wt) in (r, (w', snd wt @ [st])))"

definition traced :: "'w beast_api \<Rightarrow> ('w \<times> stage list) beast_api" where
  "traced api =
    \<lparr>b_stream = apfst (b_stream api),
     b_resolve = (\<lambda>h p. note_stage (SResolve h p) (b_resolve api h p)),
     b_connect = (\<lambda>eps. note_stage (SConnect eps) (b_connect api eps)),
     b_set_option = (\<lambda>opt. note_stage (SOption opt) (b_set_option api opt)),
     b_set_sni = (\<lambda>h (w, t). let (ok, w') = b_set_sni api h w in (ok, (w', t @ [SSni h]))),
     b_ssl_error = (\<lambda>(w, t). let (e, w') = b_ssl_error api w in (e, (w', t))),
     b_tls_handshake = note_stage STls (b_tls_handshake api),
     b_handshake = (\<lambda>h target. note_stage (SUpgrade h target) (b_handshake api h target)),
     b_spawn = (\<lambda>(w, t). let (r, w') = b_spawn api w in (r, (w', t))),
     b_text = (\<lambda>on. apfst (b_text api on)), b_binary = (\<lambda>on. apfst (b_binary api on)),
     b_write = (\<lambda>d (w, t). let (r, w') = b_write api d w in (r, (w', t))),
     b_is_open = b_is_open api \<circ> fst,
     b_close = (\<lambda>(w, t). let (e, w') = b_close api w in (e, (w', t))),
     b_read = (\<lambda>(w, t). let (r, w') = b_read api w in (r, (w', t))),
     b_got_text = b_got_text api \<circ> fst, b_moved = b_moved api\<rparr>"

text \<open>A chain of stages stops at the first that does not return.\<close>

definition stages_ok :: "'a outcome \<times> 'w \<times> stage list \<Rightarrow> stage list \<Rightarrow> stage list \<Rightarrow> bool" where
  "stages_ok res t0 expected \<longleftrightarrow> (\<exists>t. snd (snd res) = t0 @ t \<and> prefix t expected \<and>
     ((\<exists>a. fst res = Ret a) \<longrightarrow> t = expected))"

lemma stages_ok_bind:
  assumes "\<And>a w'. f w = (Ret a, w') \<Longrightarrow> stages_ok (k a (w', t0 @ [st])) (t0 @ [st]) rest"
  shows "stages_ok (bind_io (note_stage st f) k (w, t0)) t0 (st # rest)"
proof (cases "f w")
  case (Pair r w')
  show ?thesis
  proof (cases r)
    case (Ret a)
    with Pair assms have "stages_ok (k a (w', t0 @ [st])) (t0 @ [st]) rest" by simp
    with Pair Ret show ?thesis by (auto simp: stages_ok_def bind_io_def note_stage_def)
  qed (use Pair in \<open>auto simp: stages_ok_def bind_io_def note_stage_def\<close>)
qed

lemma stages_ok_last: "stages_ok (note_stage st f (w, t0)) t0 [st]"
  by (cases "f w") (auto simp: stages_ok_def note_stage_def)

lemma sni_traced: "sni_io (traced api) host (w, t0) = note_stage (SSni host) (sni_io api host) (w, t0)"
  by (auto simp: sni_io_def traced_def note_stage_def Let_def split: prod.splits)

lemma stages_ok_bind_ex:
  assumes "\<And>a w'. f w = (Ret a, w') \<Longrightarrow> \<exists>x. stages_ok (k a (w', t0 @ [st])) (t0 @ [st]) (rest x)"
  shows "\<exists>x. stages_ok (bind_io (note_stage st f) k (w, t0)) t0 (st # rest x)"
proof (cases "\<exists>a w'. f w = (Ret a, w')")
  case True
  then obtain a w' where r: "f w = (Ret a, w')" by blast
  with assms obtain x where "stages_ok (k a (w', t0 @ [st])) (t0 @ [st]) (rest x)" by blast
  with r have "stages_ok (bind_io (note_stage st f) k (w, t0)) t0 (st # rest x)"
    by (intro stages_ok_bind) simp
  then show ?thesis by blast
next
  case False
  then show ?thesis using stages_ok_bind [of f w k t0 st] by blast
qed

definition option_stages :: "stage list" where
  "option_stages = [SOption (NoDelay True), SOption (ReceiveBufferSize kReadBufferSize),
     SOption (SendBufferSize kReadBufferSize)]"

lemma traced_simps:
  "b_resolve (traced api) h p = note_stage (SResolve h p) (b_resolve api h p)"
  "b_connect (traced api) eps = note_stage (SConnect eps) (b_connect api eps)"
  "b_set_option (traced api) opt = note_stage (SOption opt) (b_set_option api opt)"
  "b_tls_handshake (traced api) = note_stage STls (b_tls_handshake api)"
  "b_handshake (traced api) h target = note_stage (SUpgrade h target) (b_handshake api h target)"
  by (simp_all add: traced_def)

lemma bind_sni_traced:
  "bind_io (sni_io (traced api) host) k (w, t0) = bind_io (note_stage (SSni host) (sni_io api host)) k (w, t0)"
  by (simp add: bind_io_def sni_traced)

lemma ws_stages:
  "\<exists>eps. stages_ok (ws_establish (traced api) host port (w, [])) []
     (SResolve host port # SConnect eps # option_stages @ [SUpgrade host ''/''])"
  unfolding ws_establish_def traced_simps option_stages_def append.simps
  by (rule stages_ok_bind_ex, rule exI, rule stages_ok_bind) (intro stages_ok_bind stages_ok_last)

lemma wss_stages:
  "\<exists>eps (ep :: endpoint). stages_ok (wss_establish (traced api) host port (w, [])) []
     (SResolve host port # SConnect eps # SSni host # option_stages @
       [STls, SUpgrade (host @ '':'' @ nat_to_string (unat (snd ep))) ''/''])"
proof -
  let ?hp = "\<lambda>ep :: endpoint. host @ '':'' @ nat_to_string (unat (snd ep))"
  let ?opt = "\<lambda>opt. note_stage (SOption opt) (b_set_option api opt)"
  let ?tail = "\<lambda>ep. bind_io (sni_io (traced api) host) (\<lambda>_.
     bind_io (?opt (NoDelay True)) (\<lambda>_. bind_io (?opt (ReceiveBufferSize kReadBufferSize)) (\<lambda>_.
     bind_io (?opt (SendBufferSize kReadBufferSize)) (\<lambda>_. bind_io (note_stage STls (b_tls_handshake api)) (\<lambda>_.
     note_stage (SUpgrade (?hp ep) ''/'') (b_handshake api (?hp ep) ''/''))))))"
  let ?exp = "\<lambda>ep. SSni host # option_stages @ [STls, SUpgrade (?hp ep) ''/'']"
  have tail: "stages_ok (?tail ep (w2, t)) t (?exp ep)" for ep w2 t
    unfolding bind_sni_traced option_stages_def append.simps
    by (intro stages_ok_bind stages_ok_last)
  have conn: "\<exists>x. stages_ok (bind_io (note_stage (SConnect eps) (b_connect api eps)) ?tail (w1, t)) t
      (SConnect (fst x) # ?exp (snd x))" for eps w1 t
  proof -
    have "\<exists>ep. stages_ok (bind_io (note_stage (SConnect eps) (b_connect api eps)) ?tail (w1, t)) t
      (SConnect eps # ?exp ep)"
      by (rule stages_ok_bind_ex, rule exI, rule tail)
    then show ?thesis by force
  qed
  have "\<exists>x. stages_ok (wss_establish (traced api) host port (w, [])) []
      (SResolve host port # SConnect (fst x) # ?exp (snd x))"
    unfolding wss_establish_def traced_simps by (rule stages_ok_bind_ex, rule conn)
  then obtain x where x: "stages_ok (wss_establish (traced api) host port (w, [])) []
      (SResolve host port # SConnect (fst x) # ?exp (snd x))" ..
  show ?thesis by (rule exI [of _ "fst x"], rule exI [of _ "snd x"], rule x)
qed

section \<open>Waiting for the receiver\<close>

lemma receive_loop_add:
  "receive_loop (m + k) api os tag cl = bind_result (receive_loop m api os tag cl) (receive_loop k api os tag)"
proof (induction m arbitrary: cl)
  case (Suc m)
  then show ?case by (cases "receive_step api os tag cl") auto
qed simp

definition receiver_gone :: "'w client \<Rightarrow> bool" where
  "receiver_gone cl \<longleftrightarrow> cl_receiver cl = NoThread \<or> cl_receiver cl = Running R_Done"

lemma receive_loop_gone: "receiver_gone cl \<Longrightarrow> receive_loop n api os tag cl = Inr cl"
  by (induction n) (auto simp: receiver_gone_def receive_step_def)

text \<open>A read that blocks returns after at most \<open>n\<close> further looks at the stream.\<close>

fun read_returns :: "'w beast_api \<Rightarrow> nat \<Rightarrow> 'w \<Rightarrow> bool" where
  "read_returns api 0 w \<longleftrightarrow> fst (b_read api w) \<noteq> None"
| "read_returns api (Suc n) w \<longleftrightarrow> fst (b_read api w) \<noteq> None \<or> read_returns api n (snd (b_read api w))"

definition winds_down :: "nat \<Rightarrow> 'w beast_api \<Rightarrow> os_api \<Rightarrow> string \<Rightarrow> 'w client \<Rightarrow> bool" where
  "winds_down n api os tag cl \<longleftrightarrow>
     (\<exists>cl'. receive_loop n api os tag cl = Inr cl' \<and> receiver_gone cl' \<and> \<not> cl_running cl')"

lemma winds_down_more:
  assumes "winds_down m api os tag cl"
  shows "winds_down (m + k) api os tag cl"
  using assms receive_loop_gone by (fastforce simp: winds_down_def receive_loop_add)

lemma winds_down_step:
  assumes "receive_step api os tag cl = Inr cl1" and "winds_down m api os tag cl1"
  shows "winds_down (Suc m) api os tag cl"
  using assms by (auto simp: winds_down_def)

lemma winds_down_exit: "cl_receiver cl = Running R_Exit \<Longrightarrow> winds_down 1 api os tag cl"
  by (simp add: winds_down_def receive_step_def receiver_gone_def client_simps)

lemma winds_down_loop:
  assumes "cl_receiver cl = Running R_Loop" and "\<not> cl_running cl"
  shows "winds_down 2 api os tag cl"
  using winds_down_step [OF _ winds_down_exit, of api os tag cl "set_pc R_Exit cl"] assms
  by (simp add: receive_step_def client_simps numeral_2_eq_2)

lemma winds_down_push:
  assumes "cl_receiver cl = Running (R_Push m)" and "\<not> cl_running cl" and "client_inv os tag cl"
  shows "winds_down 3 api os tag cl"
proof -
  from push_pc_step [of cl api os tag m] assms(3) obtain cl' where
    "receive_at api os tag (R_Push m) cl = Inr cl'" "cl_receiver cl' = Running R_Loop"
    "cl_running cl' = cl_running cl"
    by (auto simp: client_inv_def)
  then show ?thesis
    using winds_down_step [OF _ winds_down_loop, of api os tag cl cl'] assms
    by (simp add: receive_step_def)
qed

lemma winds_down_read_done:
  assumes "\<not> cl_running cl" and "client_inv os tag cl"
  shows "winds_down 3 api os tag (read_done api tag r cl)"
proof (cases "\<exists>d. r = ReadOk d")
  case True
  then obtain d where "r = ReadOk d" by blast
  then show ?thesis
    using assms
    by (intro winds_down_push [where m = "message_new d (b_got_text api (cl_stream cl))"])
      (auto simp: client_simps client_inv_def)
next
  case False
  then have "cl_receiver (read_done api tag r cl) = Running R_Exit"
    by (cases r) (auto simp: read_done_pc simp del: read_done.simps)
  then have "winds_down (1 + 2) api os tag (read_done api tag r cl)"
    by (intro winds_down_more winds_down_exit)
  then show ?thesis by (simp add: numeral_3_eq_3)
qed

lemma winds_down_read:
  assumes "cl_receiver cl = Running R_Read" and "\<not> cl_running cl" and "client_inv os tag cl"
    and "read_returns api n (cl_stream cl)"
  shows "winds_down (n + 4) api os tag cl"
  using assms
proof (induction n arbitrary: cl)
  case 0
  then obtain r w where rd: "b_read api (cl_stream cl) = (Some r, w)"
    by (cases "b_read api (cl_stream cl)") auto
  have "winds_down 3 api os tag (read_done api tag r (cl\<lparr>cl_stream := w\<rparr>))"
    using 0 by (intro winds_down_read_done) (auto simp: client_inv_def)
  with winds_down_step [OF _ this] rd 0 show ?case by (simp add: receive_step_def)
next
  case (Suc n)
  obtain r w where rd: "b_read api (cl_stream cl) = (r, w)" by (cases "b_read api (cl_stream cl)")
  show ?case
  proof (cases r)
    case None
    with rd Suc have "winds_down (n + 4) api os tag (cl\<lparr>cl_stream := w\<rparr>)"
      by (intro Suc.IH) (auto simp: client_inv_def)
    with winds_down_step [OF _ this] rd None Suc show ?thesis by (simp add: receive_step_def)
  next
    case (Some x)
    have "winds_down (3 + (n + 1)) api os tag (read_done api tag x (cl\<lparr>cl_stream := w\<rparr>))"
      using Suc by (intro winds_down_more winds_down_read_done) (auto simp: client_inv_def)
    then have "winds_down (n + 4) api os tag (read_done api tag x (cl\<lparr>cl_stream := w\<rparr>))"
      by (simp add: add.commute numeral_eq_Suc)
    with winds_down_step [OF _ this] rd Some Suc show ?thesis by (simp add: receive_step_def)
  qed
qed

lemma winds_down_any:
  assumes "\<not> cl_running cl" and "client_inv os tag cl" and "read_returns api n (cl_stream cl)"
  shows "winds_down (n + 4) api os tag cl"
proof (cases "cl_receiver cl")
  case NoThread
  then have "receiver_gone cl" by (simp add: receiver_gone_def)
  with assms(1) show ?thesis by (auto simp: winds_down_def receive_loop_gone)
next
  case (Running pc)
  show ?thesis
  proof (cases pc)
    case R_Start
    from assms(2) obtain calls where "receiver_pin os tag (cl_config cl) = Inr calls"
      by (auto simp: client_inv_def)
    with winds_down_step [OF _ winds_down_loop, of api os tag cl "set_pc R_Loop (cl_print calls cl)"]
    have "winds_down 3 api os tag cl"
      using Running R_Start assms(1) by (simp add: receive_step_def client_simps)
    then have "winds_down (3 + (n + 1)) api os tag cl" by (rule winds_down_more)
    then show ?thesis by (simp add: add.commute numeral_eq_Suc)
  next
    case R_Loop
    with winds_down_more [OF winds_down_loop, where k = "n + 2" and cl = cl] Running assms(1)
    show ?thesis by (simp add: add.commute numeral_eq_Suc)
  next
    case R_Read
    with Running assms show ?thesis by (intro winds_down_read) auto
  next
    case (R_Push m)
    with winds_down_more [OF winds_down_push, where k = "n + 1" and cl = cl] Running assms
    show ?thesis by (simp add: add.commute numeral_eq_Suc)
  next
    case R_Exit
    with winds_down_more [OF winds_down_exit, where k = "n + 3" and cl = cl] Running
    show ?thesis by (simp add: add.commute numeral_eq_Suc)
  next
    case R_Done
    with Running have "receiver_gone cl" by (simp add: receiver_gone_def)
    with assms(1) show ?thesis by (auto simp: winds_down_def receive_loop_gone)
  qed
qed

section \<open>The core the receiver runs on\<close>

lemma receiver_core_auto:
  assumes "sint (receiver_core_id cfg) < 0" and "unat (get_cpu_count os) \<le> max_cores os"
  shows "\<exists>core. receiver_core os cfg = Inr core \<and> sint core = int (unat (get_cpu_count os)) - 1"
proof -
  have "max_cores os \<le> 1024" by (simp add: max_cores_def split: platform.split)
  with assms(2) have "unat (get_cpu_count os) < 2 ^ 31" by simp
  then have c: "sint (get_cpu_count os) = int (unat (get_cpu_count os))" by (rule sint_small)
  define n where "n = unat (get_cpu_count os)"
  have "n \<le> 1024" and "0 < n"
    using assms(2) \<open>max_cores os \<le> 1024\<close> get_cpu_count_pos [of os] by (auto simp: n_def)
  then have "\<exists>w. i32_result (int n - 1) = Inr w \<and> sint w = int n - 1"
    by (intro i32_result_sint) auto
  then show ?thesis
    using assms(1) c by (simp add: receiver_core_def Let_def flip: n_def)
qed

lemma receiver_pin_core:
  assumes "pin_receiver_thread cfg" and "receiver_core os cfg = Inr core"
    and "0 \<le> sint core" and "sint core < int (max_cores os)"
  shows "\<exists>calls. receiver_pin os tag cfg = Inr calls \<and>
    (\<Union>c \<in> set calls. requested_cores c) = {nat (sint core)}"
  using assms thread_pinner_new_ok [OF assms(3,4), of "tag @ ''_receiver''"]
  by (auto simp: receiver_pin_def)

section \<open>A stream that replays a script\<close>

text \<open>The concrete stream of the examples: its state is the list of what the next reads give,
  a blocked look at the stream being \<open>None\<close>; closing it cancels the pending read.\<close>

definition replay_api :: "read_result option list beast_api" where
  "replay_api =
    \<lparr>b_stream = (\<lambda>w. w), b_resolve = (\<lambda>h p w. (Ret [(h, 80)], w)), b_connect = (\<lambda>eps w. (Ret (hd eps), w)),
     b_set_option = (\<lambda>opt w. (Ret (), w)), b_set_sni = (\<lambda>h w. (True, w)), b_ssl_error = (\<lambda>w. ('''', w)),
     b_tls_handshake = (\<lambda>w. (Ret (), w)), b_handshake = (\<lambda>h t w. (Ret (), w)),
     b_spawn = (\<lambda>w. (Ret (), w)), b_text = (\<lambda>on w. w), b_binary = (\<lambda>on w. w),
     b_write = (\<lambda>d w. (Ret (), w)), b_is_open = (\<lambda>w. True),
     b_close = (\<lambda>w. (None, [None, Some (ReadError ''Operation canceled'')])),
     b_read = (\<lambda>w. case w of [] \<Rightarrow> (None, []) | r # rs \<Rightarrow> (r, rs)),
     b_got_text = (\<lambda>w. True), b_moved = (\<lambda>m. m\<lparr>payload := ''''\<rparr>)\<rparr>"

definition linux_os :: os_api where
  "linux_os = \<lparr>os_platform = Posix, hardware_concurrency = 8, os_set_affinity_mask = (\<lambda>_. 0),
     os_set_priority_highest = False, os_GetLastError = 0, os_setaffinity_np = (\<lambda>_. 0),
     os_has_SetThreadDescription = False\<rparr>"

definition demo_client :: "read_result option list \<Rightarrow> read_result option list client" where
  "demo_client script = client_new replay_api script ''localhost'' ''8765'' client_config_default"

lemma demo_client_simps:
  "cl_receiver (demo_client script) = NoThread" "\<not> is_running (demo_client script)"
  "cl_stream (demo_client script) = script" "cl_running (demo_client script) = False"
  "cl_config (demo_client script) = client_config_default"
  "cl_queue (demo_client script) = spsc_new kQueueCapacity message_default"
  by (simp_all add: demo_client_def client_new_def is_running_def replay_api_def)

lemma replay_connect:
  "fst (ws_connect replay_api (demo_client script)) = Ret ()"
  by (simp add: ws_connect_def ws_establish_def bind_io_def replay_api_def demo_client_def client_new_def
      start_receiver_def cl_print_def)

lemma demo_inv: "client_inv os tag (demo_client script)"
  using message_queue.fifo.new_inv [of message_default]
  by (simp add: client_inv_def demo_client_simps receiver_pin_def client_config_default_def)

section \<open>Properties\<close>

definition connect_contract ::
  "'w beast_api \<Rightarrow> (string \<Rightarrow> string \<Rightarrow> ('w, unit) io) \<Rightarrow> ('w client \<Rightarrow> unit outcome \<times> 'w client) \<Rightarrow>
   'w client \<Rightarrow> bool" where
  "connect_contract api establish connect cl \<longleftrightarrow>
     (let (r, w) = establish (cl_host cl) (cl_port cl) (cl_stream cl); res = connect cl
      in (fst res = Ret () \<longleftrightarrow> r = Ret () \<and> fst (b_spawn api w) = Ret ()) \<and>
         (fst res = Ret () \<longrightarrow> is_running (snd res) \<and> cl_receiver (snd res) = Running R_Start) \<and>
         (fst res \<noteq> Ret () \<longrightarrow> cl_receiver (snd res) = NoThread \<and> (is_running (snd res) \<longleftrightarrow> r = Ret ())) \<and>
         cl_queue (snd res) = cl_queue cl)"

text \<open>The two client classes have the shape of \<open>connect\<close> in common: network stages of their own, then
  the log line and the receiver thread. What follows from it is proved once.\<close>

locale client_class =
  fixes api :: "'w beast_api"
    and establish :: "string \<Rightarrow> string \<Rightarrow> ('w, unit) io"
    and connect :: "'w client \<Rightarrow> unit outcome \<times> 'w client"
    and banner :: "'w client \<Rightarrow> string"
  assumes connect_stages_fail:
      "establish (cl_host cl) (cl_port cl) (cl_stream cl) = (Throw e, w) \<Longrightarrow> connect cl = (Throw e, cl\<lparr>cl_stream := w\<rparr>)"
    and connect_stages_crash:
      "establish (cl_host cl) (cl_port cl) (cl_stream cl) = (Crash x, w) \<Longrightarrow> connect cl = (Crash x, cl\<lparr>cl_stream := w\<rparr>)"
    and connect_stages_done:
      "establish (cl_host cl) (cl_port cl) (cl_stream cl) = (Ret (), w) \<Longrightarrow>
       connect cl = start_receiver api (banner cl) (cl\<lparr>cl_stream := w\<rparr>)"
begin

lemma fresh_contract:
  assumes "cl_receiver cl = NoThread" and "\<not> is_running cl"
  shows "connect_contract api establish connect cl"
proof (cases "establish (cl_host cl) (cl_port cl) (cl_stream cl)")
  case (Pair r w)
  have "cl_receiver (cl\<lparr>cl_stream := w\<rparr>) = NoThread" using assms(1) by simp
  note st = start_receiver_outcome [OF this]
  show ?thesis
  proof (cases r)
    case (Ret u)
    with connect_stages_done [of cl w] Pair
    have c: "connect cl = start_receiver api (banner cl) (cl\<lparr>cl_stream := w\<rparr>)" by simp
    show ?thesis using Pair Ret st by (simp add: connect_contract_def Let_def c)
  next
    case (Throw e)
    with Pair connect_stages_fail [of cl e w] assms show ?thesis
      by (simp add: connect_contract_def Let_def is_running_def)
  next
    case (Crash x)
    with Pair connect_stages_crash [of cl x w] assms show ?thesis
      by (simp add: connect_contract_def Let_def is_running_def)
  qed
qed

lemma unjoined_fails:
  assumes "joinable (cl_receiver cl)"
  shows "fst (connect cl) \<noteq> Ret ()"
proof (cases "establish (cl_host cl) (cl_port cl) (cl_stream cl)")
  case (Pair r w)
  have "joinable (cl_receiver (cl\<lparr>cl_stream := w\<rparr>))" using assms by simp
  from start_receiver_joinable [OF this] show ?thesis
    using Pair connect_stages_fail [of cl] connect_stages_crash [of cl] connect_stages_done [of cl]
    by (cases r) auto
qed

lemma fresh_no_crash:
  assumes "cl_receiver cl = NoThread" and "no_crash (establish (cl_host cl) (cl_port cl))" and "no_crash (b_spawn api)"
  shows "fst (connect cl) \<noteq> Crash e"
proof (cases "establish (cl_host cl) (cl_port cl) (cl_stream cl)")
  case (Pair r w)
  have "fst (start_receiver api (banner cl) (cl\<lparr>cl_stream := w\<rparr>)) \<noteq> Crash e"
    using assms(1,3) by (auto simp: start_receiver_def Let_def no_crash_def cl_print_def split: prod.splits outcome.splits)
  then show ?thesis
    using Pair assms(2) connect_stages_fail [of cl] connect_stages_done [of cl] by (cases r) (auto simp: no_crash_def)
qed

lemma connect_keeps_config: "cl_config (snd (connect cl)) = cl_config cl"
proof (cases "establish (cl_host cl) (cl_port cl) (cl_stream cl)")
  case (Pair r w)
  then show ?thesis
    using connect_stages_fail [of cl] connect_stages_crash [of cl] connect_stages_done [of cl]
    by (cases r) (auto simp: start_receiver_config)
qed

end

interpretation plain: client_class api "ws_establish api" "ws_connect api"
  "\<lambda>cl. logline ''ws'' (''Connected to '' @ cl_host cl @ '':'' @ cl_port cl)" for api
  by unfold_locales (simp_all add: ws_connect_def)

interpretation tls: client_class api "wss_establish api" "wss_connect api"
  "\<lambda>cl. logline ''wss'' (''Connected to '' @ cl_host cl @ '':'' @ cl_port cl @ '' (TLS secured)'')" for api
  by unfold_locales (simp_all add: wss_connect_def)

text \<open>C11: On a fresh client \<open>connect\<close>, plain or TLS, returns exactly when every stage and the start of
  the receiver thread succeed, and then the client runs with a receiver. Otherwise there is
  no receiver thread, and \<open>is_running\<close> is true only when the handshakes succeeded and thread
  creation was what threw.\<close>

theorem connect_outcomes:
  assumes "cl_receiver cl = NoThread" and "\<not> is_running cl"
  shows "connect_contract api (ws_establish api) (ws_connect api) cl \<and>
    connect_contract api (wss_establish api) (wss_connect api) cl"
  using plain.fresh_contract [OF assms] tls.fresh_contract [OF assms] ..

theorem connect_outcomes_witness:
  "connect_contract replay_api (ws_establish replay_api) (ws_connect replay_api) (demo_client []) \<and>
   connect_contract replay_api (wss_establish replay_api) (wss_connect replay_api) (demo_client [])"
  by (rule connect_outcomes) (simp_all add: demo_client_simps)



lemma queued_demo: "queued (demo_client script) = []"
  by (simp add: demo_client_simps spsc_new_list)


text \<open>After a successful \<open>connect\<close>, whatever the two threads do, a receiver thread that has
  returned or been joined leaves \<open>is_running\<close> false; no later call of the run makes it true.\<close>

theorem receiver_exit_clears_running:
  assumes "cl_receiver cl = NoThread" and "ws_connect api cl = (Ret (), cl1)"
    and "client_run api os tag evs cl1 = Inr (obs, cl2)" and "receiver_gone cl2"
  shows "\<not> is_running cl2"
proof -
  have "flag_ok (cl_receiver cl1) (cl_running cl1)"
  proof -
    have "cl_receiver (cl\<lparr>cl_stream := w\<rparr>) = NoThread" for w using assms(1) by simp
    from start_receiver_outcome(1,3) [OF this] assms(2) have "cl_receiver cl1 = Running R_Start"
      by (auto simp: ws_connect_def Let_def split: prod.splits outcome.splits) (metis fst_conv snd_conv)
    then show ?thesis by simp
  qed
  from client_run_flag [OF assms(3) this] assms(4) show ?thesis
    by (auto simp: receiver_gone_def is_running_def)
qed

theorem receiver_exit_clears_running_witness:
  "\<exists>obs cl2. client_run replay_api linux_os ''ws'' [Recv, Recv, Recv, Recv]
     (snd (ws_connect replay_api (demo_client [Some ReadClosed]))) = Inr (obs, cl2) \<and> \<not> is_running cl2"
proof -
  let ?cl1 = "snd (ws_connect replay_api (demo_client [Some ReadClosed]))"
  have c: "ws_connect replay_api (demo_client [Some ReadClosed]) = (Ret (), ?cl1)"
    using replay_connect [of "[Some ReadClosed]"] by (simp add: prod_eq_iff)
  have "\<exists>obs cl2. client_run replay_api linux_os ''ws'' [Recv, Recv, Recv, Recv] ?cl1 = Inr (obs, cl2) \<and>
      receiver_gone cl2"
    by (simp add: ws_connect_def ws_establish_def bind_io_def replay_api_def demo_client_def client_new_def
      start_receiver_def cl_print_def receive_step_def receiver_pin_def client_config_default_def
      set_pc_def receiver_gone_def)
  then obtain obs cl2 where
    r: "client_run replay_api linux_os ''ws'' [Recv, Recv, Recv, Recv] ?cl1 = Inr (obs, cl2)" "receiver_gone cl2"
    by blast
  from receiver_exit_clears_running [OF _ c r] have "\<not> is_running cl2" by (simp add: demo_client_simps)
  with r(1) show ?thesis by blast
qed

text \<open>\<open>spin_receive\<close> returns the oldest message at the first poll that finds one queued, after
  however many steps the receiver needed.\<close>

lemma spin_receive_returns_oldest:
  assumes "receive_loop k api os tag cl = Inr cl1" and "spsc_inv kQueueCapacity (cl_queue cl1)"
    and "queued cl1 = m # ms"
  shows "\<exists>q. spin_receive (k # sched) api os tag cl = Inr (Some (m, cl1\<lparr>cl_queue := q\<rparr>)) \<and>
    spsc_list kQueueCapacity q = ms"
  using try_receive_spec [OF assms(2), of api] assms by auto

lemma spin_receive_stuck:
  assumes "receiver_gone cl" and "spsc_inv kQueueCapacity (cl_queue cl)" and "queued cl = []"
  shows "spin_receive sched api os tag cl = Inr None"
proof (induction sched)
  case (Cons k sched)
  have "try_pop kQueueCapacity (b_moved api) (cl_queue cl) = Inr (None, cl_queue cl)"
    using try_pop_empty [OF assms(2,3)] .
  then have "try_receive api cl = Inr (None, cl)" by (simp add: try_receive_def)
  with Cons show ?case by (simp add: receive_loop_gone [OF assms(1)])
qed simp

text \<open>C13: Once the receiver thread has returned and the queue is empty, \<open>spin_receive\<close> never
  returns: it does not look at \<open>running_\<close>, so it polls forever under every schedule.\<close>

theorem spin_receive_hangs:
  assumes "receiver_gone cl" and "spsc_inv kQueueCapacity (cl_queue cl)" and "queued cl = []"
  shows "spin_receive sched api os tag cl = Inr None"
  using assms by (rule spin_receive_stuck)

theorem spin_receive_hangs_witness:
  "spin_receive [3, 0, 7] replay_api linux_os ''ws'' ((demo_client [])\<lparr>cl_receiver := Running R_Done\<rparr>) = Inr None"
proof (rule spin_receive_hangs)
  show "spsc_inv kQueueCapacity (cl_queue ((demo_client [])\<lparr>cl_receiver := Running R_Done\<rparr>))"
    using demo_inv [of linux_os "''ws''" "[]"] by (simp add: client_inv_def)
qed (simp_all add: receiver_gone_def queued_demo)

text \<open>C10: \<open>close\<close> returns whenever the pending read does: at whatever point the receiver thread is,
  if after closing the stream a blocked read returns within \<open>n\<close> looks, the receiver ends within
  \<open>n + 4\<close> of its steps, the thread is joined and the client is not running.\<close>

theorem close_returns:
  assumes "client_inv os tag cl" and "read_returns api n (cl_stream (close_stream api tag cl))"
  shows "\<exists>cl'. client_close (n + 4) api os tag cl = Inr (Some cl') \<and>
    \<not> joinable (cl_receiver cl') \<and> \<not> is_running cl'"
proof -
  have "winds_down (n + 4) api os tag (close_stream api tag cl)"
    using assms by (intro winds_down_any) (auto simp: client_simps client_inv_def)
  then obtain cl1 where r: "receive_loop (n + 4) api os tag (close_stream api tag cl) = Inr cl1"
      "receiver_gone cl1" "\<not> cl_running cl1"
    by (auto simp: winds_down_def)
  then have "\<exists>cl'. join_receiver cl1 = Some cl'"
    by (auto simp: receiver_gone_def join_receiver.simps)
  then obtain cl' where "join_receiver cl1 = Some cl'" ..
  with join_receiver_Some [OF this] r show ?thesis by (simp add: client_close_def is_running_def)
qed

theorem close_returns_witness:
  "\<exists>cl'. client_close (1 + 4) replay_api linux_os ''ws''
      ((demo_client [])\<lparr>cl_running := True, cl_receiver := Running R_Read\<rparr>) = Inr (Some cl') \<and>
    \<not> joinable (cl_receiver cl') \<and> \<not> is_running cl'"
proof (rule close_returns)
  show "client_inv linux_os ''ws'' ((demo_client [])\<lparr>cl_running := True, cl_receiver := Running R_Read\<rparr>)"
    using demo_inv [of linux_os "''ws''" "[]"] by (simp add: client_inv_def)
qed (simp add: close_stream_def replay_api_def)

text \<open>C14: With pinning on, the receiver asks the system for exactly one core: the configured one, or
  the last of the machine when the configured number is negative; it never shifts out of
  range or asks for several cores as long as that core fits the system's affinity mask. On
  Windows a configured core of 64 or more is an undefined shift.\<close>

theorem receiver_pinned_core:
  assumes "pin_receiver_thread cfg"
  shows "(sint (receiver_core_id cfg) < 0 \<and> unat (get_cpu_count os) \<le> max_cores os \<longrightarrow>
      (\<exists>calls. receiver_pin os tag cfg = Inr calls \<and>
        (\<Union>c \<in> set calls. requested_cores c) = {unat (get_cpu_count os) - 1})) \<and>
    (0 \<le> sint (receiver_core_id cfg) \<and> sint (receiver_core_id cfg) < int (max_cores os) \<longrightarrow>
      (\<exists>calls. receiver_pin os tag cfg = Inr calls \<and>
        (\<Union>c \<in> set calls. requested_cores c) = {nat (sint (receiver_core_id cfg))})) \<and>
    (os_platform os = Win32 \<and> 64 \<le> sint (receiver_core_id cfg) \<longrightarrow>
      receiver_pin os tag cfg = Inl UB_ShiftWidth)"
proof (intro conjI impI)
  assume a: "sint (receiver_core_id cfg) < 0 \<and> unat (get_cpu_count os) \<le> max_cores os"
  then obtain core where c: "receiver_core os cfg = Inr core" "sint core = int (unat (get_cpu_count os)) - 1"
    using receiver_core_auto by blast
  define n where "n = unat (get_cpu_count os)"
  have n: "0 < n" "n \<le> max_cores os" "sint core = int n - 1"
    using a c get_cpu_count_pos [of os] by (simp_all add: n_def)
  then have "0 \<le> sint core" and "sint core < int (max_cores os)" and "nat (sint core) = n - 1" by auto
  with receiver_pin_core [OF assms c(1), of tag]
  show "\<exists>calls. receiver_pin os tag cfg = Inr calls \<and>
      (\<Union>c \<in> set calls. requested_cores c) = {unat (get_cpu_count os) - 1}"
    by (simp flip: n_def)
next
  assume "0 \<le> sint (receiver_core_id cfg) \<and> sint (receiver_core_id cfg) < int (max_cores os)"
  with receiver_pin_core [OF assms, of os "receiver_core_id cfg" tag]
  show "\<exists>calls. receiver_pin os tag cfg = Inr calls \<and>
      (\<Union>c \<in> set calls. requested_cores c) = {nat (sint (receiver_core_id cfg))}"
    by (simp add: receiver_core_def Let_def)
next
  assume "os_platform os = Win32 \<and> 64 \<le> sint (receiver_core_id cfg)"
  with assms show "receiver_pin os tag cfg = Inl UB_ShiftWidth"
    by (simp add: receiver_pin_def receiver_core_def Let_def thread_pinner_new_def pin_thread_to_core_def)
qed

theorem receiver_pinned_core_witness:
  "\<exists>calls. receiver_pin linux_os ''ws''
      \<lparr>pin_receiver_thread = True, receiver_core_id = - 1, use_memory_pool = True\<rparr> = Inr calls \<and>
    (\<Union>c \<in> set calls. requested_cores c) = {7}"
  using receiver_pinned_core [of "\<lparr>pin_receiver_thread = True, receiver_core_id = - 1, use_memory_pool = True\<rparr>"
      linux_os "''ws''"]
  by (simp add: linux_os_def get_cpu_count_def max_cores_def)

end
