(* ===== verification/Connection_Frames.thy ===== *)
theory Connection_Frames
  imports Connection_Manager Client_Properties
begin

text \<open>
  What the operations of the connection manager change and what they leave alone, and what
  one connection attempt does when the server is out of reach and when it answers.
\<close>

text \<open>The events that are calls of the user's callbacks.\<close>

fun is_callback :: "cm_event \<Rightarrow> bool" where
  "is_callback (StateChange a b) = False"
| "is_callback (Printed x) = False"
| "is_callback _ = True"

section \<open>Invariants of runs\<close>

text \<open>What every step of some actions keeps, every interleaving of them keeps.\<close>

locale run_invariant =
  fixes env :: "'w cm_env" and acts :: "cm_action set" and I :: "main_pc \<Rightarrow> 'w conn_manager \<Rightarrow> bool"
  assumes step: "cm_step env a (m, cm) = Inr (m', cm') \<Longrightarrow> a \<in> acts \<Longrightarrow> I m cm \<Longrightarrow> I m' cm'"
begin

lemma run_keeps: "cm_run env as (m, cm) = Inr (m', cm') \<Longrightarrow> set as \<subseteq> acts \<Longrightarrow> I m cm \<Longrightarrow> I m' cm'"
proof (induction as arbitrary: m cm)
  case (Cons a as)
  from Cons.prems(1) obtain m1 cm1 where
    s: "cm_step env a (m, cm) = Inr (m1, cm1)" "cm_run env as (m1, cm1) = Inr (m', cm')" by (auto simp del: cm_step.simps)
  from step [OF s(1)] Cons.prems(2,3) Cons.IH [OF s(2)] show ?case by simp
qed simp

end

lemma on_thread_keeps:
  assumes "on_thread step put t cm = Inr cm'" and "P cm"
    and "\<And>pc pc' cm1. t = Running pc \<Longrightarrow> step pc cm = Inr (pc', cm1) \<Longrightarrow> P (put pc' cm1)"
  shows "P cm'"
  using assms by (cases t) (auto simp: on_thread_def)

section \<open>Frames\<close>

lemma log_event_frame: "\<exists>l. log_event ev cm = cm\<lparr>cm_log := l\<rparr>"
  by (auto simp: log_event_def)

lemma set_state_frame: "\<exists>l. set_state st cm = cm\<lparr>cm_state := st, cm_log := l\<rparr>"
proof (cases "cm_state cm = st")
  case True
  then have "set_state st cm = cm\<lparr>cm_state := st, cm_log := cm_log cm\<rparr>" by (simp add: set_state_def Let_def)
  then show ?thesis ..
qed (auto simp: set_state_def Let_def log_event_def)

lemma call_back_frame: "call_back cb ev cm = Inr cm' \<Longrightarrow> \<exists>l. cm' = cm\<lparr>cm_log := l\<rparr>"
  using log_event_frame [of ev cm] by (cases cb) (auto intro: exI [of _ "cm_log cm"])

lemma call_back_returns:
  assumes "\<forall>e. cb \<noteq> Throws e"
  shows "\<exists>l. call_back cb ev cm = Inr (cm\<lparr>cm_log := l\<rparr>)"
proof (cases cb)
  case Unset
  then have "call_back cb ev cm = Inr (cm\<lparr>cm_log := cm_log cm\<rparr>)" by simp
  then show ?thesis ..
next
  case Returns
  then show ?thesis using log_event_frame [of ev cm] by auto
qed (use assms in simp)

lemma client_reset_frame:
  assumes "client_reset env cm = Inr cm'"
  shows "\<exists>w. cm' = cm\<lparr>cm_client := None, cm_ioc := w\<rparr>"
proof (cases "cm_client cm")
  case None
  with assms have "cm' = cm\<lparr>cm_client := None, cm_ioc := cm_ioc cm\<rparr>" by (simp add: client_reset_def)
  then show ?thesis ..
qed (use assms in \<open>auto simp: client_reset_def split: option.splits\<close>)

lemma connect_failed_frame:
  assumes "connect_failed env e cm = Inr (ok, cm')"
  shows "\<not> ok" and "\<exists>w l. cm' = cm\<lparr>cm_client := None, cm_ioc := w, cm_log := l\<rparr>"
proof -
  from assms have ok: "\<not> ok" and
    r: "client_reset env (log_event (Printed (Cerr (''[conn] Connection failed: '' @ e @ nl))) cm) = Inr cm'"
    by (auto simp: connect_failed_def)
  from ok show "\<not> ok" .
  obtain l where l: "log_event (Printed (Cerr (''[conn] Connection failed: '' @ e @ nl))) cm = cm\<lparr>cm_log := l\<rparr>"
    using log_event_frame by blast
  from client_reset_frame [OF r [unfolded l]] obtain w where
    "cm' = cm\<lparr>cm_log := l\<rparr>\<lparr>cm_client := None, cm_ioc := w\<rparr>" ..
  then have "cm' = cm\<lparr>cm_client := None, cm_ioc := w, cm_log := l\<rparr>" by simp
  then show "\<exists>w l. cm' = cm\<lparr>cm_client := None, cm_ioc := w, cm_log := l\<rparr>" by blast
qed

text \<open>A connection attempt changes the client, the stream state and the log. A client it leaves
  behind was built with the default configuration; after success it is there and runs.\<close>

definition client_made :: "bool \<Rightarrow> 'w client option \<Rightarrow> bool" where
  "client_made ok c \<longleftrightarrow> (case c of None \<Rightarrow> \<not> ok
     | Some cl \<Rightarrow> ok \<and> cl_config cl = client_config_default \<and> is_running cl \<and>
         cl_receiver cl = Running R_Start \<and> cl_queue cl = spsc_new kQueueCapacity message_default)"

lemma after_connect_frame:
  assumes "after_connect env r cb cm = Inr (ok, cm')"
  shows "(ok \<and> r = Ret () \<and> (\<exists>l. cm' = cm\<lparr>cm_log := l\<rparr>)) \<or>
    (\<not> ok \<and> (\<exists>w l. cm' = cm\<lparr>cm_client := None, cm_ioc := w, cm_log := l\<rparr>))"
proof (cases r)
  case (Ret u)
  show ?thesis
  proof (cases cb)
    case Unset
    with Ret assms have "ok" and "cm' = cm\<lparr>cm_log := cm_log cm\<rparr>" by simp_all
    from this(2) have "\<exists>l. cm' = cm\<lparr>cm_log := l\<rparr>" ..
    with Ret \<open>ok\<close> show ?thesis by simp
  next
    case Returns
    with Ret assms log_event_frame [of OnConnect cm] show ?thesis by auto
  next
    case (Throws e)
    with Ret assms connect_failed_frame show ?thesis by simp blast
  qed
next
  case (Throw e)
  with assms connect_failed_frame show ?thesis by simp blast
qed (use assms in simp)

lemma try_connect_frame:
  assumes "try_connect env cm = Inr (ok, cm')"
  shows "\<exists>c w l. cm' = cm\<lparr>cm_client := c, cm_ioc := w, cm_log := l\<rparr> \<and> client_made ok c"
proof -
  from assms obtain cm1 where cm1: "client_reset env cm = Inr cm1" by (auto simp: try_connect_def)
  let ?cl = "client_new (env_api env) (cm_ioc cm1) (cc_host (cm_config cm1)) (cc_port (cm_config cm1))
    client_config_default"
  obtain r cl' where c: "ws_connect (env_api env) ?cl = (r, cl')" by (cases "ws_connect (env_api env) ?cl")
  have a: "after_connect env r (cm_on_connect cm1) (cm1\<lparr>cm_client := Some cl'\<rparr>) = Inr (ok, cm')"
    using assms cm1 c by (simp add: try_connect_def Let_def)
  from client_reset_frame [OF cm1] obtain w where w: "cm1 = cm\<lparr>cm_client := None, cm_ioc := w\<rparr>" ..
  have "cl_receiver ?cl = NoThread" "\<not> is_running ?cl" by (simp_all add: client_new_def is_running_def)
  from plain.fresh_contract [OF this, of "env_api env"] c have
    made: "r = Ret () \<Longrightarrow> is_running cl' \<and> cl_receiver cl' = Running R_Start \<and> cl_queue cl' = cl_queue ?cl"
    by (auto simp: connect_contract_def Let_def split: prod.splits)
  have cfg: "cl_config cl' = client_config_default"
    using plain.connect_keeps_config [of "env_api env" ?cl] c by (simp add: client_new_def)
  from after_connect_frame [OF a] show ?thesis
  proof
    assume ok: "ok \<and> r = Ret () \<and> (\<exists>l. cm' = cm1\<lparr>cm_client := Some cl'\<rparr>\<lparr>cm_log := l\<rparr>)"
    with made cfg have "client_made ok (Some cl')" by (simp add: client_made_def client_new_def)
    moreover from ok obtain l where "cm' = cm1\<lparr>cm_client := Some cl'\<rparr>\<lparr>cm_log := l\<rparr>" by blast
    with w have "cm' = cm\<lparr>cm_client := Some cl', cm_ioc := w, cm_log := l\<rparr>" by simp
    ultimately show ?thesis by blast
  next
    assume "\<not> ok \<and> (\<exists>w l. cm' = cm1\<lparr>cm_client := Some cl'\<rparr>\<lparr>cm_client := None, cm_ioc := w, cm_log := l\<rparr>)"
    with w have "client_made ok None" "\<exists>w l. cm' = cm\<lparr>cm_client := None, cm_ioc := w, cm_log := l\<rparr>"
      by (auto simp: client_made_def)
    then show ?thesis by blast
  qed
qed

section \<open>One attempt\<close>

definition failed_msg :: "string \<Rightarrow> cm_event" where
  "failed_msg e = Printed (Cerr (''[conn] Connection failed: '' @ e @ nl))"

text \<open>The server cannot be reached: some stage of connecting throws, from every stream state.\<close>

definition unreachable :: "'w beast_api \<Rightarrow> connection_config \<Rightarrow> bool" where
  "unreachable api config \<longleftrightarrow>
     (\<forall>w. \<exists>e w'. ws_establish api (cc_host config) (cc_port config) w = (Throw e, w'))"

text \<open>The server answers, and the receiver thread can be created.\<close>

definition reachable_server :: "'w beast_api \<Rightarrow> connection_config \<Rightarrow> 'w \<Rightarrow> bool" where
  "reachable_server api config w \<longleftrightarrow>
     (case ws_establish api (cc_host config) (cc_port config) (b_stream api w) of
        (Ret _, w') \<Rightarrow> fst (b_spawn api w') = Ret ()
      | _ \<Rightarrow> False)"

lemma client_destroy_no_thread:
  assumes "cl_receiver cl = NoThread"
  shows "\<exists>w. client_destroy n api os tag cl = Inr (Some w)"
proof -
  let ?c = "close_stream api tag cl"
  have "receiver_gone ?c" using assms by (simp add: receiver_gone_def client_simps)
  then have "receive_loop n api os tag ?c = Inr ?c" by (rule receive_loop_gone)
  moreover have "join_receiver ?c = Some ?c" using assms by (simp add: join_receiver.simps client_simps)
  ultimately show ?thesis
    using assms by (simp add: client_destroy_def client_close_def client_simps)
qed

lemma try_connect_unreachable:
  assumes "unreachable (env_api env) (cm_config cm)" and "cm_client cm = None"
  shows "\<exists>e w. try_connect env cm = Inr (False, cm\<lparr>cm_ioc := w, cm_log := cm_log cm @ [failed_msg e]\<rparr>)"
proof -
  let ?api = "env_api env"
  let ?cl = "client_new ?api (cm_ioc cm) (cc_host (cm_config cm)) (cc_port (cm_config cm)) client_config_default"
  from assms(1) obtain e w where
    est: "ws_establish ?api (cc_host (cm_config cm)) (cc_port (cm_config cm)) (cl_stream ?cl) = (Throw e, w)"
    unfolding unreachable_def by blast
  then have c: "ws_connect ?api ?cl = (Throw e, ?cl\<lparr>cl_stream := w\<rparr>)"
    by (simp add: ws_connect_def Let_def client_new_def)
  have "cl_receiver (?cl\<lparr>cl_stream := w\<rparr>) = NoThread" by (simp add: client_new_def)
  from client_destroy_no_thread [OF this] obtain w' where
    d: "client_destroy (env_steps env) ?api (env_os env) ''ws'' (?cl\<lparr>cl_stream := w\<rparr>) = Inr (Some w')" by blast
  have "try_connect env cm = connect_failed env e (cm\<lparr>cm_client := Some (?cl\<lparr>cl_stream := w\<rparr>)\<rparr>)"
    using assms(2) c by (simp add: try_connect_def client_reset_def Let_def)
  also have "\<dots> = Inr (False, cm\<lparr>cm_ioc := w', cm_log := cm_log cm @ [failed_msg e]\<rparr>)"
    using d assms(2) by (simp add: connect_failed_def client_reset_def log_event_def failed_msg_def)
  finally show ?thesis by blast
qed

lemma try_connect_reachable:
  assumes "reachable_server (env_api env) (cm_config cm) (cm_ioc cm)" and "cm_client cm = None"
    and "\<forall>e. cm_on_connect cm \<noteq> Throws e"
  shows "\<exists>cm'. try_connect env cm = Inr (True, cm')"
proof -
  let ?api = "env_api env"
  let ?cl = "client_new ?api (cm_ioc cm) (cc_host (cm_config cm)) (cc_port (cm_config cm)) client_config_default"
  have f: "cl_receiver ?cl = NoThread" "\<not> is_running ?cl" by (simp_all add: client_new_def is_running_def)
  have "fst (ws_connect ?api ?cl) = Ret ()"
    using plain.fresh_contract [OF f, of ?api] assms(1)
    by (auto simp: connect_contract_def Let_def reachable_server_def client_new_def
        split: prod.splits outcome.splits)
  then obtain cl' where "ws_connect ?api ?cl = (Ret (), cl')" by (metis prod.exhaust fst_conv)
  with assms(2,3) show ?thesis
    by (cases "cm_on_connect cm") (auto simp: try_connect_def client_reset_def Let_def)
qed

section \<open>The clients of the manager\<close>

lemma receive_step_config:
  assumes "receive_step api os tag cl = Inr cl'"
  shows "cl_config cl' = cl_config cl"
proof (cases "cl_receiver cl")
  case (Running pc)
  with assms show ?thesis
    by (cases pc) (auto simp: receive_step_def client_simps split: if_splits prod.splits option.splits)
qed (use assms in \<open>simp add: receive_step_def\<close>)

lemma receive_loop_config: "receive_loop n api os tag cl = Inr cl' \<Longrightarrow> cl_config cl' = cl_config cl"
  by (induction n arbitrary: cl) (auto dest: receive_step_config)

lemma client_close_config:
  assumes "client_close n api os tag cl = Inr (Some cl')"
  shows "cl_config cl' = cl_config cl"
  using assms by (auto simp: client_close_def client_simps dest!: receive_loop_config join_receiver_Some(2))

text \<open>Every client the manager holds was built with the default configuration.\<close>

definition default_client :: "'w client option \<Rightarrow> bool" where
  "default_client c \<longleftrightarrow> (\<forall>cl. c = Some cl \<longrightarrow> cl_config cl = client_config_default)"

lemma default_client_None [simp]: "default_client None"
  by (simp add: default_client_def)

lemma client_made_default: "client_made ok c \<Longrightarrow> default_client c"
  by (cases c) (auto simp: client_made_def default_client_def)

section \<open>The steps of the threads\<close>

lemma start_threads_simps:
  "cm_reconnect_thread (start_threads cm) = cm_reconnect_thread cm"
  "cm_client (start_threads cm) = cm_client cm" "cm_config (start_threads cm) = cm_config cm"
  "cm_should_run (start_threads cm) = cm_should_run cm" "cm_state (start_threads cm) = cm_state cm"
  "joinable (cm_monitor_thread cm) \<Longrightarrow> cm_monitor_thread (start_threads cm) = cm_monitor_thread cm"
  "joinable (cm_monitor_thread (start_threads cm))"
  "heartbeat_enabled (cm_config cm) \<Longrightarrow> joinable (cm_heartbeat_thread (start_threads cm))"
  "cm_reconnect_count (start_threads cm) = cm_reconnect_count cm"
  by (simp_all add: start_threads_def Let_def joinable_def)

lemma set_state_simps [simp]:
  "cm_state (set_state st cm) = st" "cm_client (set_state st cm) = cm_client cm"
  "cm_config (set_state st cm) = cm_config cm" "cm_should_run (set_state st cm) = cm_should_run cm"
  "cm_heartbeat_thread (set_state st cm) = cm_heartbeat_thread cm"
  "cm_monitor_thread (set_state st cm) = cm_monitor_thread cm"
  "cm_reconnect_thread (set_state st cm) = cm_reconnect_thread cm"
  "cm_reconnect_count (set_state st cm) = cm_reconnect_count cm"
  "cm_on_connect (set_state st cm) = cm_on_connect cm" "cm_ioc (set_state st cm) = cm_ioc cm"
  "cm_on_disconnect (set_state st cm) = cm_on_disconnect cm" "cm_on_reconnect (set_state st cm) = cm_on_reconnect cm"
  by (simp_all add: set_state_def Let_def log_event_def)

lemma log_event_simps [simp]:
  "cm_state (log_event ev cm) = cm_state cm" "cm_client (log_event ev cm) = cm_client cm"
  "cm_config (log_event ev cm) = cm_config cm" "cm_should_run (log_event ev cm) = cm_should_run cm"
  "cm_heartbeat_thread (log_event ev cm) = cm_heartbeat_thread cm"
  "cm_monitor_thread (log_event ev cm) = cm_monitor_thread cm"
  "cm_reconnect_thread (log_event ev cm) = cm_reconnect_thread cm"
  "cm_reconnect_count (log_event ev cm) = cm_reconnect_count cm"
  "cm_on_connect (log_event ev cm) = cm_on_connect cm" "cm_ioc (log_event ev cm) = cm_ioc cm"
  "cm_on_disconnect (log_event ev cm) = cm_on_disconnect cm" "cm_on_reconnect (log_event ev cm) = cm_on_reconnect cm"
  by (simp_all add: log_event_def)

text \<open>What a step of \<open>reconnect_loop\<close> keeps: it starts threads only as its last step, never the
  reconnect thread, and never a monitor beside one that is still joinable.\<close>

definition reconnect_keeps :: "reconnect_pc \<Rightarrow> 'w conn_manager \<Rightarrow> 'w conn_manager \<Rightarrow> bool" where
  "reconnect_keeps pc' cm cm' \<longleftrightarrow>
     cm_config cm' = cm_config cm \<and> cm_should_run cm' = cm_should_run cm \<and>
     cm_reconnect_thread cm' = cm_reconnect_thread cm \<and>
     (pc' \<noteq> RC_Done \<longrightarrow> cm_heartbeat_thread cm' = cm_heartbeat_thread cm \<and>
       cm_monitor_thread cm' = cm_monitor_thread cm) \<and>
     (joinable (cm_monitor_thread cm) \<longrightarrow> cm_monitor_thread cm' = cm_monitor_thread cm) \<and>
     (default_client (cm_client cm) \<longrightarrow> default_client (cm_client cm'))"

lemma reconnect_at_keeps:
  assumes "reconnect_at env pc cm = Inr (pc', cm')"
  shows "reconnect_keeps pc' cm cm'"
proof (cases pc)
  case (RC_Loop b)
  with assms show ?thesis
    by (auto simp: Let_def reconnect_keeps_def split: if_splits dest!: call_back_frame)
next
  case (RC_Awake b)
  with assms obtain ok cm1 where t: "try_connect env cm = Inr (ok, cm1)"
    and r: "(ok \<and> pc' = RC_Done \<and> cm' = start_threads ((set_state Connected
        (log_event (Printed (Cout (reconnected_msg (cm_reconnect_count cm1)))) cm1))\<lparr>cm_reconnect_count := 0\<rparr>)) \<or>
      (\<not> ok \<and> pc' \<noteq> RC_Done \<and> cm' = cm1)"
    by (auto split: if_splits)
  from try_connect_frame [OF t] obtain c w l where
    cm1: "cm1 = cm\<lparr>cm_client := c, cm_ioc := w, cm_log := l\<rparr>" "client_made ok c" by blast
  from r show ?thesis
    using cm1(1) client_made_default [OF cm1(2)]
    by (auto simp: reconnect_keeps_def start_threads_simps)
qed (use assms in \<open>simp add: reconnect_keeps_def\<close>)

definition monitor_keeps :: "'w conn_manager \<Rightarrow> 'w conn_manager \<Rightarrow> bool" where
  "monitor_keeps cm cm' \<longleftrightarrow> cm_config cm' = cm_config cm \<and> cm_should_run cm' = cm_should_run cm \<and>
     cm_reconnect_thread cm' = cm_reconnect_thread cm \<and>
     (default_client (cm_client cm) \<longrightarrow> default_client (cm_client cm'))"

lemma monitor_at_keeps:
  assumes "monitor_at env pc cm = Inr (pc', cm')"
  shows "monitor_keeps cm cm'"
proof (cases pc)
  case M_Awake
  with assms show ?thesis
    by (auto simp: monitor_keeps_def split: if_splits dest!: call_back_frame client_reset_frame)
next
  case (M_Reconnect rpc)
  with assms obtain rpc' where "reconnect_at env rpc cm = Inr (rpc', cm')" by auto
  then have "reconnect_keeps rpc' cm cm'" by (rule reconnect_at_keeps)
  then show ?thesis by (simp add: monitor_keeps_def reconnect_keeps_def)
qed (use assms in \<open>simp_all add: monitor_keeps_def\<close>)

definition heartbeat_keeps :: "'w conn_manager \<Rightarrow> 'w conn_manager \<Rightarrow> bool" where
  "heartbeat_keeps cm cm' \<longleftrightarrow> cm_config cm' = cm_config cm \<and> cm_should_run cm' = cm_should_run cm \<and>
     cm_state cm' = cm_state cm \<and> cm_reconnect_thread cm' = cm_reconnect_thread cm \<and>
     cm_monitor_thread cm' = cm_monitor_thread cm \<and>
     (default_client (cm_client cm) \<longrightarrow> default_client (cm_client cm')) \<and>
     filter is_callback (cm_log cm') = filter is_callback (cm_log cm)"

lemma ping_keeps:
  assumes "ping env r cm = Inr (pc', cm')"
  shows "heartbeat_keeps (cm\<lparr>cm_client := Some (snd r)\<rparr>) cm'"
  using assms by (cases "(env, r, cm)" rule: ping.cases) (auto simp: heartbeat_keeps_def log_event_def)

lemma heartbeat_at_keeps:
  assumes "heartbeat_at env pc cm = Inr (pc', cm')"
  shows "heartbeat_keeps cm cm'"
proof (cases "pc = H_Awake \<and> cm_should_run cm \<and> (\<exists>cl. cm_client cm = Some cl \<and> is_running cl)")
  case True
  then obtain cl where cl: "cm_client cm = Some cl" "is_running cl" by blast
  define r where "r = send_text (env_api env) ''__ping__'' cl"
  have cfg: "default_client (Some (snd r)) = default_client (cm_client cm)"
    using send_simps(2) [of "env_api env" "''__ping__''" cl]
    by (simp add: default_client_def r_def cl(1) del: send_simps)
  from cl True assms have "ping env r cm = Inr (pc', cm')" by (simp add: r_def)
  from ping_keeps [OF this] cl(1) cfg show ?thesis
    by (simp add: heartbeat_keeps_def)
next
  case False
  with assms have "cm' = cm" by (cases pc) (auto split: if_splits option.splits)
  then show ?thesis by (simp add: heartbeat_keeps_def)
qed

end
