(* ===== verification/Connection_Properties.thy ===== *)
theory Connection_Properties
  imports Connection_Frames
begin

text \<open>
  What the connection manager does: the backoff sequence and giving up, recovery, that its
  threads never reconnect at the same time, that stopping ends, and the cases where it does
  not do what it is meant to.
\<close>

section \<open>Backoff\<close>

text \<open>The delay before attempt \<open>k + 1\<close>, in milliseconds.\<close>

definition backoff_at :: "nat \<Rightarrow> nat" where
  "backoff_at k = min (100 * 2 ^ k) 30000"

lemma backoff_at_le: "backoff_at k \<le> 30000"
  by (simp add: backoff_at_def)

lemma unat_backoff [simp]: "unat (of_nat (backoff_at k) :: u32) = backoff_at k"
  using backoff_at_le [of k] by (simp add: unat_of_nat)

lemma min_of_nat_u32:
  assumes "a < 2 ^ 32" and "b < 2 ^ 32"
  shows "min (of_nat a :: u32) (of_nat b) = of_nat (min a b)"
  using assms by (auto simp: min_def word_le_nat_alt unat_of_nat)

definition default_backoff :: "connection_config \<Rightarrow> bool" where
  "default_backoff config \<longleftrightarrow> initial_backoff_ms config = 100 \<and> max_backoff_ms config = 30000 \<and>
     backoff_multiplier config = 2"

lemma next_backoff_default:
  assumes "default_backoff config"
  shows "next_backoff fl config (of_nat (backoff_at k)) = Inr (of_nat (backoff_at (Suc k)))"
proof -
  let ?d = "2 * backoff_at k"
  have small: "?d \<le> 60000" using backoff_at_le [of k] by simp
  have "fl (of_nat ?d) = of_nat ?d" using small by (intro ieee.rnd_nat) simp
  then have "fl (real (backoff_at k) * 2) = of_nat ?d" by (simp add: mult.commute)
  moreover have "to_u32 (of_nat ?d) = Inr (of_nat ?d)" using small by (intro to_u32_nat) simp
  moreover have "min (of_nat ?d :: u32) 30000 = of_nat (min ?d 30000)"
    using min_of_nat_u32 [of ?d 30000] small by simp
  moreover have "min ?d 30000 = backoff_at (Suc k)" by (auto simp: backoff_at_def min_def)
  ultimately show ?thesis
    using assms by (simp add: next_backoff_def default_backoff_def)
qed

section \<open>Giving up\<close>

definition called :: "'w conn_manager \<Rightarrow> cm_event list" where
  "called cm = filter is_callback (cm_log cm)"

definition attempt :: "nat \<Rightarrow> cm_event" where
  "attempt i = OnReconnect (of_nat (Suc i)) (of_nat (backoff_at i))"

lemma called_simps [simp]:
  "called (log_event ev cm) = called cm @ (if is_callback ev then [ev] else [])"
  "called (set_state st cm) = called cm"
  "called (cm\<lparr>cm_reconnect_count := n\<rparr>) = called cm"
  "called (cm\<lparr>cm_ioc := w, cm_log := cm_log cm @ [failed_msg e]\<rparr>) = called cm"
  by (simp_all add: called_def log_event_def set_state_def Let_def failed_msg_def)

lemma i32_result_nat: "n < 2 ^ 31 \<Longrightarrow> i32_result (int n) = Inr (of_nat n)"
  by (simp add: i32_result_def)

definition retrying :: "'w cm_env \<Rightarrow> nat \<Rightarrow> nat \<Rightarrow> 'w conn_manager \<Rightarrow> bool" where
  "retrying env tries k cm \<longleftrightarrow> unreachable (env_api env) (cm_config cm) \<and> env_rnd env = fl \<and>
     default_backoff (cm_config cm) \<and> sint (max_reconnect_tries (cm_config cm)) = int tries \<and>
     0 < tries \<and> k \<le> tries \<and> tries < 2 ^ 31 - 1 \<and> cm_should_run cm \<and> cm_client cm = None \<and>
     cm_reconnect_count cm = of_nat k \<and> cm_on_reconnect cm = Returns \<and> cm_on_disconnect cm = Returns"

lemma retryingD:
  assumes "retrying env tries k cm"
  shows "unreachable (env_api env) (cm_config cm)" "cm_client cm = None" "env_rnd env = fl"
    "default_backoff (cm_config cm)"
  using assms by (simp_all add: retrying_def)

lemma retry_count:
  assumes "retrying env tries k cm"
  shows "i32_result (sint (cm_reconnect_count cm) + 1) = Inr (of_nat (Suc k))"
    and "sint (of_nat (Suc k) :: i32) = int (Suc k)"
proof -
  have k: "sint (cm_reconnect_count cm) + 1 = int (Suc k)" "Suc k < 2 ^ 31"
    using assms by (simp_all add: retrying_def sint_of_nat_i32)
  show "i32_result (sint (cm_reconnect_count cm) + 1) = Inr (of_nat (Suc k))"
    unfolding k(1) by (rule i32_result_nat) (rule k(2))
  show "sint (of_nat (Suc k) :: i32) = int (Suc k)" using k(2) by (rule sint_of_nat_i32)
qed

text \<open>The two halves of a failing round, and the last round.\<close>

lemma retry_begin:
  assumes r: "retrying env tries k cm" and less: "k < tries"
  shows "\<exists>l. reconnect_at env (RC_Loop b) cm =
      Inr (RC_Awake b, cm\<lparr>cm_reconnect_count := of_nat (Suc k), cm_log := l\<rparr>) \<and>
    filter is_callback l = called cm @ [OnReconnect (of_nat (Suc k)) b]"
proof -
  have cc: "cm_reconnect_count cm = of_nat k" using r by (simp add: retrying_def)
  have cmp: "\<not> sint (max_reconnect_tries (cm_config cm)) < sint (of_nat (Suc k) :: i32)"
    using r less retry_count(2) [OF r] by (simp add: retrying_def del: of_nat_Suc)
  let ?l = "cm_log cm @ [Printed (Cout (attempt_msg (of_nat (Suc k)) b)), OnReconnect (of_nat (Suc k)) b]"
  have "reconnect_at env (RC_Loop b) cm = Inr (RC_Awake b, cm\<lparr>cm_reconnect_count := of_nat (Suc k), cm_log := ?l\<rparr>)"
    using r cmp retry_count(1) [OF r] by (simp add: cc retrying_def Let_def log_event_def del: of_nat_Suc)
  moreover have "filter is_callback ?l = called cm @ [OnReconnect (of_nat (Suc k)) b]" by (simp add: called_def)
  ultimately show ?thesis by blast
qed

lemma retry_fail:
  assumes r: "unreachable (env_api env) (cm_config cm)" "cm_client cm = None" "env_rnd env = fl"
    "default_backoff (cm_config cm)"
  shows "\<exists>w l. reconnect_at env (RC_Awake (of_nat (backoff_at k))) cm =
      Inr (RC_Loop (of_nat (backoff_at (Suc k))), cm\<lparr>cm_ioc := w, cm_log := l\<rparr>) \<and>
    filter is_callback l = called cm"
proof -
  from try_connect_unreachable [OF r(1,2)] obtain e w where
    "try_connect env cm = Inr (False, cm\<lparr>cm_ioc := w, cm_log := cm_log cm @ [failed_msg e]\<rparr>)" by blast
  with r next_backoff_default [of "cm_config cm" k] have
    "reconnect_at env (RC_Awake (of_nat (backoff_at k))) cm = Inr (RC_Loop (of_nat (backoff_at (Suc k))),
      cm\<lparr>cm_ioc := w, cm_log := cm_log cm @ [failed_msg e]\<rparr>)"
    by simp
  moreover have "filter is_callback (cm_log cm @ [failed_msg e]) = called cm" by (simp add: called_def failed_msg_def)
  ultimately show ?thesis by blast
qed

lemma retry_stop:
  assumes r: "retrying env tries tries cm"
  shows "\<exists>l. reconnect_at env (RC_Loop b) cm =
      Inr (RC_Done, cm\<lparr>cm_reconnect_count := of_nat (Suc tries), cm_state := Disconnected, cm_log := l\<rparr>) \<and>
    filter is_callback l = called cm @ [OnDisconnect ''max retries exceeded'']"
proof -
  have cc: "cm_reconnect_count cm = of_nat tries" using r by (simp add: retrying_def)
  have cmp: "0 < sint (max_reconnect_tries (cm_config cm))"
    "sint (max_reconnect_tries (cm_config cm)) < sint (of_nat (Suc tries) :: i32)"
    using r retry_count(2) [OF r] by (simp_all add: retrying_def del: of_nat_Suc)
  let ?c = "set_state Disconnected (log_event (Printed (Cerr (max_tries_msg (cm_config cm))))
    (cm\<lparr>cm_reconnect_count := of_nat (Suc tries)\<rparr>))"
  let ?l = "cm_log ?c @ [OnDisconnect ''max retries exceeded'']"
  have eq: "log_event (OnDisconnect ''max retries exceeded'') ?c =
      cm\<lparr>cm_reconnect_count := of_nat (Suc tries), cm_state := Disconnected, cm_log := ?l\<rparr>"
    by (cases cm) (simp add: log_event_def set_state_def Let_def)
  have "reconnect_at env (RC_Loop b) cm = Inr (RC_Done, log_event (OnDisconnect ''max retries exceeded'') ?c)"
    using r cmp retry_count(1) [OF r] by (simp add: cc retrying_def Let_def del: of_nat_Suc)
  moreover have "filter is_callback ?l = called cm @ [OnDisconnect ''max retries exceeded'']"
    by (simp add: called_def [symmetric])
  ultimately show ?thesis unfolding eq by blast
qed

lemma retry_once:
  assumes r: "retrying env tries k cm" and less: "k < tries"
  shows "\<exists>cm'. reconnect_loop 2 env (RC_Loop (of_nat (backoff_at k))) cm =
      Inr (RC_Loop (of_nat (backoff_at (Suc k))), cm') \<and> retrying env tries (Suc k) cm' \<and>
    called cm' = called cm @ [attempt k]"
proof -
  from retry_begin [OF r less] obtain l where
    s1: "reconnect_at env (RC_Loop (of_nat (backoff_at k))) cm =
      Inr (RC_Awake (of_nat (backoff_at k)), cm\<lparr>cm_reconnect_count := of_nat (Suc k), cm_log := l\<rparr>)"
    and l: "filter is_callback l = called cm @ [attempt k]" unfolding attempt_def by blast
  let ?c1 = "cm\<lparr>cm_reconnect_count := of_nat (Suc k), cm_log := l\<rparr>"
  have r1: "retrying env tries (Suc k) ?c1" using r less by (simp add: retrying_def del: of_nat_Suc)
  from retry_fail [OF retryingD [OF r1], of k] obtain w l' where
    s2: "reconnect_at env (RC_Awake (of_nat (backoff_at k))) ?c1 =
      Inr (RC_Loop (of_nat (backoff_at (Suc k))), ?c1\<lparr>cm_ioc := w, cm_log := l'\<rparr>)"
    and l': "filter is_callback l' = called ?c1" by blast
  have "reconnect_loop 2 env (RC_Loop (of_nat (backoff_at k))) cm =
      Inr (RC_Loop (of_nat (backoff_at (Suc k))), ?c1\<lparr>cm_ioc := w, cm_log := l'\<rparr>)"
    unfolding numeral_2_eq_2 by (simp add: s1 s2 del: reconnect_at.simps of_nat_Suc)
  moreover have "retrying env tries (Suc k) (?c1\<lparr>cm_ioc := w, cm_log := l'\<rparr>)"
    using r1 by (simp add: retrying_def del: of_nat_Suc)
  moreover have "called (?c1\<lparr>cm_ioc := w, cm_log := l'\<rparr>) = called cm @ [attempt k]"
    using l l' by (simp add: called_def)
  ultimately show ?thesis by blast
qed

lemma reconnect_loop_add:
  "reconnect_loop (m + n) env pc cm =
     bind_result (reconnect_loop m env pc cm) (\<lambda>(pc', cm'). reconnect_loop n env pc' cm')"
proof (induction m arbitrary: pc cm)
  case (Suc m)
  then show ?case by (cases "reconnect_at env pc cm") (auto split: prod.splits)
qed simp

lemma give_up_now:
  assumes r: "retrying env tries tries cm"
  shows "\<exists>cm'. reconnect_loop 1 env (RC_Loop b) cm = Inr (RC_Done, cm') \<and> cm_state cm' = Disconnected \<and>
    cm_client cm' = None \<and> called cm' = called cm @ [OnDisconnect ''max retries exceeded'']"
proof -
  from retry_stop [OF r, of b] obtain l where
    s: "reconnect_at env (RC_Loop b) cm =
      Inr (RC_Done, cm\<lparr>cm_reconnect_count := of_nat (Suc tries), cm_state := Disconnected, cm_log := l\<rparr>)"
    "filter is_callback l = called cm @ [OnDisconnect ''max retries exceeded'']" by blast
  then show ?thesis using r by (simp add: retrying_def called_def del: reconnect_at.simps of_nat_Suc)
qed

lemma give_up_from:
  assumes "retrying env tries k cm"
  shows "\<exists>cm'. reconnect_loop (2 * (tries - k) + 1) env (RC_Loop (of_nat (backoff_at k))) cm = Inr (RC_Done, cm') \<and>
    cm_state cm' = Disconnected \<and> cm_client cm' = None \<and>
    called cm' = called cm @ map attempt [k..<tries] @ [OnDisconnect ''max retries exceeded'']"
  using assms
proof (induction "tries - k" arbitrary: k cm)
  case 0
  then have "k = tries" by (simp add: retrying_def)
  with give_up_now [of env tries cm "of_nat (backoff_at k)"] 0 show ?case
    by (simp del: reconnect_loop.simps One_nat_def)
next
  case (Suc d)
  then have less: "k < tries" by simp
  from retry_once [OF Suc.prems less] obtain cm1 where
    s: "reconnect_loop 2 env (RC_Loop (of_nat (backoff_at k))) cm = Inr (RC_Loop (of_nat (backoff_at (Suc k))), cm1)"
    and r: "retrying env tries (Suc k) cm1" and c: "called cm1 = called cm @ [attempt k]" by blast
  have "d = tries - Suc k" using Suc.hyps(2) by simp
  from Suc.hyps(1) [OF this r] obtain cm2 where
    e: "reconnect_loop (2 * (tries - Suc k) + 1) env (RC_Loop (of_nat (backoff_at (Suc k)))) cm1 = Inr (RC_Done, cm2)"
      "cm_state cm2 = Disconnected" "cm_client cm2 = None"
      "called cm2 = called cm1 @ map attempt [Suc k..<tries] @ [OnDisconnect ''max retries exceeded'']" by blast
  have "2 * (tries - k) + 1 = 2 + (2 * (tries - Suc k) + 1)" using less by simp
  then have "reconnect_loop (2 * (tries - k) + 1) env (RC_Loop (of_nat (backoff_at k))) cm = Inr (RC_Done, cm2)"
    using s e(1) by (simp only: reconnect_loop_add) simp
  moreover have "called cm2 = called cm @ map attempt [k..<tries] @ [OnDisconnect ''max retries exceeded'']"
    using c e(4) less by (simp add: upt_conv_Cons)
  ultimately show ?case using e(2,3) by blast
qed

section \<open>Who reconnects\<close>

fun rc_active :: "reconnect_pc thread \<Rightarrow> bool" where
  "rc_active NoThread = False"
| "rc_active (Running pc) = (pc \<noteq> RC_Done)"

definition cm_inv :: "'w conn_manager \<Rightarrow> bool" where
  "cm_inv cm \<longleftrightarrow>
     (rc_active (cm_reconnect_thread cm) \<longrightarrow> cm_monitor_thread cm = NoThread \<and> cm_heartbeat_thread cm = NoThread) \<and>
     default_client (cm_client cm)"

lemma stop_at_inv: "cm_inv cm \<Longrightarrow> cm_inv (snd (stop_at m cm))"
  by (cases m) (auto simp: cm_inv_def)

lemma stop_begin_inv:
  assumes "stop_begin env cm = Inr (m', cm')" and "cm_inv cm"
  shows "cm_inv cm'"
  using assms
  by (auto simp: stop_begin_def Let_def cm_inv_def default_client_def
      split: if_splits option.splits dest!: client_close_config)

lemma recv_action_inv:
  assumes "recv_action env cm = Inr cm'" and "cm_inv cm"
  shows "cm_inv cm'"
  using assms
  by (auto simp: recv_action_def cm_inv_def default_client_def split: option.splits dest!: receive_step_config)

text \<open>A monitor or a heartbeat that exists shows that the reconnect thread is not active.\<close>

lemma monitor_at_inv:
  assumes "cm_monitor_thread cm = Running pc" and "cm_inv cm" and "monitor_at env pc cm = Inr (pc', cm')"
  shows "cm_inv (cm'\<lparr>cm_monitor_thread := Running pc'\<rparr>)"
proof -
  from assms(1,2) have "\<not> rc_active (cm_reconnect_thread cm)" by (auto simp: cm_inv_def)
  with monitor_at_keeps [OF assms(3)] assms(2) show ?thesis by (simp add: cm_inv_def monitor_keeps_def)
qed

lemma heartbeat_at_inv:
  assumes "cm_heartbeat_thread cm = Running pc" and "cm_inv cm" and "heartbeat_at env pc cm = Inr (pc', cm')"
  shows "cm_inv (cm'\<lparr>cm_heartbeat_thread := Running pc'\<rparr>)"
proof -
  from assms(1,2) have "\<not> rc_active (cm_reconnect_thread cm)" by (auto simp: cm_inv_def)
  with heartbeat_at_keeps [OF assms(3)] assms(2) show ?thesis by (simp add: cm_inv_def heartbeat_keeps_def)
qed

lemma reconnect_at_inv:
  assumes "cm_reconnect_thread cm = Running pc" and "cm_inv cm" and "reconnect_at env pc cm = Inr (pc', cm')"
  shows "cm_inv (cm'\<lparr>cm_reconnect_thread := Running pc'\<rparr>)"
proof -
  from assms(3) have "pc' \<noteq> RC_Done \<Longrightarrow> pc \<noteq> RC_Done" by (cases pc) auto
  with assms(1,2) reconnect_at_keeps [OF assms(3)] show ?thesis
    by (cases "pc' = RC_Done") (auto simp: cm_inv_def reconnect_keeps_def)
qed

lemma cm_step_inv:
  assumes "cm_step env a (m, cm) = Inr (m', cm')" and "a \<noteq> Start" and "cm_inv cm"
  shows "cm_inv cm'"
proof (cases a)
  case Stop
  with assms stop_begin_inv [of env cm m' cm'] show ?thesis by (auto split: if_splits)
next
  case StopJoin
  with assms stop_at_inv [of cm m] show ?thesis by auto
next
  case Destroy
  with assms show ?thesis
    by (auto simp: destroy_members_def cm_inv_def split: if_splits dest!: client_reset_frame)
next
  case Receiver
  with assms recv_action_inv [of env cm cm'] show ?thesis by auto
next
  case Mon
  with assms(1) show ?thesis by (auto elim: on_thread_keeps [where P = cm_inv, OF _ assms(3)] monitor_at_inv [OF _ assms(3)])
next
  case Hb
  with assms(1) show ?thesis by (auto elim: on_thread_keeps [where P = cm_inv, OF _ assms(3)] heartbeat_at_inv [OF _ assms(3)])
next
  case Rc
  with assms(1) show ?thesis by (auto elim: on_thread_keeps [where P = cm_inv, OF _ assms(3)] reconnect_at_inv [OF _ assms(3)])
qed (use assms in simp)

interpretation solo: run_invariant env "- {Start}" "\<lambda>_. cm_inv" for env
  by unfold_locales (auto intro: cm_step_inv)

lemma cm_run_inv: "cm_run env as (m, cm) = Inr (m', cm') \<Longrightarrow> Start \<notin> set as \<Longrightarrow> cm_inv cm \<Longrightarrow> cm_inv cm'"
  using solo.run_keeps by blast

lemma cm_start_inv:
  assumes "cm_start env cm = Inr cm'" and "cm_monitor_thread cm = NoThread"
    and "cm_heartbeat_thread cm = NoThread" and "cm_reconnect_thread cm = NoThread"
  shows "cm_inv cm'"
proof -
  from assms(1) obtain ok cm1 where
    t: "try_connect env (set_state Connecting (cm\<lparr>cm_should_run := True\<rparr>)) = Inr (ok, cm1)"
    by (auto simp: cm_start_def split: prod.splits)
  from try_connect_frame [OF t] obtain c w l where
    c: "cm1 = (set_state Connecting (cm\<lparr>cm_should_run := True\<rparr>))\<lparr>cm_client := c, cm_ioc := w, cm_log := l\<rparr>"
      "client_made ok c" by blast
  from assms t c client_made_default [OF c(2)] show ?thesis
    by (auto simp: cm_start_def cm_inv_def start_monitoring_def thread_assign_def Let_def split: if_splits)
qed

section \<open>After the monitor has left its loop\<close>

definition unwatched :: "'w conn_manager \<Rightarrow> bool" where
  "unwatched cm \<longleftrightarrow> cm_monitor_thread cm = Running M_Done \<and> \<not> rc_active (cm_reconnect_thread cm)"

lemma unwatched_step:
  assumes "cm_step env a (m, cm) = Inr (m', cm')" and "a \<in> {Mon, Hb, Rc, Receiver}" and "unwatched cm"
  shows "unwatched cm'" and "cm_state cm' = cm_state cm" and "called cm' = called cm"
proof -
  have "unwatched cm' \<and> cm_state cm' = cm_state cm \<and> called cm' = called cm"
  proof (cases "a = Hb")
    case True
    show ?thesis
    proof (cases "cm_heartbeat_thread cm")
      case (Running pc)
      with True assms obtain pc' cm1 where
        r: "heartbeat_at env pc cm = Inr (pc', cm1)" "cm' = cm1\<lparr>cm_heartbeat_thread := Running pc'\<rparr>"
        by (auto simp: on_thread_def split: prod.splits)
      with heartbeat_at_keeps [OF r(1)] assms(3) show ?thesis
        by (simp add: unwatched_def heartbeat_keeps_def called_def)
    qed (use True assms in \<open>simp add: on_thread_def\<close>)
  next
    case False
    with assms show ?thesis
      by (cases "cm_reconnect_thread cm")
        (auto simp: unwatched_def on_thread_def recv_action_def called_def split: option.splits)
  qed
  then show "unwatched cm'" and "cm_state cm' = cm_state cm" and "called cm' = called cm" by blast+
qed

interpretation blind: run_invariant env "{Mon, Hb, Rc, Receiver}"
  "\<lambda>_ cm. unwatched cm \<and> cm_state cm = st \<and> called cm = cs" for env st cs
  by unfold_locales (metis unwatched_step)

lemma unwatched_run:
  "cm_run env as (m, cm) = Inr (m', cm') \<Longrightarrow> set as \<subseteq> {Mon, Hb, Rc, Receiver} \<Longrightarrow> unwatched cm \<Longrightarrow>
   unwatched cm' \<and> cm_state cm' = cm_state cm \<and> called cm' = called cm"
  using blind.run_keeps by blast

lemma monitor_reconnected:
  assumes "cm_monitor_thread cm = Running (M_Reconnect (RC_Awake b))" and "\<not> rc_active (cm_reconnect_thread cm)"
    and t: "try_connect env cm = Inr (True, cm1)"
  shows "\<exists>cm2. cm_step env Mon (m, cm) = Inr (m, cm2) \<and> unwatched cm2 \<and> cm_state cm2 = Connected \<and>
    called cm2 = called cm1"
proof -
  from try_connect_frame [OF t] obtain c w l where "cm1 = cm\<lparr>cm_client := c, cm_ioc := w, cm_log := l\<rparr>" by blast
  with assms show ?thesis
    by (auto simp: on_thread_def unwatched_def start_threads_simps called_def start_threads_def Let_def
        log_event_def set_state_def)
qed

section \<open>Stopping\<close>

fun mon_idle :: "monitor_pc thread \<Rightarrow> bool" where
  "mon_idle (Running (M_Reconnect pc)) = False"
| "mon_idle _ = True"

definition closable :: "'w cm_env \<Rightarrow> 'w client option \<Rightarrow> bool" where
  "closable env c \<longleftrightarrow> (\<forall>cl. c = Some cl \<longrightarrow> client_inv (env_os env) ''ws'' cl \<and>
     (\<exists>n. env_steps env = n + 4 \<and> read_returns (env_api env) n (cl_stream (close_stream (env_api env) ''ws'' cl))))"

lemma client_close_joins:
  assumes "client_inv os tag cl" and "read_returns api n (cl_stream (close_stream api tag cl))"
  shows "\<exists>cl'. client_close (n + 4) api os tag cl = Inr (Some cl') \<and> cl_receiver cl' = NoThread"
proof -
  have "winds_down (n + 4) api os tag (close_stream api tag cl)"
    using assms by (intro winds_down_any) (auto simp: client_simps client_inv_def)
  then obtain cl1 where "receive_loop (n + 4) api os tag (close_stream api tag cl) = Inr cl1" "receiver_gone cl1"
    by (auto simp: winds_down_def)
  then show ?thesis by (auto simp: client_close_def receiver_gone_def join_receiver.simps)
qed

lemma stop_begin_closable:
  assumes "cm_should_run cm" and "closable env (cm_client cm)"
  shows "\<exists>cm'. stop_begin env cm = Inr (Join_Heartbeat, cm') \<and> \<not> cm_should_run cm' \<and>
    cm_heartbeat_thread cm' = cm_heartbeat_thread cm \<and> cm_monitor_thread cm' = cm_monitor_thread cm \<and>
    cm_reconnect_thread cm' = cm_reconnect_thread cm \<and>
    (\<forall>cl. cm_client cm' = Some cl \<longrightarrow> cl_receiver cl = NoThread)"
proof (cases "cm_client cm")
  case (Some cl)
  with assms(2) obtain n where "client_inv (env_os env) ''ws'' cl" "env_steps env = n + 4"
    "read_returns (env_api env) n (cl_stream (close_stream (env_api env) ''ws'' cl))"
    by (auto simp: closable_def)
  with client_close_joins [of "env_os env" "''ws''" cl "env_api env" n] obtain cl' where
    "client_close (env_steps env) (env_api env) (env_os env) ''ws'' cl = Inr (Some cl')" "cl_receiver cl' = NoThread"
    by auto
  with Some assms(1) show ?thesis by (simp add: stop_begin_def Let_def)
qed (use assms in \<open>simp add: stop_begin_def Let_def\<close>)

lemma destroy_after_stop:
  assumes "cm_heartbeat_thread cm = NoThread" and "cm_monitor_thread cm = NoThread"
    and "cm_reconnect_thread cm = NoThread" and "\<forall>cl. cm_client cm = Some cl \<longrightarrow> cl_receiver cl = NoThread"
  shows "\<exists>cm'. destroy_members env cm = Inr cm' \<and> cm_state cm' = cm_state cm"
proof (cases "cm_client cm")
  case (Some cl)
  with assms(4) client_destroy_no_thread [of cl "env_steps env" "env_api env" "env_os env" "''ws''"]
  obtain w where "client_destroy (env_steps env) (env_api env) (env_os env) ''ws'' cl = Inr (Some w)" by blast
  with Some assms show ?thesis by (simp add: destroy_members_def client_reset_def)
qed (use assms in \<open>simp add: destroy_members_def client_reset_def\<close>)

text \<open>Once \<open>should_run_\<close> is down, the loops leave at their next step.\<close>

lemma hb_leaves:
  assumes "\<not> cm_should_run cm"
  shows "\<exists>t. cm_step env Hb (m, cm) = Inr (m, cm\<lparr>cm_heartbeat_thread := t\<rparr>) \<and> t \<in> {NoThread, Running H_Done}"
proof (cases "cm_heartbeat_thread cm")
  case NoThread
  then have "cm_step env Hb (m, cm) = Inr (m, cm\<lparr>cm_heartbeat_thread := NoThread\<rparr>)" by (simp add: on_thread_def)
  then show ?thesis by blast
next
  case (Running pc)
  with assms have "cm_step env Hb (m, cm) = Inr (m, cm\<lparr>cm_heartbeat_thread := Running H_Done\<rparr>)"
    by (cases pc) (simp_all add: on_thread_def)
  then show ?thesis by blast
qed

lemma mon_leaves:
  assumes "\<not> cm_should_run cm" and "mon_idle (cm_monitor_thread cm)"
  shows "\<exists>t. cm_step env Mon (m, cm) = Inr (m, cm\<lparr>cm_monitor_thread := t\<rparr>) \<and> t \<in> {NoThread, Running M_Done}"
proof (cases "cm_monitor_thread cm")
  case NoThread
  then have "cm_step env Mon (m, cm) = Inr (m, cm\<lparr>cm_monitor_thread := NoThread\<rparr>)" by (simp add: on_thread_def)
  then show ?thesis by blast
next
  case (Running pc)
  with assms have "cm_step env Mon (m, cm) = Inr (m, cm\<lparr>cm_monitor_thread := Running M_Done\<rparr>)"
    by (cases pc) (simp_all add: on_thread_def)
  then show ?thesis by blast
qed

end
