(* ===== verification/Connection_Theorems.thy ===== *)
theory Connection_Theorems
  imports Connection_Properties
begin

text \<open>
  The properties of the connection manager, with a small network for the examples: the list of
  what the next connection attempts meet, and connections the server closes at once.
\<close>

section \<open>A network for the examples\<close>

definition flaky_api :: "bool list beast_api" where
  "flaky_api =
    \<lparr>b_stream = (\<lambda>w. w),
     b_resolve = (\<lambda>h p w. case w of True # r \<Rightarrow> (Ret [(h, 80)], r)
       | False # r \<Rightarrow> (Throw ''Host not found'', r) | [] \<Rightarrow> (Throw ''Host not found'', [])),
     b_connect = (\<lambda>eps w. (Ret (hd eps), w)),
     b_set_option = (\<lambda>opt w. (Ret (), w)), b_set_sni = (\<lambda>h w. (True, w)), b_ssl_error = (\<lambda>w. ('''', w)),
     b_tls_handshake = (\<lambda>w. (Ret (), w)), b_handshake = (\<lambda>h t w. (Ret (), w)),
     b_spawn = (\<lambda>w. (Ret (), w)), b_text = (\<lambda>on w. w), b_binary = (\<lambda>on w. w),
     b_write = (\<lambda>d w. (Ret (), w)), b_is_open = (\<lambda>w. True), b_close = (\<lambda>w. (None, w)),
     b_read = (\<lambda>w. (Some ReadClosed, w)),
     b_got_text = (\<lambda>w. True), b_moved = (\<lambda>m. m\<lparr>payload := ''''\<rparr>)\<rparr>"

definition down_api :: "unit beast_api" where
  "down_api =
    \<lparr>b_stream = (\<lambda>w. w), b_resolve = (\<lambda>h p w. (Throw ''Host not found'', w)),
     b_connect = (\<lambda>eps w. (Ret (hd eps), w)),
     b_set_option = (\<lambda>opt w. (Ret (), w)), b_set_sni = (\<lambda>h w. (True, w)), b_ssl_error = (\<lambda>w. ('''', w)),
     b_tls_handshake = (\<lambda>w. (Ret (), w)), b_handshake = (\<lambda>h t w. (Ret (), w)),
     b_spawn = (\<lambda>w. (Ret (), w)), b_text = (\<lambda>on w. w), b_binary = (\<lambda>on w. w),
     b_write = (\<lambda>d w. (Ret (), w)), b_is_open = (\<lambda>w. False), b_close = (\<lambda>w. (None, w)),
     b_read = (\<lambda>w. (Some ReadClosed, w)),
     b_got_text = (\<lambda>w. True), b_moved = (\<lambda>m. m)\<rparr>"

definition demo_env :: "'w beast_api \<Rightarrow> 'w cm_env" where
  "demo_env api = \<lparr>env_api = api, env_os = linux_os, env_rnd = fl, env_steps = 4\<rparr>"

definition demo_config :: connection_config where
  "demo_config = connection_config_default\<lparr>cc_host := ''localhost'', cc_port := ''8765''\<rparr>"

lemma demo_config_simps [simp]:
  "cc_host demo_config = ''localhost''" "cc_port demo_config = ''8765''" "auto_reconnect demo_config"
  "max_reconnect_tries demo_config = 10" "initial_backoff_ms demo_config = 100" "heartbeat_enabled demo_config"
  "default_backoff demo_config"
  by (simp_all add: demo_config_def connection_config_default_def default_backoff_def)

lemma demo_env_simps [simp]:
  "env_api (demo_env api) = api" "env_os (demo_env api) = linux_os" "env_rnd (demo_env api) = fl"
  "env_steps (demo_env api) = 4"
  by (simp_all add: demo_env_def)

lemma flaky_establish:
  "ws_establish flaky_api h p (True # w) = (Ret (), w)"
  "ws_establish flaky_api h p (False # w) = (Throw ''Host not found'', w)"
  by (simp_all add: ws_establish_def bind_io_def flaky_api_def)

lemma flaky_simps [simp]:
  "b_stream flaky_api w = w" "b_spawn flaky_api w = (Ret (), w)" "b_is_open flaky_api w" "b_close flaky_api w = (None, w)"
  "b_read flaky_api w = (Some ReadClosed, w)"
  by (simp_all add: flaky_api_def)

text \<open>A successful start on the example network.\<close>

lemma flaky_connect:
  "ws_connect flaky_api (client_new flaky_api (True # w) h p cfg) =
     (Ret (), (client_new flaky_api (True # w) h p cfg)\<lparr>cl_stream := w, cl_running := True,
       cl_receiver := Running R_Start, cl_out := [Cout (logline ''ws'' (''Connected to '' @ h @ '':'' @ p))]\<rparr>)"
  by (simp add: ws_connect_def client_new_def flaky_establish start_receiver_def cl_print_def)

lemma flaky_try_connect:
  assumes "cm_client cm = None" and "cm_ioc cm = True # w" and "cm_on_connect cm = Unset"
  shows "\<exists>cl. try_connect (demo_env flaky_api) cm = Inr (True, cm\<lparr>cm_client := Some cl\<rparr>) \<and>
    cl_stream cl = w \<and> cl_running cl \<and> cl_receiver cl = Running R_Start \<and> cl_config cl = client_config_default \<and>
    cl_queue cl = spsc_new kQueueCapacity message_default"
proof -
  let ?new = "client_new flaky_api (True # w) (cc_host (cm_config cm)) (cc_port (cm_config cm)) client_config_default"
  let ?cl = "snd (ws_connect flaky_api ?new)"
  have "try_connect (demo_env flaky_api) cm = Inr (True, cm\<lparr>cm_client := Some ?cl\<rparr>)"
    using assms by (simp add: try_connect_def client_reset_def flaky_connect Let_def)
  moreover have "cl_stream ?cl = w" "cl_running ?cl" "cl_receiver ?cl = Running R_Start"
    "cl_config ?cl = client_config_default" "cl_queue ?cl = spsc_new kQueueCapacity message_default"
    unfolding flaky_connect by (simp_all add: client_new_def)
  ultimately show ?thesis by blast
qed

lemma flaky_start:
  "\<exists>cm cl. cm_start (demo_env flaky_api) (cm_new (True # w) (demo_config\<lparr>cc_pin_receiver_thread := b\<rparr>)) = Inr cm \<and>
    cm_client cm = Some cl \<and> cl_stream cl = w \<and> cl_running cl \<and> cl_receiver cl = Running R_Start \<and>
    cl_config cl = client_config_default \<and> cl_queue cl = spsc_new kQueueCapacity message_default \<and>
    cm_monitor_thread cm = Running M_Loop \<and> cm_heartbeat_thread cm = Running H_Loop \<and>
    cm_reconnect_thread cm = NoThread \<and> cm_should_run cm \<and> cm_state cm = Connected \<and>
    cm_reconnect_count cm = 0 \<and> cm_config cm = demo_config\<lparr>cc_pin_receiver_thread := b\<rparr> \<and>
    cm_on_connect cm = Unset \<and> cm_on_disconnect cm = Unset \<and> cm_on_reconnect cm = Unset"
proof -
  let ?cfg = "demo_config\<lparr>cc_pin_receiver_thread := b\<rparr>"
  let ?c = "set_state Connecting ((cm_new (True # w) ?cfg)\<lparr>cm_should_run := True\<rparr>)"
  have "cm_client ?c = None" "cm_ioc ?c = True # w" "cm_on_connect ?c = Unset" by (simp_all add: cm_new_def)
  from flaky_try_connect [OF this] obtain cl where
    t: "try_connect (demo_env flaky_api) ?c = Inr (True, ?c\<lparr>cm_client := Some cl\<rparr>)"
    and cl: "cl_stream cl = w" "cl_running cl" "cl_receiver cl = Running R_Start"
      "cl_config cl = client_config_default" "cl_queue cl = spsc_new kQueueCapacity message_default" by blast
  have h: "heartbeat_enabled ?cfg" by simp
  have "cm_start (demo_env flaky_api) (cm_new (True # w) ?cfg) = Inr ((set_state Connected (?c\<lparr>cm_client := Some cl\<rparr>))
      \<lparr>cm_reconnect_count := 0, cm_heartbeat_thread := Running H_Loop, cm_monitor_thread := Running M_Loop\<rparr>)"
    using t h by (simp add: cm_start_def start_monitoring_def thread_assign_def cm_new_def)
  then show ?thesis using cl by (simp add: cm_new_def set_state_def log_event_def)
qed

text \<open>A start that is refused, and the reconnect thread it leaves.\<close>

lemma flaky_refused:
  assumes "cm_client cm = None" and "cm_ioc cm = False # w"
  shows "try_connect (demo_env flaky_api) cm =
    Inr (False, cm\<lparr>cm_ioc := w, cm_log := cm_log cm @ [failed_msg ''Host not found'']\<rparr>)"
proof -
  let ?new = "client_new flaky_api (False # w) (cc_host (cm_config cm)) (cc_port (cm_config cm)) client_config_default"
  let ?cl = "?new\<lparr>cl_stream := w\<rparr>"
  have c: "ws_connect flaky_api ?new = (Throw ''Host not found'', ?cl)"
    by (simp add: ws_connect_def client_new_def flaky_establish)
  have nt: "cl_receiver ?cl = NoThread" by (simp add: client_new_def)
  have "close_stream flaky_api ''ws'' ?cl = ?cl" by (simp add: close_stream_def client_new_def)
  moreover have "receive_loop 4 flaky_api linux_os ''ws'' ?cl = Inr ?cl"
    by (rule receive_loop_gone) (simp add: receiver_gone_def nt)
  ultimately have d: "client_destroy 4 flaky_api linux_os ''ws'' ?cl = Inr (Some w)"
    using nt by (simp add: client_destroy_def client_close_def join_receiver.simps)
  show ?thesis
    using assms c d by (simp add: try_connect_def client_reset_def connect_failed_def log_event_def failed_msg_def)
qed

lemma flaky_start_refused:
  "\<exists>cm. cm_start (demo_env flaky_api) (cm_new (False # w) demo_config) = Inr cm \<and>
    cm_reconnect_thread cm = Running (RC_Loop 100) \<and> cm_should_run cm \<and> cm_reconnect_count cm = 0 \<and>
    cm_config cm = demo_config \<and> cm_on_reconnect cm = Unset \<and> cm_on_connect cm = Unset \<and> cm_client cm = None \<and>
    cm_ioc cm = w \<and> cm_monitor_thread cm = NoThread \<and> cm_heartbeat_thread cm = NoThread"
proof -
  let ?c = "set_state Connecting ((cm_new (False # w) demo_config)\<lparr>cm_should_run := True\<rparr>)"
  have "cm_client ?c = None" "cm_ioc ?c = False # w" by (simp_all add: cm_new_def)
  from flaky_refused [OF this] show ?thesis
    by (simp add: cm_start_def thread_assign_def cm_new_def Let_def set_state_def log_event_def)
qed

text \<open>A new manager with its three callbacks.\<close>

abbreviation with_callbacks :: "callback \<Rightarrow> callback \<Rightarrow> callback \<Rightarrow> 'w conn_manager \<Rightarrow> 'w conn_manager" where
  "with_callbacks c1 c2 c3 cm \<equiv> on_reconnect c3 (on_disconnect c2 (on_connect c1 cm))"

lemma with_callbacks_simps:
  "cm_monitor_thread (with_callbacks c1 c2 c3 cm) = cm_monitor_thread cm"
  "cm_heartbeat_thread (with_callbacks c1 c2 c3 cm) = cm_heartbeat_thread cm"
  "cm_reconnect_thread (with_callbacks c1 c2 c3 cm) = cm_reconnect_thread cm"
  "cm_state (with_callbacks c1 c2 c3 cm) = cm_state cm" "cm_log (with_callbacks c1 c2 c3 cm) = cm_log cm"
  by (simp_all add: on_connect_def on_disconnect_def on_reconnect_def)

lemma with_callbacks_Unset: "with_callbacks Unset Unset Unset (cm_new ioc config) = cm_new ioc config"
  by (simp add: cm_new_def on_connect_def on_disconnect_def on_reconnect_def)

section \<open>Properties\<close>

text \<open>C15: When the server stays out of reach, \<open>reconnect_loop\<close> with the default backoff makes exactly
  \<open>max_reconnect_tries\<close> attempts, waiting 100, 200, 400 ms and so on doubled up to 30000 ms
  before them, reports each to \<open>on_reconnect\<close>, then goes to \<open>DISCONNECTED\<close>, calls
  \<open>on_disconnect\<close> once and returns, within twice as many steps and one.\<close>

theorem reconnect_gives_up:
  assumes "retrying env tries 0 cm"
  shows "\<exists>cm'. reconnect_loop (2 * tries + 1) env (RC_Loop (initial_backoff_ms (cm_config cm))) cm = Inr (RC_Done, cm') \<and>
    cm_state cm' = Disconnected \<and> cm_client cm' = None \<and>
    called cm' = called cm @
      map (\<lambda>i. OnReconnect (of_nat (Suc i)) (of_nat (min (100 * 2 ^ i) 30000))) [0..<tries] @
      [OnDisconnect ''max retries exceeded'']"
proof -
  have "of_nat (backoff_at 0) = initial_backoff_ms (cm_config cm)"
    using assms by (simp add: backoff_at_def retrying_def default_backoff_def)
  moreover have "attempt = (\<lambda>i. OnReconnect (of_nat (Suc i)) (of_nat (min (100 * 2 ^ i) 30000)))"
    by (simp add: attempt_def backoff_at_def fun_eq_iff)
  ultimately show ?thesis using give_up_from [OF assms] by simp
qed

theorem reconnect_gives_up_witness:
  "\<exists>cm'. reconnect_loop 21 (demo_env down_api) (RC_Loop 100)
      ((cm_new () demo_config)\<lparr>cm_should_run := True, cm_on_reconnect := Returns, cm_on_disconnect := Returns\<rparr>) =
      Inr (RC_Done, cm') \<and> cm_state cm' = Disconnected \<and>
    called cm' = [OnReconnect 1 100, OnReconnect 2 200, OnReconnect 3 400, OnReconnect 4 800, OnReconnect 5 1600,
      OnReconnect 6 3200, OnReconnect 7 6400, OnReconnect 8 12800, OnReconnect 9 25600, OnReconnect 10 30000,
      OnDisconnect ''max retries exceeded'']"
proof -
  let ?cm = "(cm_new () demo_config)\<lparr>cm_should_run := True, cm_on_reconnect := Returns, cm_on_disconnect := Returns\<rparr>"
  have "unreachable down_api demo_config"
    by (simp add: unreachable_def ws_establish_def bind_io_def down_api_def)
  then have "retrying (demo_env down_api) 10 0 ?cm" by (simp add: retrying_def cm_new_def)
  note run = reconnect_gives_up [OF this]
  have "[0..<10] = [0, 1, 2, 3, 4, 5, 6, 7, 8, 9 :: nat]" by code_simp
  then have "map (\<lambda>i. OnReconnect (of_nat (Suc i)) (of_nat (min (100 * 2 ^ i) 30000))) [0..<10] =
    [OnReconnect 1 100, OnReconnect 2 200, OnReconnect 3 400, OnReconnect 4 800, OnReconnect 5 1600,
     OnReconnect 6 3200, OnReconnect 7 6400, OnReconnect 8 12800, OnReconnect 9 25600, OnReconnect 10 30000]"
    by (simp only: list.map) simp
  moreover have "called ?cm = []" "initial_backoff_ms (cm_config ?cm) = 100" by (simp_all add: cm_new_def called_def)
  moreover have "2 * 10 + 1 = (21 :: nat)" by simp
  ultimately show ?thesis using run by (simp del: reconnect_loop.simps) blast
qed

text \<open>C18: When the server answers, one round of \<open>reconnect_loop\<close> recovers: the state is \<open>CONNECTED\<close>, the
  retry counter is zero again, there is a running client with a fresh queue and its receiver
  thread, and the monitor and, if enabled, the heartbeat have a thread.\<close>

theorem reconnect_recovers:
  assumes "cm_should_run cm" and "cm_client cm = None"
    and "reachable_server (env_api env) (cm_config cm) (cm_ioc cm)"
    and "\<forall>e. cm_on_connect cm \<noteq> Throws e" and "\<forall>e. cm_on_reconnect cm \<noteq> Throws e"
    and "0 \<le> sint (cm_reconnect_count cm)" and "sint (cm_reconnect_count cm) < 2 ^ 31 - 1"
    and "sint (max_reconnect_tries (cm_config cm)) \<le> 0 \<or>
      sint (cm_reconnect_count cm) < sint (max_reconnect_tries (cm_config cm))"
  shows "\<exists>cm'. reconnect_loop 2 env (RC_Loop b) cm = Inr (RC_Done, cm') \<and> cm_is_connected cm' \<and>
    reconnect_count cm' = 0 \<and> client_made True (cm_get_client cm') \<and> joinable (cm_monitor_thread cm') \<and>
    (heartbeat_enabled (cm_config cm) \<longrightarrow> joinable (cm_heartbeat_thread cm'))"
proof -
  obtain n where n: "i32_result (sint (cm_reconnect_count cm) + 1) = Inr n" "sint n = sint (cm_reconnect_count cm) + 1"
    using i32_result_sint [of "sint (cm_reconnect_count cm) + 1"] assms(6,7) by auto
  have cmp: "\<not> (0 < sint (max_reconnect_tries (cm_config cm)) \<and> sint (max_reconnect_tries (cm_config cm)) < sint n)"
    using assms(8) n(2) by auto
  let ?c = "log_event (Printed (Cout (attempt_msg n b))) (cm\<lparr>cm_reconnect_count := n\<rparr>)"
  obtain l where cb: "call_back (cm_on_reconnect cm) (OnReconnect n b) ?c = Inr (?c\<lparr>cm_log := l\<rparr>)"
    using call_back_returns [OF assms(5)] by blast
  let ?c1 = "?c\<lparr>cm_log := l\<rparr>"
  have s1: "reconnect_at env (RC_Loop b) cm = Inr (RC_Awake b, ?c1)"
    using assms(1) n(1) cmp cb by (simp add: Let_def)
  obtain c2 where t: "try_connect env ?c1 = Inr (True, c2)"
    using try_connect_reachable [of env ?c1] assms(2-4) by auto
  from try_connect_frame [OF t] obtain c w l' where
    c2: "c2 = ?c1\<lparr>cm_client := c, cm_ioc := w, cm_log := l'\<rparr>" "client_made True c" by blast
  let ?c3 = "start_threads ((set_state Connected (log_event (Printed (Cout (reconnected_msg
    (cm_reconnect_count c2)))) c2))\<lparr>cm_reconnect_count := 0\<rparr>)"
  have "reconnect_loop 2 env (RC_Loop b) cm = Inr (RC_Done, ?c3)"
    unfolding numeral_2_eq_2 using s1 t by simp
  moreover have "client_made True (cm_get_client ?c3)" using c2 by (simp add: start_threads_simps cm_get_client_def)
  moreover have "heartbeat_enabled (cm_config cm) \<longrightarrow> joinable (cm_heartbeat_thread ?c3)"
    using c2(1) by (auto intro: start_threads_simps)
  ultimately show ?thesis by (auto simp: start_threads_simps cm_is_connected_def reconnect_count_def)
qed

theorem reconnect_recovers_witness:
  "\<exists>cm'. reconnect_loop 2 (demo_env flaky_api) (RC_Loop 400)
      ((cm_new [True] demo_config)\<lparr>cm_should_run := True, cm_reconnect_count := 2\<rparr>) = Inr (RC_Done, cm') \<and>
    cm_is_connected cm' \<and> reconnect_count cm' = 0 \<and> client_made True (cm_get_client cm') \<and>
    joinable (cm_monitor_thread cm') \<and> (heartbeat_enabled (cm_config (cm_new [True] demo_config)) \<longrightarrow>
      joinable (cm_heartbeat_thread cm'))"
proof -
  let ?cm = "(cm_new [True] demo_config)\<lparr>cm_should_run := True, cm_reconnect_count := 2\<rparr>"
  have "reachable_server (env_api (demo_env flaky_api)) (cm_config ?cm) (cm_ioc ?cm)"
    by (simp add: reachable_server_def flaky_establish cm_new_def)
  from reconnect_recovers [OF _ _ this, of 400] show ?thesis by (simp add: cm_new_def del: reconnect_loop.simps)
qed

text \<open>C17: Over the whole life of a manager, from \<open>start\<close> on, whatever its callbacks and under every interleaving of its
  threads, the receiver and the calls of the main thread, the reconnect thread is only ever
  active while there is neither a monitor nor a heartbeat thread: two threads never try to
  connect, or replace the client, at the same time.\<close>

theorem single_reconnector:
  assumes "cm_start env (with_callbacks c1 c2 c3 (cm_new ioc config)) = Inr cm" and "cm_run env as (Idle, cm) = Inr (m, cm')"
    and "Start \<notin> set as"
  shows "rc_active (cm_reconnect_thread cm') \<longrightarrow>
    cm_monitor_thread cm' = NoThread \<and> cm_heartbeat_thread cm' = NoThread"
proof -
  have "cm_inv cm" by (rule cm_start_inv [OF assms(1)]) (simp_all add: cm_new_def with_callbacks_simps)
  from cm_run_inv [OF assms(2,3) this] show ?thesis by (simp add: cm_inv_def)
qed

theorem single_reconnector_witness:
  "\<exists>cm m cm'. cm_start (demo_env flaky_api) (cm_new [False, True] demo_config) = Inr cm \<and>
    cm_run (demo_env flaky_api) [Rc] (Idle, cm) = Inr (m, cm') \<and> rc_active (cm_reconnect_thread cm') \<and>
    cm_monitor_thread cm' = NoThread \<and> cm_heartbeat_thread cm' = NoThread"
proof -
  from flaky_start_refused [of "[True]"] obtain cm where cm: "cm_start (demo_env flaky_api) (cm_new [False, True] demo_config) = Inr cm"
    "cm_reconnect_thread cm = Running (RC_Loop 100)" "cm_should_run cm" "cm_reconnect_count cm = 0"
    "cm_config cm = demo_config" "cm_on_reconnect cm = Unset" by blast
  have "\<exists>m cm'. cm_run (demo_env flaky_api) [Rc] (Idle, cm) = Inr (m, cm') \<and> rc_active (cm_reconnect_thread cm')"
    using cm(2-) by (simp add: on_thread_def i32_result_def Let_def)
  then obtain m cm' where r: "cm_run (demo_env flaky_api) [Rc] (Idle, cm) = Inr (m, cm')"
    "rc_active (cm_reconnect_thread cm')" by blast
  from single_reconnector [of _ Unset Unset Unset, unfolded with_callbacks_Unset, OF cm(1) r(1)] cm(1) r show ?thesis by auto
qed

text \<open>Whatever pinning the configuration of the manager asks for, none of its clients ever pins its
  receiver thread: every client is built with the default client configuration.\<close>

theorem manager_never_pins:
  assumes "cm_start env (with_callbacks c1 c2 c3 (cm_new ioc config)) = Inr cm" and "cm_run env as (Idle, cm) = Inr (m, cm')"
    and "Start \<notin> set as" and "cm_get_client cm' = Some cl"
  shows "\<not> pin_receiver_thread (client_conf cl) \<and> receiver_pin os tag (client_conf cl) = Inr []"
proof -
  have "cm_inv cm" by (rule cm_start_inv [OF assms(1)]) (simp_all add: cm_new_def with_callbacks_simps)
  from cm_run_inv [OF assms(2,3) this] assms(4) have "cl_config cl = client_config_default"
    by (simp add: cm_inv_def default_client_def cm_get_client_def)
  then show ?thesis by (simp add: client_conf_def client_config_default_def receiver_pin_def)
qed

theorem manager_never_pins_witness:
  "\<exists>cm cl. cm_start (demo_env flaky_api) (cm_new [True] (demo_config\<lparr>cc_pin_receiver_thread := True\<rparr>)) = Inr cm \<and>
    cm_get_client cm = Some cl \<and> \<not> pin_receiver_thread (client_conf cl)"
proof -
  from flaky_start [of "[]" True] obtain cm cl where
    s: "cm_start (demo_env flaky_api) (cm_new [True] (demo_config\<lparr>cc_pin_receiver_thread := True\<rparr>)) = Inr cm"
    and c: "cm_client cm = Some cl" by blast
  have "cm_run (demo_env flaky_api) [] (Idle, cm) = Inr (Idle, cm)" by simp
  from manager_never_pins [of _ Unset Unset Unset, unfolded with_callbacks_Unset, OF s this, of cl] c s show ?thesis by (auto simp: cm_get_client_def)
qed

text \<open>C19: Stopping a manager that is not in the middle of reconnecting ends in order: with the loops at
  any of their points, and a client whose pending read returns once its stream is closed, the
  two loops leave at their next step, every thread is joined, the state is \<open>CLOSED\<close> and the
  destructor finds nothing to terminate the program for.\<close>

theorem stop_completes:
  assumes "cm_should_run cm" and "closable env (cm_client cm)" and "mon_idle (cm_monitor_thread cm)"
    and "\<not> rc_active (cm_reconnect_thread cm)"
  shows "\<exists>cm'. cm_run env [Stop, Hb, StopJoin, Mon, StopJoin, StopJoin, StopJoin, Destroy] (Idle, cm) =
    Inr (Destroyed, cm') \<and> cm_state cm' = Closed"
proof -
  from stop_begin_closable [OF assms(1,2)] obtain c1 where
    c1: "stop_begin env cm = Inr (Join_Heartbeat, c1)" "\<not> cm_should_run c1"
      "cm_heartbeat_thread c1 = cm_heartbeat_thread cm" "cm_monitor_thread c1 = cm_monitor_thread cm"
      "cm_reconnect_thread c1 = cm_reconnect_thread cm"
      "\<forall>cl. cm_client c1 = Some cl \<longrightarrow> cl_receiver cl = NoThread" by blast
  from hb_leaves [OF c1(2)] obtain t2 where
    h: "cm_step env Hb (Join_Heartbeat, c1) = Inr (Join_Heartbeat, c1\<lparr>cm_heartbeat_thread := t2\<rparr>)"
      "t2 \<in> {NoThread, Running H_Done}" by blast
  let ?c3 = "c1\<lparr>cm_heartbeat_thread := NoThread\<rparr>"
  have j1: "stop_at Join_Heartbeat (c1\<lparr>cm_heartbeat_thread := t2\<rparr>) = (Join_Monitor, ?c3)" using h(2) by simp
  have "\<not> cm_should_run ?c3" "mon_idle (cm_monitor_thread ?c3)" using c1 assms(3) by simp_all
  from mon_leaves [OF this] obtain t4 where
    m: "cm_step env Mon (Join_Monitor, ?c3) = Inr (Join_Monitor, ?c3\<lparr>cm_monitor_thread := t4\<rparr>)"
      "t4 \<in> {NoThread, Running M_Done}" by blast
  let ?c5 = "?c3\<lparr>cm_monitor_thread := NoThread\<rparr>"
  have j2: "stop_at Join_Monitor (?c3\<lparr>cm_monitor_thread := t4\<rparr>) = (Join_Reconnect, ?c5)" using m(2) by simp
  have j3: "stop_at Join_Reconnect ?c5 = (Stopped, ?c5\<lparr>cm_reconnect_thread := NoThread\<rparr>)"
    using c1(5) assms(4) by (cases "cm_reconnect_thread cm") auto
  let ?c6 = "set_state Closed (?c5\<lparr>cm_reconnect_thread := NoThread\<rparr>)"
  obtain c7 where d: "destroy_members env ?c6 = Inr c7" "cm_state c7 = Closed"
    using destroy_after_stop [of ?c6 env] c1(6) by auto
  have "cm_run env [Stop, Hb, StopJoin, Mon, StopJoin, StopJoin, StopJoin, Destroy] (Idle, cm) = Inr (Destroyed, c7)"
    using c1(1,2) h(1) j1 m(1) j2 j3 d(1) by (simp del: cm_step.simps(5,6) stop_at.simps(1-3))
  with d(2) show ?thesis by blast
qed

text \<open>C20: The monitor watches for one loss only. After it has reconnected, its thread has returned but
  is still joinable, so no monitor is started again: whatever the threads do from then on, the
  state stays \<open>CONNECTED\<close> and no callback is called, also when the new connection is lost.\<close>

theorem second_loss_unnoticed:
  assumes "cm_monitor_thread cm = Running (M_Reconnect (RC_Awake b))"
    and "\<not> rc_active (cm_reconnect_thread cm)" and "try_connect env cm = Inr (True, cm1)"
    and "cm_run env (Mon # as) (m, cm) = Inr (m', cm')" and "set as \<subseteq> {Mon, Hb, Rc, Receiver}"
  shows "cm_is_connected cm' \<and> called cm' = called cm1 \<and> cm_monitor_thread cm' = Running M_Done"
proof -
  from monitor_reconnected [OF assms(1-3), of m] obtain cm2 where
    s: "cm_step env Mon (m, cm) = Inr (m, cm2)" "unwatched cm2" "cm_state cm2 = Connected" "called cm2 = called cm1"
    by blast
  then have "cm_run env as (m, cm2) = Inr (m', cm')" using assms(4) by (simp del: cm_step.simps)
  from unwatched_run [OF this assms(5) s(2)] s show ?thesis
    by (simp add: cm_is_connected_def unwatched_def)
qed

text \<open>C21: Stopping during a backoff can end the program. \<open>stop\<close> finds no heartbeat and no monitor to
  join and waits for the reconnect thread; that thread does not look at \<open>should_run_\<close> after its
  sleep, and when its attempt succeeds it starts a monitor nobody joins: the destructor then
  destroys a joinable thread, which calls \<open>std::terminate\<close>.\<close>

theorem stop_during_backoff_terminates:
  assumes "cm_reconnect_thread cm = Running (RC_Awake b)" and "\<not> cm_should_run cm"
    and "try_connect env cm = Inr (True, cm1)"
  shows "cm_run env [Rc, StopJoin, StopJoin, Destroy] (Join_Reconnect, cm) =
    Inl (Terminate ''destruction of a joinable thread'')"
proof -
  let ?c2 = "start_threads ((set_state Connected (log_event (Printed (Cout (reconnected_msg
    (cm_reconnect_count cm1)))) cm1))\<lparr>cm_reconnect_count := 0\<rparr>)"
  from try_connect_frame [OF assms(3)] have run: "\<not> cm_should_run cm1" using assms(2) by auto
  have "cm_step env Rc (Join_Reconnect, cm) =
      Inr (Join_Reconnect, ?c2\<lparr>cm_reconnect_thread := Running RC_Done\<rparr>)"
    using assms(1,3) by (simp add: on_thread_def)
  moreover have "joinable (cm_monitor_thread ?c2)" by (rule start_threads_simps)
  ultimately show ?thesis
    using run by (simp del: cm_step.simps(7) add: destroy_members_def start_threads_simps)
qed

lemma cm_run_append: "cm_run env (as @ bs) s = bind_result (cm_run env as s) (cm_run env bs)"
proof (induction as arbitrary: s)
  case (Cons a as)
  then show ?case by (cases "cm_step env a s") auto
qed simp

theorem stop_during_backoff_terminates_witness:
  "\<exists>cm. cm_start (demo_env flaky_api) (cm_new [False, True] demo_config) = Inr cm \<and>
    cm_run (demo_env flaky_api) ([Rc, Stop, StopJoin, StopJoin] @ [Rc, StopJoin, StopJoin, Destroy]) (Idle, cm) =
      Inl (Terminate ''destruction of a joinable thread'')"
proof -
  from flaky_start_refused [of "[True]"] obtain cm where
    cm: "cm_start (demo_env flaky_api) (cm_new [False, True] demo_config) = Inr cm"
      "cm_reconnect_thread cm = Running (RC_Loop 100)" "cm_should_run cm" "cm_reconnect_count cm = 0"
      "cm_config cm = demo_config" "cm_on_reconnect cm = Unset" "cm_on_connect cm = Unset" "cm_client cm = None"
      "cm_ioc cm = [True]" "cm_monitor_thread cm = NoThread" "cm_heartbeat_thread cm = NoThread" by blast
  have "\<exists>c. cm_run (demo_env flaky_api) [Rc, Stop, StopJoin, StopJoin] (Idle, cm) = Inr (Join_Reconnect, c) \<and>
      cm_reconnect_thread c = Running (RC_Awake 100) \<and> \<not> cm_should_run c \<and> cm_client c = None \<and>
      cm_ioc c = [True] \<and> cm_on_connect c = Unset"
    using cm(2-) by (simp add: on_thread_def i32_result_def Let_def stop_begin_def)
  then obtain c where c: "cm_run (demo_env flaky_api) [Rc, Stop, StopJoin, StopJoin] (Idle, cm) = Inr (Join_Reconnect, c)"
    "cm_reconnect_thread c = Running (RC_Awake 100)" "\<not> cm_should_run c" "cm_client c = None"
    "cm_ioc c = [True]" "cm_on_connect c = Unset" by blast
  from flaky_try_connect [OF c(4-6)] obtain cm1 where "try_connect (demo_env flaky_api) c = Inr (True, cm1)" by blast
  note bad = stop_during_backoff_terminates [OF c(2,3) this]
  have "cm_run (demo_env flaky_api) ([Rc, Stop, StopJoin, StopJoin] @ [Rc, StopJoin, StopJoin, Destroy]) (Idle, cm) =
      Inl (Terminate ''destruction of a joinable thread'')"
    by (simp only: cm_run_append c(1) bind_result.simps bad)
  with cm(1) show ?thesis by blast
qed

theorem stop_completes_witness:
  "\<exists>cm cm'. cm_start (demo_env flaky_api) (cm_new [True] (demo_config\<lparr>cc_pin_receiver_thread := False\<rparr>)) = Inr cm \<and>
    cm_run (demo_env flaky_api) [Stop, Hb, StopJoin, Mon, StopJoin, StopJoin, StopJoin, Destroy] (Idle, cm) =
      Inr (Destroyed, cm') \<and> cm_state cm' = Closed"
proof -
  from flaky_start [of "[]" False] obtain cm cl where
    cm: "cm_start (demo_env flaky_api) (cm_new [True] (demo_config\<lparr>cc_pin_receiver_thread := False\<rparr>)) = Inr cm"
      "cm_client cm = Some cl" "cl_config cl = client_config_default"
      "cl_queue cl = spsc_new kQueueCapacity message_default" "cm_monitor_thread cm = Running M_Loop"
      "cm_reconnect_thread cm = NoThread" "cm_should_run cm" by blast
  have "client_inv linux_os ''ws'' cl"
    using message_queue.fifo.new_inv [of message_default] cm(3,4)
    by (simp add: client_inv_def receiver_pin_def client_config_default_def)
  then have "closable (demo_env flaky_api) (cm_client cm)"
    using cm(2) by (simp add: closable_def exI [of _ 0])
  from stop_completes [OF cm(7) this] cm(1,5,6) show ?thesis by (simp del: cm_run.simps)
qed

text \<open>A connection of the example network that the server closes, and the monitor that notices.\<close>

lemma flaky_drop:
  assumes "cm_client cm = Some cl" and "cl_receiver cl = Running R_Start" and "cl_running cl"
    and "cl_config cl = client_config_default"
  shows "\<exists>cl'. cm_run (demo_env flaky_api) [Receiver, Receiver, Receiver, Receiver] (m, cm) =
      Inr (m, cm\<lparr>cm_client := Some cl'\<rparr>) \<and>
    cl_receiver cl' = Running R_Done \<and> \<not> cl_running cl' \<and> cl_stream cl' = cl_stream cl"
proof -
  have pin: "receiver_pin linux_os ''ws'' (cl_config cl) = Inr []"
    using assms(4) by (simp add: receiver_pin_def client_config_default_def)
  let ?c1 = "set_pc R_Loop (cl_print [] cl)"
  let ?c4 = "set_pc R_Done ((read_done flaky_api ''ws'' ReadClosed ((set_pc R_Read ?c1)\<lparr>cl_stream := cl_stream cl\<rparr>))
    \<lparr>cl_running := False\<rparr>)"
  have "cm_run (demo_env flaky_api) [Receiver, Receiver, Receiver, Receiver] (m, cm) = Inr (m, cm\<lparr>cm_client := Some ?c4\<rparr>)"
    using assms pin by (simp add: recv_action_def receive_step_def client_simps)
  moreover have "cl_receiver ?c4 = Running R_Done" "\<not> cl_running ?c4" "cl_stream ?c4 = cl_stream cl"
    by (simp_all add: client_simps)
  ultimately show ?thesis by blast
qed

lemma flaky_destroy:
  assumes "cl_receiver cl = Running R_Done"
  shows "client_destroy 4 flaky_api linux_os ''ws'' cl = Inr (Some (cl_stream cl))"
proof -
  let ?cl = "close_stream flaky_api ''ws'' cl"
  have cs: "?cl = cl\<lparr>cl_running := False\<rparr>" by (simp add: close_stream_def)
  have "receive_loop 4 flaky_api linux_os ''ws'' ?cl = Inr ?cl"
    by (rule receive_loop_gone) (simp add: receiver_gone_def client_simps assms)
  then show "client_destroy 4 flaky_api linux_os ''ws'' cl = Inr (Some (cl_stream cl))"
    by (simp add: client_destroy_def client_close_def join_receiver.simps client_simps assms) (simp add: cs)
qed

lemma flaky_notice:
  assumes "cm_client cm = Some cl" and "cl_receiver cl = Running R_Done" and "\<not> cl_running cl"
    and "cm_monitor_thread cm = Running M_Loop" and "cm_should_run cm" and "cm_on_disconnect cm = Unset"
    and "cm_on_reconnect cm = Unset" and "cm_config cm = demo_config\<lparr>cc_pin_receiver_thread := b\<rparr>"
    and "cm_reconnect_count cm = 0"
  shows "\<exists>c. cm_run (demo_env flaky_api) [Mon, Mon, Mon] (m, cm) = Inr (m, c) \<and>
    cm_monitor_thread c = Running (M_Reconnect (RC_Awake 100)) \<and> cm_client c = None \<and> cm_ioc c = cl_stream cl \<and>
    cm_reconnect_thread c = cm_reconnect_thread cm \<and> cm_on_connect c = cm_on_connect cm \<and>
    cm_config c = cm_config cm \<and> cm_heartbeat_thread c = cm_heartbeat_thread cm"
proof -
  note d = flaky_destroy [OF assms(2)]
  show ?thesis
    using assms d
    by (simp add: on_thread_def connection_lost_def is_running_def client_reset_def i32_result_def Let_def)
qed

theorem second_loss_unnoticed_witness:
  "\<exists>cm cm'. cm_start (demo_env flaky_api) (cm_new [True, True] (demo_config\<lparr>cc_pin_receiver_thread := False\<rparr>)) = Inr cm \<and>
    cm_run (demo_env flaky_api) ([Receiver, Receiver, Receiver, Receiver] @ [Mon, Mon, Mon] @
      Mon # [Receiver, Receiver, Receiver, Receiver]) (Idle, cm) = Inr (Idle, cm') \<and>
    connection_lost cm' \<and> cm_is_connected cm' \<and> cm_monitor_thread cm' = Running M_Done"
proof -
  let ?env = "demo_env flaky_api"
  let ?four = "[Receiver, Receiver, Receiver, Receiver]"
  from flaky_start [of "[True]" False] obtain cm cl where
    cm: "cm_start ?env (cm_new [True, True] (demo_config\<lparr>cc_pin_receiver_thread := False\<rparr>)) = Inr cm"
      "cm_client cm = Some cl" "cl_receiver cl = Running R_Start" "cl_running cl" "cl_config cl = client_config_default"
    and cm': "cl_stream cl = [True]" "cm_monitor_thread cm = Running M_Loop" "cm_should_run cm"
      "cm_on_disconnect cm = Unset" "cm_on_reconnect cm = Unset" "cm_on_connect cm = Unset"
      "cm_config cm = demo_config\<lparr>cc_pin_receiver_thread := False\<rparr>" "cm_reconnect_count cm = 0"
      "cm_reconnect_thread cm = NoThread" by blast
  from flaky_drop [OF cm(2-5), of Idle] obtain cl1 where
    r1: "cm_run ?env ?four (Idle, cm) = Inr (Idle, cm\<lparr>cm_client := Some cl1\<rparr>)"
    and cl1: "cl_receiver cl1 = Running R_Done" "\<not> cl_running cl1" "cl_stream cl1 = [True]" using cm'(1) by auto
  from flaky_notice [of "cm\<lparr>cm_client := Some cl1\<rparr>" cl1 False Idle] cl1 cm' obtain c where
    r2: "cm_run ?env [Mon, Mon, Mon] (Idle, cm\<lparr>cm_client := Some cl1\<rparr>) = Inr (Idle, c)"
    and c: "cm_monitor_thread c = Running (M_Reconnect (RC_Awake 100))" "cm_client c = None" "cm_ioc c = [True]"
      "cm_reconnect_thread c = NoThread" "cm_on_connect c = Unset" by (auto simp del: cm_run.simps)
  from flaky_try_connect [OF c(2,3,5)] obtain cl2 where
    t: "try_connect ?env c = Inr (True, c\<lparr>cm_client := Some cl2\<rparr>)" and
    cl2: "cl_receiver cl2 = Running R_Start" "cl_running cl2" "cl_config cl2 = client_config_default" by blast
  have "\<exists>c2. cm_step ?env Mon (Idle, c) = Inr (Idle, c2) \<and> cm_client c2 = Some cl2"
    using t c(1) by (simp add: on_thread_def start_threads_simps)
  then obtain c2 where c2: "cm_step ?env Mon (Idle, c) = Inr (Idle, c2)" "cm_client c2 = Some cl2" by blast
  from flaky_drop [OF c2(2) cl2, of Idle] obtain cl3 where
    r3: "cm_run ?env ?four (Idle, c2) = Inr (Idle, c2\<lparr>cm_client := Some cl3\<rparr>)" "\<not> cl_running cl3" by blast
  have r4: "cm_run ?env (Mon # ?four) (Idle, c) = Inr (Idle, c2\<lparr>cm_client := Some cl3\<rparr>)"
    by (simp only: cm_run.simps(2) [of _ Mon] c2(1) bind_result.simps r3(1))
  have "\<not> rc_active (cm_reconnect_thread c)" "set ?four \<subseteq> {Mon, Hb, Rc, Receiver}" using c(4) by auto
  from second_loss_unnoticed [OF c(1) this(1) t r4 this(2)] have
    "cm_is_connected (c2\<lparr>cm_client := Some cl3\<rparr>)" "cm_monitor_thread (c2\<lparr>cm_client := Some cl3\<rparr>) = Running M_Done" by blast+
  moreover have "connection_lost (c2\<lparr>cm_client := Some cl3\<rparr>)" using r3(2) by (simp add: connection_lost_def is_running_def)
  moreover have "cm_run ?env (?four @ [Mon, Mon, Mon] @ Mon # ?four) (Idle, cm) = Inr (Idle, c2\<lparr>cm_client := Some cl3\<rparr>)"
    by (simp only: cm_run_append r1 r2 bind_result.simps r4)
  ultimately show ?thesis using cm(1) by blast
qed

end
