(* ===== verification/Connection_States.thy ===== *)
theory Connection_States
  imports Connection_Theorems
begin

text \<open>
  The states of the connection manager as a state machine of their own: the transitions it may
  make, and that the manager, under every interleaving of its threads, makes no others.
\<close>

section \<open>The state machine\<close>

text \<open>Where a state may go. \<open>Closing\<close> to \<open>Connected\<close> is the attempt that was under way when \<open>stop\<close> was
  called; \<open>Closed\<close> is final.\<close>

fun next_states :: "ConnectionState \<Rightarrow> ConnectionState list" where
  "next_states Disconnected = [Connecting, Closing]"
| "next_states Connecting = [Connected, Reconnecting, Disconnected]"
| "next_states Connected = [Reconnecting, Closing, Closed]"
| "next_states Reconnecting = [Connected, Disconnected, Closing]"
| "next_states Closing = [Connected, Closed]"
| "next_states Closed = []"

text \<open>The transitions in a log, and the state they lead to.\<close>

fun changes :: "cm_event list \<Rightarrow> (ConnectionState \<times> ConnectionState) list" where
  "changes [] = []"
| "changes (StateChange a b # l) = (a, b) # changes l"
| "changes (_ # l) = changes l"

fun state_path :: "ConnectionState \<Rightarrow> (ConnectionState \<times> ConnectionState) list \<Rightarrow> ConnectionState option" where
  "state_path s [] = Some s"
| "state_path s ((a, b) # l) = (if a = s \<and> b \<in> set (next_states s) then state_path b l else None)"

lemma changes_append [simp]: "changes (l @ l') = changes l @ changes l'"
  by (induction l rule: changes.induct) simp_all

lemma state_path_append:
  "state_path s (l @ l') = Option.bind (state_path s l) (\<lambda>t. state_path t l')"
  by (induction s l rule: state_path.induct) simp_all

definition path_ok :: "'w conn_manager \<Rightarrow> bool" where
  "path_ok cm \<longleftrightarrow> state_path Disconnected (changes (cm_log cm)) = Some (cm_state cm)"

lemma path_set_state:
  assumes "path_ok cm" and "st = cm_state cm \<or> st \<in> set (next_states (cm_state cm))"
  shows "path_ok (set_state st cm)"
  using assms by (auto simp: path_ok_def set_state_def Let_def log_event_def state_path_append)

section \<open>Steps that change no state\<close>

definition quiet :: "'w conn_manager \<Rightarrow> 'w conn_manager \<Rightarrow> bool" where
  "quiet cm cm' \<longleftrightarrow> cm_state cm' = cm_state cm \<and> changes (cm_log cm') = changes (cm_log cm)"

lemma quiet_path: "quiet cm cm' \<Longrightarrow> path_ok cm' = path_ok cm"
  by (simp add: quiet_def path_ok_def)

lemma quiet_refl [simp]: "quiet cm cm"
  by (simp add: quiet_def)

lemma quiet_trans [trans]: "quiet a b \<Longrightarrow> quiet b c \<Longrightarrow> quiet a c"
  by (simp add: quiet_def)

lemma quiet_log: "changes [ev] = [] \<Longrightarrow> quiet cm (log_event ev cm)"
  by (simp add: quiet_def log_event_def)

lemma quiet_call_back: "call_back cb ev cm = Inr cm' \<Longrightarrow> changes [ev] = [] \<Longrightarrow> quiet cm cm'"
  by (cases cb) (auto simp: quiet_def log_event_def)

lemma quiet_reset: "client_reset env cm = Inr cm' \<Longrightarrow> quiet cm cm'"
  by (auto simp: quiet_def dest!: client_reset_frame)

lemma quiet_connect_failed:
  assumes "connect_failed env e cm = Inr (ok, cm')"
  shows "quiet cm cm'"
proof -
  let ?c = "log_event (Printed (Cerr (''[conn] Connection failed: '' @ e @ nl))) cm"
  have "quiet cm ?c" by (rule quiet_log) simp
  also have "quiet ?c cm'" using assms by (auto simp: connect_failed_def intro: quiet_reset)
  finally show ?thesis .
qed

lemma quiet_after_connect:
  assumes "after_connect env r cb cm = Inr (ok, cm')"
  shows "quiet cm cm'"
proof (cases "(env, r, cb, cm)" rule: after_connect.cases)
  case (4 env' u cm'')
  with assms quiet_log [of OnConnect cm] show ?thesis by simp
qed (use assms in \<open>auto intro: quiet_connect_failed\<close>)

lemma quiet_try_connect:
  assumes "try_connect env cm = Inr (ok, cm')"
  shows "quiet cm cm'"
proof -
  from assms obtain cm1 where cm1: "client_reset env cm = Inr cm1" by (auto simp: try_connect_def)
  from assms cm1 obtain r cl where
    a: "after_connect env r (cm_on_connect cm1) (cm1\<lparr>cm_client := Some cl\<rparr>) = Inr (ok, cm')"
    by (auto simp: try_connect_def Let_def split: prod.splits)
  have "quiet cm cm1" using cm1 by (rule quiet_reset)
  also have "quiet cm1 (cm1\<lparr>cm_client := Some cl\<rparr>)" by (simp add: quiet_def)
  also have "quiet \<dots> cm'" using a by (rule quiet_after_connect)
  finally show ?thesis .
qed

lemma quiet_start_threads: "quiet cm (start_threads cm)"
  by (simp add: quiet_def start_threads_def Let_def)

section \<open>The invariant\<close>

fun mon_active :: "monitor_pc thread \<Rightarrow> bool" where
  "mon_active (Running (M_Reconnect pc)) = True"
| "mon_active _ = False"

text \<open>A thread is reconnecting; a monitor is watching.\<close>

definition active :: "'w conn_manager \<Rightarrow> bool" where
  "active cm \<longleftrightarrow> rc_active (cm_reconnect_thread cm) \<or> mon_active (cm_monitor_thread cm)"

definition watching :: "'w conn_manager \<Rightarrow> bool" where
  "watching cm \<longleftrightarrow> cm_monitor_thread cm \<in> {Running M_Loop, Running M_Awake}"

text \<open>What the state is before \<open>stop\<close>, during it, and after it.\<close>

definition state_inv :: "main_pc \<Rightarrow> 'w conn_manager \<Rightarrow> bool" where
  "state_inv m cm \<longleftrightarrow> cm_inv cm \<and> path_ok cm \<and>
     (if cm_should_run cm
      then m = Idle \<and> cm_state cm \<in> {Connected, Reconnecting, Disconnected} \<and>
        (active cm \<longrightarrow> cm_state cm = Reconnecting) \<and> (watching cm \<longrightarrow> cm_state cm = Connected)
      else if m \<in> {Idle, Destroyed} then cm_state cm = Closed \<and> \<not> active cm
      else cm_state cm \<in> {Closing, Connected} \<and> (active cm \<longrightarrow> cm_state cm = Closing) \<and>
        (m \<in> {Join_Reconnect, Stopped} \<longrightarrow> \<not> mon_active (cm_monitor_thread cm)) \<and>
        (m = Stopped \<longrightarrow> \<not> rc_active (cm_reconnect_thread cm)))"

text \<open>A step of a thread that is reconnecting.\<close>

definition reconnect_moves :: "reconnect_pc \<Rightarrow> 'w conn_manager \<Rightarrow> 'w conn_manager \<Rightarrow> bool" where
  "reconnect_moves pc' cm cm' \<longleftrightarrow> path_ok cm' \<and> (pc' \<noteq> RC_Done \<longrightarrow> cm_state cm' = cm_state cm) \<and>
     (cm_state cm' \<in> {cm_state cm, Connected} \<or> cm_should_run cm \<and> cm_state cm' = Disconnected) \<and>
     (cm_monitor_thread cm' = cm_monitor_thread cm \<or>
      cm_monitor_thread cm' = Running M_Loop \<and> cm_state cm' = Connected)"

definition reconnecting :: "'w conn_manager \<Rightarrow> bool" where
  "reconnecting cm \<longleftrightarrow> path_ok cm \<and> cm_state cm = (if cm_should_run cm then Reconnecting else Closing)"

lemma path_call_back:
  assumes "call_back cb ev cm = Inr cm'" and "changes [ev] = []" and "path_ok cm"
  shows "path_ok cm'"
  using quiet_path [OF quiet_call_back [OF assms(1,2)]] assms(3) by simp

lemma path_log: "changes [ev] = [] \<Longrightarrow> path_ok cm \<Longrightarrow> path_ok (log_event ev cm)"
  by (simp add: quiet_path [OF quiet_log])

lemma awake_moves:
  assumes "reconnect_at env (RC_Awake b) cm = Inr (pc', cm')" and "reconnecting cm"
  shows "reconnect_moves pc' cm cm'"
proof -
  from assms(1) obtain ok cm1 where t: "try_connect env cm = Inr (ok, cm1)"
    and r: "(ok \<and> pc' = RC_Done \<and> cm' = start_threads ((set_state Connected
        (log_event (Printed (Cout (reconnected_msg (cm_reconnect_count cm1)))) cm1))\<lparr>cm_reconnect_count := 0\<rparr>)) \<or>
      (\<not> ok \<and> pc' \<noteq> RC_Done \<and> cm' = cm1)"
    by (auto split: if_splits)
  note q = quiet_try_connect [OF t]
  have cm1: "path_ok cm1" "cm_state cm1 = cm_state cm" "cm_monitor_thread cm1 = cm_monitor_thread cm"
    using assms(2) try_connect_frame [OF t] quiet_path [OF q] q by (auto simp: reconnecting_def quiet_def)
  let ?l = "log_event (Printed (Cout (reconnected_msg (cm_reconnect_count cm1)))) cm1"
  have "path_ok (set_state Connected ?l)"
    using cm1 assms(2) by (intro path_set_state path_log) (auto simp: reconnecting_def)
  then have "path_ok (start_threads ((set_state Connected ?l)\<lparr>cm_reconnect_count := 0\<rparr>))"
    by (simp only: quiet_path [OF quiet_start_threads]) (simp add: path_ok_def)
  with r cm1 show ?thesis
    by (auto simp: reconnect_moves_def start_threads_simps) (auto simp: start_threads_def Let_def)
qed

lemma loop_moves:
  assumes "reconnect_at env (RC_Loop b) cm = Inr (pc', cm')" and "reconnecting cm"
  shows "reconnect_moves pc' cm cm'"
proof (cases "cm_should_run cm")
  case True
  let ?n = "\<lambda>x count. log_event (Printed x) (cm\<lparr>cm_reconnect_count := count\<rparr>)"
  from True assms(1) consider
    (over) count where "pc' = RC_Done" "call_back (cm_on_disconnect cm) (OnDisconnect ''max retries exceeded'')
      (set_state Disconnected (?n (Cerr (max_tries_msg (cm_config cm))) count)) = Inr cm'"
  | (go) count where "call_back (cm_on_reconnect cm) (OnReconnect count b) (?n (Cout (attempt_msg count b)) count) = Inr cm'"
    by (auto simp: Let_def split: if_splits)
  then show ?thesis
  proof cases
    case (over count)
    have l: "path_ok (set_state Disconnected (?n (Cerr (max_tries_msg (cm_config cm))) count))"
      using assms(2) True by (intro path_set_state path_log) (auto simp: reconnecting_def path_ok_def)
    from path_call_back [OF over(2) _ l] call_back_frame [OF over(2)] over(1) True
    show ?thesis by (auto simp: reconnect_moves_def)
  next
    case (go count)
    have l: "path_ok (?n (Cout (attempt_msg count b)) count)"
      using assms(2) by (intro path_log) (auto simp: reconnecting_def path_ok_def)
    from path_call_back [OF go _ l] call_back_frame [OF go] show ?thesis by (auto simp: reconnect_moves_def)
  qed
qed (use assms in \<open>auto simp: reconnect_moves_def reconnecting_def\<close>)

lemma reconnect_at_moves:
  assumes "reconnect_at env pc cm = Inr (pc', cm')" and "pc \<noteq> RC_Done" and "reconnecting cm"
  shows "reconnect_moves pc' cm cm'"
  using assms awake_moves loop_moves by (cases pc) blast+

lemma state_inv_reconnecting:
  assumes "state_inv m cm" and "active cm"
  shows "reconnecting cm" and "cm_should_run cm \<longleftrightarrow> m = Idle" and "m \<noteq> Destroyed"
  using assms by (auto simp: state_inv_def reconnecting_def split: if_splits)

lemma rc_state_inv:
  assumes "cm_reconnect_thread cm = Running pc" and "state_inv m cm" and "reconnect_at env pc cm = Inr (pc', cm')"
  shows "state_inv m (cm'\<lparr>cm_reconnect_thread := Running pc'\<rparr>)"
proof (cases "pc = RC_Done")
  case True
  with assms have "cm'\<lparr>cm_reconnect_thread := Running pc'\<rparr> = cm" by simp
  with assms(2) show ?thesis by simp
next
  case False
  have inv: "cm_inv cm" using assms(2) by (simp add: state_inv_def)
  from False assms(1) have act: "active cm" "rc_active (cm_reconnect_thread cm)" by (simp_all add: active_def)
  then have mon: "cm_monitor_thread cm = NoThread" using inv by (simp add: cm_inv_def)
  note re = state_inv_reconnecting [OF assms(2) act(1)]
  have mv: "reconnect_moves pc' cm cm'" by (rule reconnect_at_moves [OF assms(3) False re(1)])
  have keep: "cm_should_run cm' = cm_should_run cm"
    using reconnect_at_keeps [OF assms(3)] by (simp add: reconnect_keeps_def)
  have mon': "\<not> mon_active (cm_monitor_thread cm')"
    and wat: "watching (cm'\<lparr>cm_reconnect_thread := Running pc'\<rparr>) \<longrightarrow> cm_state cm' = Connected"
    using mv mon by (auto simp: reconnect_moves_def watching_def)
  have ninv: "cm_inv (cm'\<lparr>cm_reconnect_thread := Running pc'\<rparr>)" by (rule reconnect_at_inv [OF assms(1) inv assms(3)])
  have path: "path_ok (cm'\<lparr>cm_reconnect_thread := Running pc'\<rparr>)" using mv by (simp add: reconnect_moves_def path_ok_def)
  have "m \<noteq> Stopped" if "\<not> cm_should_run cm" using assms(2) act that by (auto simp: state_inv_def)
  with ninv path keep mon' wat mv re show ?thesis
    by (auto simp: state_inv_def active_def reconnect_moves_def reconnecting_def)
qed

lemma watch_state_inv:
  assumes "cm_monitor_thread cm = Running M_Awake" and "state_inv m cm" and "monitor_at env M_Awake cm = Inr (pc', cm')"
    and "cm_should_run cm" and "connection_lost cm"
  shows "state_inv m (cm'\<lparr>cm_monitor_thread := Running pc'\<rparr>)"
proof -
  have inv: "cm_inv cm" using assms(2) by (simp add: state_inv_def)
  have c: "cm_state cm = Connected" "m = Idle" "path_ok cm"
    using assms(1,2,4) by (simp_all add: state_inv_def watching_def)
  have rc: "\<not> rc_active (cm_reconnect_thread cm)" using inv assms(1) by (auto simp: cm_inv_def)
  let ?c = "set_state Reconnecting (log_event (Printed (Cout lost_msg)) cm)"
  have p: "path_ok ?c" using c by (intro path_set_state path_log) auto
  from assms(3-5) obtain cm1 cm2 where
    s: "call_back (cm_on_disconnect cm) (OnDisconnect ''connection lost'') ?c = Inr cm1" "client_reset env cm1 = Inr cm2"
      "(pc', cm') = (if auto_reconnect (cm_config cm2) then (M_Reconnect (RC_Loop (initial_backoff_ms (cm_config cm2))), cm2)
        else (M_Done, set_state Disconnected cm2))"
    by (auto split: if_splits)
  from path_call_back [OF s(1) _ p] have "path_ok cm2" using quiet_path [OF quiet_reset [OF s(2)]] by simp
  moreover have st: "cm_state cm2 = Reconnecting" "cm_should_run cm2"
    "cm_reconnect_thread cm2 = cm_reconnect_thread cm"
    using call_back_frame [OF s(1)] client_reset_frame [OF s(2)] assms(4) by auto
  ultimately have "path_ok (set_state Disconnected cm2)" "path_ok cm2" by (auto intro: path_set_state)
  then have path: "path_ok (cm'\<lparr>cm_monitor_thread := Running pc'\<rparr>)" using s(3) by (auto simp: path_ok_def split: if_splits)
  have "cm_inv (cm'\<lparr>cm_monitor_thread := Running pc'\<rparr>)" by (rule monitor_at_inv [OF assms(1) inv assms(3)])
  with path st s(3) rc c(2) show ?thesis
    by (auto simp: state_inv_def active_def watching_def split: if_splits)
qed

lemma mon_reconnect_inv:
  assumes "cm_monitor_thread cm = Running (M_Reconnect rpc)" and "state_inv m cm"
    and "monitor_at env (M_Reconnect rpc) cm = Inr (pc', cm')"
  shows "state_inv m (cm'\<lparr>cm_monitor_thread := Running pc'\<rparr>)"
proof -
  have inv: "cm_inv cm" using assms(2) by (simp add: state_inv_def)
  have act: "active cm" using assms(1) by (simp add: active_def)
  note re = state_inv_reconnecting [OF assms(2) act]
  from assms(3) obtain rpc' where
    r: "reconnect_at env rpc cm = Inr (rpc', cm')" "pc' = (if rpc' = RC_Done then M_Done else M_Reconnect rpc')" by auto
  have mv: "reconnect_moves rpc' cm cm'"
  proof (cases "rpc = RC_Done")
    case True
    with r(1) re(1) show ?thesis by (simp add: reconnect_moves_def reconnecting_def)
  qed (rule reconnect_at_moves [OF r(1) _ re(1)])
  have keep: "cm_should_run cm' = cm_should_run cm" "cm_reconnect_thread cm' = cm_reconnect_thread cm"
    using reconnect_at_keeps [OF r(1)] by (simp_all add: reconnect_keeps_def)
  have rc: "\<not> rc_active (cm_reconnect_thread cm)" using inv assms(1) by (auto simp: cm_inv_def)
  have path: "path_ok (cm'\<lparr>cm_monitor_thread := Running pc'\<rparr>)" using mv by (simp add: reconnect_moves_def path_ok_def)
  have m: "m \<notin> {Join_Reconnect, Stopped}" if "\<not> cm_should_run cm" using assms(1,2) that by (auto simp: state_inv_def)
  have "cm_inv (cm'\<lparr>cm_monitor_thread := Running pc'\<rparr>)" by (rule monitor_at_inv [OF assms(1) inv assms(3)])
  with path keep rc mv re r(2) m assms(2) show ?thesis
    by (auto simp: state_inv_def active_def watching_def reconnect_moves_def reconnecting_def split: if_splits)
qed

lemma mon_state_inv:
  assumes "cm_monitor_thread cm = Running pc" and "state_inv m cm" and "monitor_at env pc cm = Inr (pc', cm')"
  shows "state_inv m (cm'\<lparr>cm_monitor_thread := Running pc'\<rparr>)"
proof (cases "(\<exists>rpc. pc = M_Reconnect rpc) \<or> pc = M_Awake \<and> cm_should_run cm \<and> connection_lost cm")
  case True
  then show ?thesis using assms watch_state_inv mon_reconnect_inv by blast
next
  case False
  with assms(3) have "cm' = cm \<and> pc' \<in> {M_Loop, M_Awake, M_Done} \<and> (pc = M_Done \<longrightarrow> pc' = M_Done)"
    by (cases pc) (auto split: if_splits)
  moreover have "cm_inv (cm'\<lparr>cm_monitor_thread := Running pc'\<rparr>)"
    by (rule monitor_at_inv [OF assms(1) _ assms(3)]) (use assms(2) in \<open>simp add: state_inv_def\<close>)
  ultimately show ?thesis using False assms(1,2)
    by (cases pc) (auto simp: state_inv_def path_ok_def active_def watching_def split: if_splits)
qed

text \<open>The steps that touch neither the state nor the threads the invariant is about.\<close>

lemma state_inv_quiet:
  assumes "state_inv m cm" and "quiet cm cm'" and "cm_inv cm'" and "cm_should_run cm' = cm_should_run cm"
    and "cm_monitor_thread cm' = cm_monitor_thread cm" and "cm_reconnect_thread cm' = cm_reconnect_thread cm"
  shows "state_inv m cm'"
proof -
  have "path_ok cm' = path_ok cm" and st: "cm_state cm' = cm_state cm"
    using quiet_path [OF assms(2)] assms(2) by (simp_all add: quiet_def)
  with assms(1,3) show ?thesis
    unfolding state_inv_def active_def watching_def st assms(4-6) by blast
qed

lemma quiet_heartbeat:
  assumes "heartbeat_at env pc cm = Inr (pc', cm')"
  shows "quiet cm cm'"
proof (cases "pc = H_Awake \<and> cm_should_run cm \<and> (\<exists>cl. cm_client cm = Some cl \<and> is_running cl)")
  case True
  then obtain cl where "cm_client cm = Some cl" "is_running cl" by blast
  with True assms have "ping env (send_text (env_api env) ''__ping__'' cl) cm = Inr (pc', cm')" by simp
  then show ?thesis
    by (cases "(env, send_text (env_api env) ''__ping__'' cl, cm)" rule: ping.cases) (auto simp: quiet_def log_event_def)
next
  case False
  with assms have "cm' = cm" by (cases pc) (auto split: if_splits option.splits)
  then show ?thesis by simp
qed

lemma hb_state_inv:
  assumes "cm_heartbeat_thread cm = Running pc" and "state_inv m cm" and "heartbeat_at env pc cm = Inr (pc', cm')"
  shows "state_inv m (cm'\<lparr>cm_heartbeat_thread := Running pc'\<rparr>)"
proof -
  have inv: "cm_inv cm" using assms(2) by (simp add: state_inv_def)
  have "quiet cm (cm'\<lparr>cm_heartbeat_thread := Running pc'\<rparr>)"
    using quiet_heartbeat [OF assms(3)] by (simp add: quiet_def)
  from state_inv_quiet [OF assms(2) this heartbeat_at_inv [OF assms(1) inv assms(3)]] show ?thesis
    using heartbeat_at_keeps [OF assms(3)] by (simp add: heartbeat_keeps_def)
qed

lemma stop_begin_state_inv:
  assumes "stop_begin env cm = Inr (m', cm')" and "state_inv Idle cm"
  shows "state_inv m' cm'"
proof (cases "cm_should_run cm")
  case True
  have inv: "cm_inv cm'" by (rule stop_begin_inv [OF assms(1)]) (use assms(2) in \<open>simp add: state_inv_def\<close>)
  have "path_ok (set_state Closing cm)"
    using assms(2) True by (intro path_set_state) (auto simp: state_inv_def)
  moreover from assms(1) True have
    "m' = Join_Heartbeat \<and> \<not> cm_should_run cm' \<and> cm_state cm' = Closing \<and> cm_log cm' = cm_log (set_state Closing cm)"
    by (auto simp: stop_begin_def Let_def split: option.splits)
  ultimately show ?thesis using inv by (simp add: state_inv_def path_ok_def)
qed (use assms in \<open>simp add: stop_begin_def\<close>)

lemma stop_at_state_inv:
  assumes "state_inv m cm" and "stop_at m cm = (m', cm')"
  shows "state_inv m' cm'"
proof -
  have inv: "cm_inv cm'" using stop_at_inv [of cm m] assms by (simp add: state_inv_def)
  show ?thesis
  proof (cases m)
    case Stopped
    with assms(1) have st: "\<not> cm_should_run cm" "cm_state cm \<in> {Closing, Connected}" "\<not> active cm" "path_ok cm"
      by (auto simp: state_inv_def active_def split: if_splits)
    then have "path_ok (set_state Closed cm)" by (intro path_set_state) auto
    with Stopped inv st assms(2) show ?thesis by (auto simp: state_inv_def active_def)
  qed (use assms inv in \<open>auto simp: state_inv_def active_def path_ok_def split: if_splits\<close>)
qed

lemma cm_step_state_inv:
  assumes "cm_step env a (m, cm) = Inr (m', cm')" and "a \<noteq> Start" and "state_inv m cm"
  shows "state_inv m' cm'"
proof (cases a)
  case Stop
  with assms stop_begin_state_inv [of env cm m' cm'] show ?thesis by (auto split: if_splits)
next
  case StopJoin
  with assms show ?thesis by (auto intro: stop_at_state_inv)
next
  case Destroy
  have inv: "cm_inv cm'" by (rule cm_step_inv [OF assms(1,2)]) (use assms(3) in \<open>simp add: state_inv_def\<close>)
  show ?thesis
  proof (cases "m = Idle \<and> \<not> cm_should_run cm")
    case True
    with Destroy assms(1) have m': "m' = Destroyed" and r: "client_reset env cm = Inr cm'"
      by (auto simp: destroy_members_def split: if_splits)
    have "state_inv Destroyed cm" using assms(3) True by (simp add: state_inv_def)
    from state_inv_quiet [OF this quiet_reset [OF r] inv] client_reset_frame [OF r] m' show ?thesis by auto
  qed (use Destroy assms in auto)
next
  case Receiver
  have inv: "cm_inv cm'" by (rule cm_step_inv [OF assms(1,2)]) (use assms(3) in \<open>simp add: state_inv_def\<close>)
  from Receiver assms(1) have c: "m' = m" "quiet cm cm'" "cm_should_run cm' = cm_should_run cm"
    "cm_monitor_thread cm' = cm_monitor_thread cm" "cm_reconnect_thread cm' = cm_reconnect_thread cm"
    by (auto simp: recv_action_def quiet_def split: option.splits)
  from state_inv_quiet [OF assms(3) c(2) inv c(3-5)] c(1) show ?thesis by simp
next
  case Mon
  with assms(1,3) show ?thesis by (auto elim: on_thread_keeps [where P = "state_inv m'"] mon_state_inv)
next
  case Hb
  with assms(1,3) show ?thesis by (auto elim: on_thread_keeps [where P = "state_inv m'"] hb_state_inv)
next
  case Rc
  with assms(1,3) show ?thesis by (auto elim: on_thread_keeps [where P = "state_inv m'"] rc_state_inv)
qed (use assms in simp)

interpretation machine: run_invariant env "- {Start}" state_inv for env
  by unfold_locales (auto intro: cm_step_state_inv)

lemma cm_start_state_inv:
  assumes "cm_start env cm = Inr cm'" and "cm_monitor_thread cm = NoThread" and "cm_heartbeat_thread cm = NoThread"
    and "cm_reconnect_thread cm = NoThread" and "cm_state cm = Disconnected" and "cm_log cm = []"
  shows "state_inv Idle cm'"
proof -
  let ?c = "set_state Connecting (cm\<lparr>cm_should_run := True\<rparr>)"
  have inv: "cm_inv cm'" by (rule cm_start_inv [OF assms(1-4)])
  from assms(1) obtain ok cm1 where t: "try_connect env ?c = Inr (ok, cm1)"
    by (auto simp: cm_start_def split: prod.splits)
  have "path_ok ?c" using assms(5,6) by (intro path_set_state) (auto simp: path_ok_def)
  then have p1: "path_ok cm1" using quiet_path [OF quiet_try_connect [OF t]] by simp
  have f: "cm_state cm1 = Connecting" "cm_should_run cm1" "cm_monitor_thread cm1 = NoThread"
    "cm_heartbeat_thread cm1 = NoThread" "cm_reconnect_thread cm1 = NoThread"
    using try_connect_frame [OF t] assms(2-4) by auto
  have p: "path_ok (set_state st cm1)" if "st \<in> {Connected, Reconnecting, Disconnected}" for st
    using p1 f(1) that by (intro path_set_state) auto
  from assms(1) t f inv p [of Connected] p [of Reconnecting] p [of Disconnected] show ?thesis
    by (auto simp: cm_start_def start_monitoring_def thread_assign_def Let_def state_inv_def active_def watching_def
        path_ok_def split: if_splits)
qed

section \<open>Properties\<close>



end
