(* ===== verification/Cli.thy ===== *)
theory Cli
  imports Connection_Manager
begin

text \<open>
  The command line of \<open>src/main.cpp\<close>: \<open>CliArgs\<close>, \<open>parse_args\<close>, and the choice \<open>main\<close> makes between the
  connection manager, the TLS client and the plain client.
\<close>

section \<open>Arguments\<close>

record cli_args =
  ca_host :: string
  ca_port :: string
  ca_pin_thread :: bool
  ca_pin_core :: i32
  ca_auto_reconnect :: bool
  ca_use_ssl :: bool

definition cli_defaults :: cli_args where
  "cli_defaults = \<lparr>ca_host = ''echo.websocket.events'', ca_port = ''80'', ca_pin_thread = False,
     ca_pin_core = - 1, ca_auto_reconnect = False, ca_use_ssl = False\<rparr>"

definition usage_text :: string where
  "usage_text =
     ''Usage: websocket_client [OPTIONS]'' @ nl @ nl @
     ''Options:'' @ nl @
     ''  --host HOST      Server hostname (default: echo.websocket.events)'' @ nl @
     ''  --port PORT      Server port (default: 80, 443 with --ssl)'' @ nl @
     ''  --ssl            Use TLS/SSL (wss://) connection'' @ nl @
     ''  --pin [CORE]     Pin receiver thread to CPU core'' @ nl @
     ''  --reconnect      Enable auto-reconnect on disconnect'' @ nl @
     ''  -h, --help       Show this help'' @ nl @ nl @
     ''Examples:'' @ nl @
     ''  websocket_client --host localhost --port 8765'' @ nl @
     ''  websocket_client --ssl --host echo.websocket.events'' @ nl @
     ''  websocket_client --pin 3 --reconnect'' @ nl"

text \<open>\<open>parse_args\<close> returns the arguments, or prints the usage and calls \<open>std::exit(0)\<close>.\<close>

datatype parse_result = Parsed cli_args | ExitHelp string

text \<open>The loop over \<open>argv\<close> from index \<open>i\<close> on; the list is what is left of it.\<close>

fun parse_loop :: "nat \<Rightarrow> string list \<Rightarrow> cli_args \<Rightarrow> parse_result" where
  "parse_loop i [] args = Parsed args"
| "parse_loop i (arg # rest) args =
     (if arg = ''--host'' \<and> rest \<noteq> [] then parse_loop (i + 2) (tl rest) (args\<lparr>ca_host := hd rest\<rparr>)
      else if arg = ''--port'' \<and> rest \<noteq> [] then parse_loop (i + 2) (tl rest) (args\<lparr>ca_port := hd rest\<rparr>)
      else if arg = ''--pin'' then
        (let args1 = args\<lparr>ca_pin_thread := True\<rparr>
         in if rest \<noteq> [] then
              (case stoi (hd rest) of
                 Ret core \<Rightarrow> parse_loop (i + 2) (tl rest) (args1\<lparr>ca_pin_core := core\<rparr>)
               | _ \<Rightarrow> parse_loop (i + 1) rest args1)
            else parse_loop (i + 1) rest args1)
      else if arg = ''--reconnect'' then parse_loop (i + 1) rest (args\<lparr>ca_auto_reconnect := True\<rparr>)
      else if arg = ''--ssl'' then
        (let args1 = args\<lparr>ca_use_ssl := True\<rparr>
         in parse_loop (i + 1) rest (if ca_port args1 = ''80'' then args1\<lparr>ca_port := ''443''\<rparr> else args1))
      else if arg = ''--help'' \<or> arg = ''-h'' then ExitHelp usage_text
      else if ca_host args = ''echo.websocket.events'' \<and> i = 1 then parse_loop (i + 1) rest (args\<lparr>ca_host := arg\<rparr>)
      else if ca_port args = ''80'' \<and> i = 2 then parse_loop (i + 1) rest (args\<lparr>ca_port := arg\<rparr>)
      else parse_loop (i + 1) rest args)"

declare parse_loop.simps [simp del]

definition parse_args :: "string list \<Rightarrow> parse_result" where
  "parse_args argv = parse_loop 1 (tl argv) cli_defaults"

section \<open>What main runs\<close>

datatype launch =
    ViaManager connection_config
  | ViaTls string string client_config
  | TlsNotBuilt
  | ViaPlain string string client_config

definition main_client_config :: "cli_args \<Rightarrow> client_config" where
  "main_client_config args = client_config_default
     \<lparr>pin_receiver_thread := ca_pin_thread args, receiver_core_id := ca_pin_core args\<rparr>"

definition main_conn_config :: "cli_args \<Rightarrow> connection_config" where
  "main_conn_config args = connection_config_default
     \<lparr>cc_host := ca_host args, cc_port := ca_port args, auto_reconnect := True, initial_backoff_ms := 100,
      max_backoff_ms := 30000, heartbeat_enabled := True, heartbeat_interval_s := 30,
      cc_pin_receiver_thread := ca_pin_thread args, cc_receiver_core_id := ca_pin_core args\<rparr>"

text \<open>The first argument says whether the program was built with \<open>WS_ENABLE_SSL\<close>.\<close>

definition main_launch :: "bool \<Rightarrow> cli_args \<Rightarrow> launch" where
  "main_launch with_ssl args =
     (if ca_auto_reconnect args then ViaManager (main_conn_config args)
      else if ca_use_ssl args
      then (if with_ssl then ViaTls (ca_host args) (ca_port args) (main_client_config args) else TlsNotBuilt)
      else ViaPlain (ca_host args) (ca_port args) (main_client_config args))"

text \<open>The manager of \<open>main\<close>, with its three callbacks, which print and return.\<close>

definition main_manager :: "'w \<Rightarrow> cli_args \<Rightarrow> 'w conn_manager" where
  "main_manager ioc args =
     on_reconnect Returns (on_disconnect Returns (on_connect Returns (cm_new ioc (main_conn_config args))))"

section \<open>Writing a command line\<close>

text \<open>A command line that asks for given settings.\<close>

definition render_args :: "cli_args \<Rightarrow> string list" where
  "render_args args =
     (if ca_use_ssl args then [''--ssl''] else []) @
     (if ca_auto_reconnect args then [''--reconnect''] else []) @
     [''--host'', ca_host args, ''--port'', ca_port args] @
     (if ca_pin_thread args then [''--pin'', int_to_string (sint (ca_pin_core args))] else [])"

lemma stoi_int_to_string: "stoi (int_to_string (sint (n :: i32))) = Ret n"
  using stoi_to_string [of "sint n" "[]"] sint_lt [of n] sint_ge [of n] by simp

lemma parse_host: "parse_loop i (''--host'' # h # rest) args = parse_loop (i + 2) rest (args\<lparr>ca_host := h\<rparr>)"
  by (simp add: parse_loop.simps)

lemma parse_port: "parse_loop i (''--port'' # p # rest) args = parse_loop (i + 2) rest (args\<lparr>ca_port := p\<rparr>)"
  by (simp add: parse_loop.simps)

lemma parse_ssl:
  "parse_loop i (''--ssl'' # rest) args = parse_loop (i + 1) rest
     (args\<lparr>ca_use_ssl := True, ca_port := (if ca_port args = ''80'' then ''443'' else ca_port args)\<rparr>)"
  by (simp add: parse_loop.simps Let_def)

lemma parse_reconnect:
  "parse_loop i (''--reconnect'' # rest) args = parse_loop (i + 1) rest (args\<lparr>ca_auto_reconnect := True\<rparr>)"
  by (simp add: parse_loop.simps)

lemma parse_pin_core:
  "parse_loop i (''--pin'' # int_to_string (sint (n :: i32)) # rest) args =
     parse_loop (i + 2) rest (args\<lparr>ca_pin_thread := True, ca_pin_core := n\<rparr>)"
  by (subst parse_loop.simps) (simp add: stoi_int_to_string Let_def)

lemmas parse_flags = parse_host parse_port parse_ssl parse_reconnect parse_pin_core

definition is_flag :: "string \<Rightarrow> bool" where
  "is_flag s \<longleftrightarrow> s \<in> {''--host'', ''--port'', ''--pin'', ''--reconnect'', ''--ssl'', ''--help'', ''-h''}"

section \<open>Properties\<close>

text \<open>C32: Every setting of \<open>CliArgs\<close> can be asked for on the command line: parsing the command line
  written from the settings gives them back, whatever the host, the port and the core number.\<close>

theorem parse_args_render:
  assumes "ca_pin_thread args \<or> ca_pin_core args = - 1"
  shows "parse_args (prog # render_args args) = Parsed args"
proof (cases args)
  case (fields host port pin core rec ssl)
  with assms show ?thesis
    by (cases pin; cases rec; cases ssl)
      (simp_all add: parse_args_def render_args_def cli_defaults_def parse_flags parse_loop.simps(1))
qed

theorem parse_args_render_witness:
  "parse_args (''websocket_client'' # render_args \<lparr>ca_host = ''localhost'', ca_port = ''8765'', ca_pin_thread = True,
     ca_pin_core = 3, ca_auto_reconnect = True, ca_use_ssl = False\<rparr>) =
   Parsed \<lparr>ca_host = ''localhost'', ca_port = ''8765'', ca_pin_thread = True, ca_pin_core = 3,
     ca_auto_reconnect = True, ca_use_ssl = False\<rparr>"
  by (rule parse_args_render) simp
text \<open>Where the command line is read differently from the usage text: a host given after \<open>--ssl\<close> is
  dropped without a word, a port 80 asked for before \<open>--ssl\<close> becomes 443, and \<open>--host\<close> or \<open>--port\<close>
  without a value is taken as a host name.\<close>

theorem command_line_surprises:
  assumes "\<not> is_flag h"
  shows "parse_args [prog, ''--ssl'', h] = Parsed (cli_defaults\<lparr>ca_use_ssl := True, ca_port := ''443''\<rparr>) \<and>
    parse_args [prog, ''--port'', ''80'', ''--ssl''] = Parsed (cli_defaults\<lparr>ca_use_ssl := True, ca_port := ''443''\<rparr>) \<and>
    parse_args [prog, ''--host''] = Parsed (cli_defaults\<lparr>ca_host := ''--host''\<rparr>) \<and>
    parse_args [prog, ''--port''] = Parsed (cli_defaults\<lparr>ca_host := ''--port''\<rparr>)"
proof (intro conjI)
  have "parse_loop 2 [h] args = Parsed args" if "ca_port args \<noteq> ''80''" for args
    using assms that by (simp add: parse_loop.simps is_flag_def)
  then show "parse_args [prog, ''--ssl'', h] = Parsed (cli_defaults\<lparr>ca_use_ssl := True, ca_port := ''443''\<rparr>)"
    by (simp add: parse_args_def parse_ssl cli_defaults_def numeral_2_eq_2)
qed (simp_all add: parse_args_def parse_port parse_ssl parse_loop.simps cli_defaults_def)

theorem command_line_surprises_witness:
  "parse_args [''websocket_client'', ''--ssl'', ''localhost''] =
     Parsed (cli_defaults\<lparr>ca_use_ssl := True, ca_port := ''443''\<rparr>)"
  using command_line_surprises [of "''localhost''" "''websocket_client''"] by (simp add: is_flag_def)

end
