(* ===== verification/Byte_Memory.thy ===== *)
theory Byte_Memory
  imports WS_Prelude
begin

text \<open>
  Memory as the sources address it: one byte per address, pointers of eight bytes stored
  little-endian through \<open>reinterpret_cast\<close>, and \<open>std::memcpy\<close>.
\<close>

type_synonym mem = "ptr \<Rightarrow> byte"

definition sizeof_ptr :: size_t where
  "sizeof_ptr = 8"

text \<open>\<open>memcpy(p, bs, length bs)\<close>.\<close>

definition write_bytes :: "mem \<Rightarrow> ptr \<Rightarrow> byte list \<Rightarrow> mem" where
  "write_bytes m p bs = (\<lambda>a. if unat (a - p) < length bs then bs ! unat (a - p) else m a)"

definition read_bytes :: "mem \<Rightarrow> ptr \<Rightarrow> nat \<Rightarrow> byte list" where
  "read_bytes m p n = map (\<lambda>i. m (p + of_nat i)) [0..<n]"

definition ptr_bytes :: "ptr \<Rightarrow> byte list" where
  "ptr_bytes v = map (\<lambda>i. ucast (drop_bit (8 * i) v)) [0..<8]"

definition bytes_ptr :: "byte list \<Rightarrow> ptr" where
  "bytes_ptr bs = foldr (\<lambda>b acc. push_bit 8 acc OR ucast b) bs 0"

definition load_ptr :: "mem \<Rightarrow> ptr \<Rightarrow> ptr" where
  "load_ptr m p = bytes_ptr (read_bytes m p 8)"

definition store_ptr :: "mem \<Rightarrow> ptr \<Rightarrow> ptr \<Rightarrow> mem" where
  "store_ptr m p v = write_bytes m p (ptr_bytes v)"

lemma length_ptr_bytes [simp]: "length (ptr_bytes v) = 8"
  by (simp add: ptr_bytes_def)

lemma bytes_ptr_fold:
  "foldr (\<lambda>b acc. push_bit 8 acc OR ucast (b :: byte)) (map (\<lambda>i. ucast (drop_bit (8 * i) v)) [k..<k + n]) 0 =
   take_bit (8 * n) (drop_bit (8 * k) (v :: ptr))"
proof (induction n arbitrary: k)
  case (Suc n)
  have l: "[k..<k + Suc n] = k # [Suc k..<Suc k + n]" by (simp add: upt_conv_Cons)
  show ?case unfolding l
    by (simp only: list.map foldr.simps o_apply Suc.IH, rule bit_word_eqI)
       (auto simp: bit_simps add.commute not_less)
qed simp

lemma ptr_bytes_roundtrip [simp]: "bytes_ptr (ptr_bytes v) = v"
  using bytes_ptr_fold [of v 0 8]
  by (simp add: bytes_ptr_def ptr_bytes_def take_bit_word_eq_self)

text \<open>Reading back what was written, and reading somewhere else.\<close>

lemma read_write_same:
  assumes "length bs < 2 ^ 64"
  shows "read_bytes (write_bytes m p bs) p (length bs) = bs"
proof (rule nth_equalityI)
  fix i assume "i < length (read_bytes (write_bytes m p bs) p (length bs))"
  then have i: "i < length bs" by (simp add: read_bytes_def)
  then have "unat (of_nat i :: ptr) = i" using assms by (simp add: unat_of_nat)
  with i show "read_bytes (write_bytes m p bs) p (length bs) ! i = bs ! i"
    by (simp add: read_bytes_def write_bytes_def)
qed (simp add: read_bytes_def)

lemma load_store_same [simp]: "load_ptr (store_ptr m p v) p = v"
  using read_write_same [of "ptr_bytes v" m p] by (simp add: load_ptr_def store_ptr_def)

lemma read_bytes_cong:
  "(\<And>i. i < n \<Longrightarrow> m' (p + of_nat i) = m (p + of_nat i)) \<Longrightarrow> read_bytes m' p n = read_bytes m p n"
  by (simp add: read_bytes_def)

text \<open>Two ranges that lie apart in the address space, neither wrapping past its end.\<close>

definition apart :: "ptr \<Rightarrow> nat \<Rightarrow> ptr \<Rightarrow> nat \<Rightarrow> bool" where
  "apart p n q k \<longleftrightarrow> unat p + n < 2 ^ 64 \<and> unat q + k < 2 ^ 64 \<and>
     (unat p + n \<le> unat q \<or> unat q + k \<le> unat p)"

lemma unat_offset: "unat p + i < 2 ^ 64 \<Longrightarrow> unat (p + of_nat i :: ptr) = unat p + i"
  by (simp add: unat_word_ariths unat_of_nat)

lemma read_write_apart:
  assumes "apart p n q (length bs)"
  shows "read_bytes (write_bytes m q bs) p n = read_bytes m p n"
proof (rule read_bytes_cong)
  fix i assume i: "i < n"
  let ?a = "p + of_nat i :: ptr"
  have a: "unat ?a = unat p + i" using i assms by (simp add: unat_offset apart_def)
  have "\<not> unat (?a - q) < length bs"
    using a i assms by (auto simp: apart_def unat_sub_if' word_le_nat_alt)
  then show "write_bytes m q bs ?a = m ?a" by (simp add: write_bytes_def)
qed

lemma load_write_apart: "apart p 8 q (length bs) \<Longrightarrow> load_ptr (write_bytes m q bs) p = load_ptr m p"
  by (simp add: load_ptr_def read_write_apart)

end
