(* ===== verification/Pool_Interface.thy ===== *)
theory Pool_Interface
  imports WS_Prelude
begin

text \<open>
  What the users of a block pool rely on: the \<open>Pool\<close> template parameter of \<open>PoolPtr\<close> and the
  pool of a chat session. The locale fixes the two operations, the invariant, the list of
  free blocks and the set of all blocks; its lemmas are what every client needs, whichever
  pool is behind it.
\<close>

datatype pool_op = PAlloc | PFree nat

text \<open>A client that keeps the blocks it was given, newest first, and gives back the \<open>i\<close>-th.\<close>

fun pool_exec ::
  "('s \<Rightarrow> ptr \<times> 's) \<Rightarrow> (ptr \<Rightarrow> 's \<Rightarrow> 's result) \<Rightarrow> ptr list \<times> 's \<Rightarrow> pool_op list \<Rightarrow> (ptr list \<times> 's) result" where
  "pool_exec al de (held, s) [] = Inr (held, s)"
| "pool_exec al de (held, s) (PAlloc # ops) =
     (let (p, s') = al s in pool_exec al de (if p = nullptr then held else p # held, s') ops)"
| "pool_exec al de (held, s) (PFree i # ops) =
     (if i < length held
      then bind_result (de (held ! i) s)
        (\<lambda>s'. pool_exec al de (take i held @ drop (Suc i) held, s') ops)
      else pool_exec al de (held, s) ops)"

fun alloc_n :: "('s \<Rightarrow> ptr \<times> 's) \<Rightarrow> nat \<Rightarrow> 's \<Rightarrow> ptr list \<times> 's" where
  "alloc_n al 0 s = ([], s)"
| "alloc_n al (Suc n) s = (let (p, s') = al s; (ps, s'') = alloc_n al n s' in (p # ps, s''))"

text \<open>Held blocks and free blocks together are all the blocks, each exactly once.\<close>

definition accounted :: "ptr list \<Rightarrow> ptr list \<Rightarrow> ptr set \<Rightarrow> bool" where
  "accounted held fs bs \<longleftrightarrow> distinct (held @ fs) \<and> set (held @ fs) = bs"

locale block_pool =
  fixes alloc :: "'s \<Rightarrow> ptr \<times> 's"
    and dealloc :: "ptr \<Rightarrow> 's \<Rightarrow> 's result"
    and inv :: "'s \<Rightarrow> bool"
    and free :: "'s \<Rightarrow> ptr list"
    and blocks :: "'s \<Rightarrow> ptr set"
  assumes alloc_some: "inv s \<Longrightarrow> free s = p # ps \<Longrightarrow>
      \<exists>s'. alloc s = (p, s') \<and> inv s' \<and> free s' = ps \<and> blocks s' = blocks s"
    and alloc_none: "inv s \<Longrightarrow> free s = [] \<Longrightarrow> alloc s = (nullptr, s)"
    and dealloc_null: "dealloc nullptr s = Inr s"
    and dealloc_block: "inv s \<Longrightarrow> p \<in> blocks s \<Longrightarrow> p \<notin> set (free s) \<Longrightarrow>
      \<exists>s'. dealloc p s = Inr s' \<and> inv s' \<and> free s' = p # free s \<and> blocks s' = blocks s"
    and free_blocks: "inv s \<Longrightarrow> distinct (free s) \<and> set (free s) \<subseteq> blocks s"
    and not_null: "inv s \<Longrightarrow> nullptr \<notin> blocks s"
begin

lemma alloc_null_iff: "inv s \<Longrightarrow> fst (alloc s) = nullptr \<longleftrightarrow> free s = []"
proof (cases "free s")
  case (Cons p ps)
  assume "inv s"
  with Cons free_blocks not_null have "p \<noteq> nullptr" by fastforce
  with alloc_some [OF \<open>inv s\<close> Cons] Cons show ?thesis by auto
qed (simp add: alloc_none)

text \<open>Last in, first out.\<close>

lemma dealloc_alloc:
  assumes "inv s" and "p \<in> blocks s" and "p \<notin> set (free s)"
  shows "\<exists>s1 s2. dealloc p s = Inr s1 \<and> alloc s1 = (p, s2) \<and> inv s2 \<and> free s2 = free s"
proof -
  from dealloc_block [OF assms] obtain s1 where
    s1: "dealloc p s = Inr s1" "inv s1" "free s1 = p # free s" by blast
  from alloc_some [OF s1(2,3)] obtain s2 where "alloc s1 = (p, s2)" "inv s2" "free s2 = free s" by blast
  with s1 show ?thesis by blast
qed

lemma alloc_n_spec:
  "inv s \<Longrightarrow> n \<le> length (free s) \<Longrightarrow>
   \<exists>s'. alloc_n alloc n s = (take n (free s), s') \<and> inv s' \<and> free s' = drop n (free s) \<and> blocks s' = blocks s"
proof (induction n arbitrary: s)
  case (Suc n)
  then obtain p ps where f: "free s = p # ps" by (cases "free s") auto
  with alloc_some [OF Suc.prems(1)] obtain s1 where
    s1: "alloc s = (p, s1)" "inv s1" "free s1 = ps" "blocks s1 = blocks s" by blast
  with Suc.IH [of s1] Suc.prems(2) f show ?case by auto
qed simp

lemma exec_accounted:
  "inv s \<Longrightarrow> accounted held (free s) (blocks s) \<Longrightarrow>
   \<exists>held' s'. pool_exec alloc dealloc (held, s) ops = Inr (held', s') \<and> inv s' \<and>
     accounted held' (free s') (blocks s') \<and> blocks s' = blocks s"
proof (induction ops arbitrary: held s)
  case (Cons op ops)
  show ?case
  proof (cases op)
    case PAlloc
    show ?thesis
    proof (cases "free s")
      case Nil
      with Cons PAlloc show ?thesis by (simp add: alloc_none)
    next
      case fs: (Cons p ps)
      from alloc_some [OF Cons.prems(1) fs] obtain s1 where
        s1: "alloc s = (p, s1)" "inv s1" "free s1 = ps" "blocks s1 = blocks s" by blast
      have "p \<noteq> nullptr" using Cons.prems fs not_null by (force simp: accounted_def)
      moreover have "accounted (p # held) (free s1) (blocks s1)"
        using Cons.prems(2) s1 fs by (auto simp: accounted_def)
      ultimately show ?thesis using Cons.IH [OF s1(2)] s1 PAlloc by auto
    qed
  next
    case (PFree i)
    show ?thesis
    proof (cases "i < length held")
      case True
      let ?p = "held ! i" and ?rest = "take i held @ drop (Suc i) held"
      have split: "held = take i held @ ?p # drop (Suc i) held" using True by (rule id_take_nth_drop)
      have "?p \<in> blocks s" "?p \<notin> set (free s)"
        using Cons.prems(2) nth_mem [OF True] by (auto simp: accounted_def)
      from dealloc_block [OF Cons.prems(1) this] obtain s1 where
        s1: "dealloc ?p s = Inr s1" "inv s1" "free s1 = ?p # free s" "blocks s1 = blocks s" by blast
      have "distinct (held @ free s)" "set (held @ free s) = blocks s"
        using Cons.prems(2) by (simp_all add: accounted_def)
      then have "accounted ?rest (free s1) (blocks s1)"
        unfolding accounted_def s1 by (subst (asm) (1 2) split) auto
      with Cons.IH [OF s1(2)] s1 PFree True show ?thesis by auto
    qed (use Cons PFree in simp)
  qed
qed simp

end

end
