(* ===== verification/Memory_Pool.thy ===== *)
theory Memory_Pool
  imports Byte_Memory Pool_Interface Config
begin

text \<open>
  \<open>include/memory_pool.h\<close>: the fixed-block pool. Its free list lives inside the free blocks
  themselves, so the model has the bytes of memory: a link is the first eight bytes of a
  free block. The template arguments \<open>BlockSize\<close> and \<open>NumBlocks\<close> are the arguments \<open>BS\<close> and \<open>NB\<close>;
  the address \<open>make_unique\<close> returned is an argument of the constructor. Assertions are on, as
  in every build of the repository (no \<open>NDEBUG\<close>).
\<close>

section \<open>State and operations\<close>

record pool =
  pl_storage :: ptr
  pl_free_head :: ptr
  pl_free_count :: size_t

text \<open>\<open>alignof(std::max_align_t)\<close> on x86-64.\<close>

definition max_align :: size_t where
  "max_align = 16"

definition pool_static_assert :: "size_t \<Rightarrow> size_t \<Rightarrow> bool" where
  "pool_static_assert BS NB \<longleftrightarrow> sizeof_ptr \<le> BS \<and> 0 < NB"

definition kAlignedBlockSize :: "size_t \<Rightarrow> size_t" where
  "kAlignedBlockSize BS = (BS + max_align - 1) AND NOT (max_align - 1)"

text \<open>The loop of the constructor, \<open>i\<close> counting down to zero.\<close>

fun link_blocks :: "size_t \<Rightarrow> ptr \<Rightarrow> nat \<Rightarrow> mem \<Rightarrow> ptr \<Rightarrow> mem \<times> ptr" where
  "link_blocks K st 0 m fh = (m, fh)"
| "link_blocks K st (Suc i) m fh =
     (let block = st + of_nat i * K in link_blocks K st i (store_ptr m block fh) block)"

definition pool_new :: "size_t \<Rightarrow> size_t \<Rightarrow> ptr \<Rightarrow> mem \<Rightarrow> mem \<times> pool" where
  "pool_new BS NB st m =
     (let K = kAlignedBlockSize BS;
          m0 = write_bytes m st (replicate (unat (K * NB)) 0);
          (m1, fh) = link_blocks K st (unat NB) m0 nullptr
      in (m1, \<lparr>pl_storage = st, pl_free_head = fh, pl_free_count = NB\<rparr>))"

definition allocate :: "mem \<Rightarrow> pool \<Rightarrow> ptr \<times> pool" where
  "allocate m pl =
     (if pl_free_head pl = nullptr then (nullptr, pl)
      else (pl_free_head pl,
        pl\<lparr>pl_free_head := load_ptr m (pl_free_head pl), pl_free_count := pl_free_count pl - 1\<rparr>))"

definition owns :: "size_t \<Rightarrow> size_t \<Rightarrow> pool \<Rightarrow> ptr \<Rightarrow> bool" where
  "owns BS NB pl p \<longleftrightarrow> pl_storage pl \<le> p \<and> p < pl_storage pl + kAlignedBlockSize BS * NB"

definition deallocate :: "size_t \<Rightarrow> size_t \<Rightarrow> ptr \<Rightarrow> mem \<Rightarrow> pool \<Rightarrow> (mem \<times> pool) result" where
  "deallocate BS NB p m pl =
     (if p = nullptr then Inr (m, pl)
      else if \<not> owns BS NB pl p then Inl (AssertFailed ''Pointer does not belong to this pool'')
      else Inr (store_ptr m p (pl_free_head pl),
        pl\<lparr>pl_free_head := p, pl_free_count := pl_free_count pl + 1\<rparr>))"

definition free_count :: "pool \<Rightarrow> size_t" where
  "free_count pl = pl_free_count pl"

definition pool_capacity :: "size_t \<Rightarrow> size_t" where
  "pool_capacity NB = NB"

definition block_size :: "size_t \<Rightarrow> size_t" where
  "block_size BS = BS"

section \<open>Geometry, free list and invariant\<close>

text \<open>What the template arguments and the allocation have to satisfy: the static assertions,
  no wrap-around in the rounding of the block size, and storage that is a real object, at a
  non-null address and ending inside the address space.\<close>

definition pool_geometry :: "size_t \<Rightarrow> size_t \<Rightarrow> ptr \<Rightarrow> bool" where
  "pool_geometry BS NB st \<longleftrightarrow> pool_static_assert BS NB \<and> unat BS + 15 < 2 ^ 64 \<and> st \<noteq> nullptr \<and>
     unat st + unat (kAlignedBlockSize BS) * unat NB < 2 ^ 64"

definition block_at :: "size_t \<Rightarrow> ptr \<Rightarrow> nat \<Rightarrow> ptr" where
  "block_at BS st i = st + of_nat i * kAlignedBlockSize BS"

definition pool_blocks :: "size_t \<Rightarrow> size_t \<Rightarrow> ptr \<Rightarrow> ptr list" where
  "pool_blocks BS NB st = map (block_at BS st) [0..<unat NB]"

fun free_list :: "mem \<Rightarrow> ptr \<Rightarrow> ptr list \<Rightarrow> bool" where
  "free_list m p [] \<longleftrightarrow> p = nullptr"
| "free_list m p (x # xs) \<longleftrightarrow> p = x \<and> x \<noteq> nullptr \<and> free_list m (load_ptr m x) xs"

fun walk :: "mem \<Rightarrow> nat \<Rightarrow> ptr \<Rightarrow> ptr list" where
  "walk m 0 p = []"
| "walk m (Suc n) p = p # walk m n (load_ptr m p)"

definition pool_free :: "mem \<Rightarrow> pool \<Rightarrow> ptr list" where
  "pool_free m pl = walk m (unat (pl_free_count pl)) (pl_free_head pl)"

definition pool_inv :: "size_t \<Rightarrow> size_t \<Rightarrow> mem \<Rightarrow> pool \<Rightarrow> bool" where
  "pool_inv BS NB m pl \<longleftrightarrow> pool_geometry BS NB (pl_storage pl) \<and>
     free_list m (pl_free_head pl) (pool_free m pl) \<and> distinct (pool_free m pl) \<and>
     set (pool_free m pl) \<subseteq> set (pool_blocks BS NB (pl_storage pl))"

section \<open>Block arithmetic\<close>

lemma kAlignedBlockSize_unat:
  assumes "unat BS + 15 < 2 ^ 64"
  shows "unat (kAlignedBlockSize BS) = (unat BS + 15) div 16 * 16"
proof -
  let ?x = "BS + 15"
  have x: "unat ?x = unat BS + 15" using assms by (simp add: unat_word_ariths)
  have m: "unat (?x AND 15) = unat ?x mod 16" using unat_and_mask [of 4 ?x] by simp
  then have "?x AND 15 \<le> ?x" by (simp add: word_le_nat_alt)
  then have "unat (?x - (?x AND 15)) = unat ?x - unat ?x mod 16"
    by (simp add: unat_sub m)
  moreover have "?x AND NOT 15 = ?x - (?x AND 15)"
  proof -
    have "?x AND NOT 15 = ?x AND NOT (?x AND 15)" by (rule bit_word_eqI) (auto simp: bit_simps)
    also have "\<dots> = ?x - (?x AND 15)"
      by (rule disjunctive_diff_eq_and_not [symmetric], rule bit_word_eqI) (auto simp: bit_simps)
    finally show ?thesis .
  qed
  then have "kAlignedBlockSize BS = ?x - (?x AND 15)"
    by (simp add: kAlignedBlockSize_def max_align_def add.commute)
  ultimately show ?thesis using x by (simp add: minus_mod_eq_div_mult)
qed

lemma kAlignedBlockSize_bounds:
  assumes "unat BS + 15 < 2 ^ 64"
  shows "unat BS \<le> unat (kAlignedBlockSize BS)" and "unat (kAlignedBlockSize BS) \<le> unat BS + 15"
    and "16 dvd unat (kAlignedBlockSize BS)"
proof -
  have "n \<le> (n + 15) div 16 * 16" "(n + 15) div 16 * 16 \<le> n + 15" for n :: nat by presburger+
  with kAlignedBlockSize_unat [OF assms] show "unat BS \<le> unat (kAlignedBlockSize BS)"
    "unat (kAlignedBlockSize BS) \<le> unat BS + 15" "16 dvd unat (kAlignedBlockSize BS)" by simp_all
qed

lemma pool_geometryD:
  assumes "pool_geometry BS NB st"
  shows "8 \<le> unat (kAlignedBlockSize BS)" and "0 < unat NB" and "0 < unat st"
    and "unat st + unat (kAlignedBlockSize BS) * unat NB < 2 ^ 64"
    and "unat BS \<le> unat (kAlignedBlockSize BS)"
proof -
  have b: "8 \<le> unat BS" "unat BS + 15 < 2 ^ 64" "0 < unat NB" "0 < unat st"
    "unat st + unat (kAlignedBlockSize BS) * unat NB < 2 ^ 64"
    using assms
    by (auto simp: pool_geometry_def pool_static_assert_def sizeof_ptr_def word_le_nat_alt
        word_less_nat_alt unat_gt_0)
  from b(3-5) show "0 < unat NB" "0 < unat st"
    "unat st + unat (kAlignedBlockSize BS) * unat NB < 2 ^ 64" by auto
  from kAlignedBlockSize_bounds(1) [OF b(2)] b(1)
  show "8 \<le> unat (kAlignedBlockSize BS)" "unat BS \<le> unat (kAlignedBlockSize BS)" by auto
qed

lemma block_end:
  assumes "i < unat NB"
  shows "i * unat (kAlignedBlockSize BS) + unat (kAlignedBlockSize BS) \<le>
    unat (kAlignedBlockSize BS) * unat NB"
  using mult_le_mono1 [of "Suc i" "unat NB" "unat (kAlignedBlockSize BS)"] assms
  by (simp add: mult.commute add.commute)

lemma unat_block_at:
  assumes geo: "pool_geometry BS NB st" and i: "i < unat NB"
  shows "unat (block_at BS st i) = unat st + i * unat (kAlignedBlockSize BS)"
proof -
  note g = pool_geometryD [OF geo]
  have lt: "i * unat (kAlignedBlockSize BS) < 2 ^ 64"
    using block_end [OF i, of BS] g(4) by linarith
  have "i < 2 ^ 64" using i unsigned_less [of NB, where 'a = nat] by simp
  then have "unat (of_nat i * kAlignedBlockSize BS) = i * unat (kAlignedBlockSize BS)"
    using lt by (simp add: unat_word_ariths unat_of_nat)
  moreover have "unat st + i * unat (kAlignedBlockSize BS) < 2 ^ 64"
    using block_end [OF i, of BS] g(4) by linarith
  ultimately show ?thesis by (simp add: block_at_def unat_word_ariths)
qed

lemma block_at_neq_null:
  assumes "pool_geometry BS NB st" and "i < unat NB"
  shows "block_at BS st i \<noteq> nullptr"
  using unat_block_at [OF assms] pool_geometryD(3) [OF assms(1)] by auto

lemma blocks_apart:
  assumes geo: "pool_geometry BS NB st" and i: "i < unat NB" and j: "j < unat NB" and ne: "i \<noteq> j"
    and n: "n \<le> unat (kAlignedBlockSize BS)" and k: "k \<le> unat (kAlignedBlockSize BS)"
  shows "apart (block_at BS st i) n (block_at BS st j) k"
proof -
  let ?K = "unat (kAlignedBlockSize BS)"
  have "i * ?K + ?K \<le> j * ?K \<or> j * ?K + ?K \<le> i * ?K"
    using ne mult_le_mono1 [of "Suc i" j ?K] mult_le_mono1 [of "Suc j" i ?K] by fastforce
  with block_end [OF i, of BS] block_end [OF j, of BS] pool_geometryD(4) [OF geo] n k
  show ?thesis
    unfolding apart_def unat_block_at [OF geo i] unat_block_at [OF geo j] by linarith
qed

lemma block_at_inj:
  assumes "pool_geometry BS NB st" and "i < unat NB" and "j < unat NB"
  shows "block_at BS st i = block_at BS st j \<longleftrightarrow> i = j"
proof -
  have K: "unat (kAlignedBlockSize BS) \<noteq> 0" using pool_geometryD(1) [OF assms(1)] by simp
  have "block_at BS st i = block_at BS st j \<longleftrightarrow>
      i * unat (kAlignedBlockSize BS) = j * unat (kAlignedBlockSize BS)"
    by (simp only: word_unat_eq_iff unat_block_at [OF assms(1,2)] unat_block_at [OF assms(1,3)]
        add_left_cancel)
  with K show ?thesis by simp
qed

lemma distinct_pool_blocks: "pool_geometry BS NB st \<Longrightarrow> distinct (pool_blocks BS NB st)"
  by (auto simp: pool_blocks_def distinct_map inj_on_def block_at_inj)

lemma pool_blocks_owned:
  assumes geo: "pool_geometry BS NB (pl_storage pl)" and p: "p \<in> set (pool_blocks BS NB (pl_storage pl))"
  shows "owns BS NB pl p"
proof -
  note g = pool_geometryD [OF geo]
  from p obtain i where i: "i < unat NB" "p = block_at BS (pl_storage pl) i"
    by (auto simp: pool_blocks_def)
  have e: "unat (pl_storage pl + kAlignedBlockSize BS * NB) =
      unat (pl_storage pl) + unat (kAlignedBlockSize BS) * unat NB"
    using g(4) by (simp add: unat_word_ariths)
  show ?thesis
    unfolding owns_def word_le_nat_alt word_less_nat_alt e i(2) unat_block_at [OF geo i(1)]
    using block_end [OF i(1), of BS] g(1) by linarith
qed

section \<open>The free list\<close>

lemma length_walk [simp]: "length (walk m n p) = n"
  by (induction n arbitrary: p) auto

lemma free_list_walk: "free_list m p xs \<Longrightarrow> walk m (length xs) p = xs"
  by (induction xs arbitrary: p) auto

lemma free_list_cong:
  "(\<And>x. x \<in> set xs \<Longrightarrow> load_ptr m' x = load_ptr m x) \<Longrightarrow> free_list m' p xs = free_list m p xs"
  by (induction xs arbitrary: p) auto

lemma length_pool_free [simp]: "length (pool_free m pl) = unat (pl_free_count pl)"
  by (simp add: pool_free_def)

text \<open>The invariant from a free list known by other means.\<close>

lemma pool_invI:
  assumes "pool_geometry BS NB (pl_storage pl)" and "free_list m (pl_free_head pl) xs"
    and "distinct xs" and "set xs \<subseteq> set (pool_blocks BS NB (pl_storage pl))"
    and "unat (pl_free_count pl) = length xs"
  shows "pool_inv BS NB m pl \<and> pool_free m pl = xs"
proof -
  have "pool_free m pl = xs"
    using free_list_walk [OF assms(2)] by (simp add: pool_free_def assms(5))
  with assms show ?thesis by (simp add: pool_inv_def)
qed

lemma pool_invD:
  assumes "pool_inv BS NB m pl"
  shows "pool_geometry BS NB (pl_storage pl)" and "free_list m (pl_free_head pl) (pool_free m pl)"
    and "distinct (pool_free m pl)"
    and "set (pool_free m pl) \<subseteq> set (pool_blocks BS NB (pl_storage pl))"
  using assms by (simp_all add: pool_inv_def)

lemma pool_free_bound:
  assumes "pool_inv BS NB m pl"
  shows "unat (pl_free_count pl) \<le> unat NB"
proof -
  have "card (set (pool_free m pl)) \<le> card (set (pool_blocks BS NB (pl_storage pl)))"
    by (rule card_mono) (simp_all add: pool_invD(4) [OF assms])
  also have "\<dots> \<le> unat NB" using card_length [of "pool_blocks BS NB (pl_storage pl)"]
    by (simp add: pool_blocks_def)
  finally show ?thesis by (simp add: distinct_card [OF pool_invD(3) [OF assms]])
qed

text \<open>Writing inside a block leaves every other block's link alone.\<close>

lemma load_write_other_block:
  assumes geo: "pool_geometry BS NB st" and b: "b \<in> set (pool_blocks BS NB st)"
    and x: "x \<in> set (pool_blocks BS NB st)" and ne: "x \<noteq> b"
    and len: "length bs \<le> unat (kAlignedBlockSize BS)"
  shows "load_ptr (write_bytes m b bs) x = load_ptr m x"
proof -
  from b x obtain i j where "i < unat NB" "b = block_at BS st i" "j < unat NB" "x = block_at BS st j"
    by (auto simp: pool_blocks_def)
  with ne have "apart x 8 b (length bs)"
    using blocks_apart [OF geo, of j i 8 "length bs"] len pool_geometryD(1) [OF geo] by auto
  then show ?thesis by (rule load_write_apart)
qed

lemma pool_inv_write:
  assumes inv: "pool_inv BS NB m pl" and b: "b \<in> set (pool_blocks BS NB (pl_storage pl))"
    and out: "b \<notin> set (pool_free m pl)" and len: "length bs \<le> unat (kAlignedBlockSize BS)"
  shows "pool_inv BS NB (write_bytes m b bs) pl \<and> pool_free (write_bytes m b bs) pl = pool_free m pl"
proof (rule pool_invI)
  note d = pool_invD [OF inv]
  have "load_ptr (write_bytes m b bs) x = load_ptr m x" if "x \<in> set (pool_free m pl)" for x
    using load_write_other_block [OF d(1) b _ _ len] that d(4) out by blast
  then show "free_list (write_bytes m b bs) (pl_free_head pl) (pool_free m pl)"
    using d(2) free_list_cong by blast
qed (use pool_invD [OF inv] in simp_all)

section \<open>Constructor, allocate, deallocate\<close>

lemma link_blocks_spec:
  assumes geo: "pool_geometry BS NB st"
  shows "i \<le> unat NB \<Longrightarrow> free_list m fh xs \<Longrightarrow> set xs \<subseteq> block_at BS st ` {i..<unat NB} \<Longrightarrow>
    free_list (fst (link_blocks (kAlignedBlockSize BS) st i m fh))
      (snd (link_blocks (kAlignedBlockSize BS) st i m fh)) (map (block_at BS st) [0..<i] @ xs)"
proof (induction i arbitrary: m fh xs)
  case (Suc i)
  let ?b = "block_at BS st i" and ?m = "store_ptr m (block_at BS st i) fh"
  have i: "i < unat NB" using Suc.prems(1) by simp
  have "load_ptr ?m x = load_ptr m x" if "x \<in> set xs" for x
  proof -
    from that Suc.prems(3) have "x \<in> block_at BS st ` {Suc i..<unat NB}" by blast
    then obtain j where j: "Suc i \<le> j" "j < unat NB" "x = block_at BS st j" by auto
    then have "x \<noteq> ?b" using block_at_inj [OF geo] i by auto
    then show ?thesis
      unfolding store_ptr_def using i j pool_geometryD(1) [OF geo]
      by (intro load_write_other_block [OF geo]) (auto simp: pool_blocks_def)
  qed
  then have "free_list ?m fh xs" using Suc.prems(2) free_list_cong by blast
  then have "free_list ?m ?b (?b # xs)" using block_at_neq_null [OF geo i] by simp
  moreover have "set (?b # xs) \<subseteq> block_at BS st ` {i..<unat NB}" using Suc.prems(3) i by auto
  ultimately have "free_list (fst (link_blocks (kAlignedBlockSize BS) st i ?m ?b))
      (snd (link_blocks (kAlignedBlockSize BS) st i ?m ?b)) (map (block_at BS st) [0..<i] @ ?b # xs)"
    using Suc.IH i by simp
  then show ?case by (simp add: Let_def flip: block_at_def)
qed simp

lemma pool_new_inv:
  assumes geo: "pool_geometry BS NB st" and new: "pool_new BS NB st m = (m', pl)"
  shows "pool_inv BS NB m' pl \<and> pool_free m' pl = pool_blocks BS NB st \<and> pl_storage pl = st"
proof -
  let ?m0 = "write_bytes m st (replicate (unat (kAlignedBlockSize BS * NB)) 0)"
  obtain fh where l: "link_blocks (kAlignedBlockSize BS) st (unat NB) ?m0 nullptr = (m', fh)"
    and pl: "pl = \<lparr>pl_storage = st, pl_free_head = fh, pl_free_count = NB\<rparr>"
    using new by (auto simp: pool_new_def Let_def split: prod.splits)
  have "free_list m' fh (pool_blocks BS NB st)"
    using link_blocks_spec [OF geo, of "unat NB" ?m0 nullptr "[]"] l by (simp add: pool_blocks_def)
  then have "pool_inv BS NB m' pl \<and> pool_free m' pl = pool_blocks BS NB st"
    using geo distinct_pool_blocks [OF geo]
    by (intro pool_invI) (simp_all add: pl pool_blocks_def)
  then show ?thesis by (simp add: pl)
qed

lemma allocate_some:
  assumes inv: "pool_inv BS NB m pl" and xs: "pool_free m pl = x # xs"
  shows "\<exists>pl'. allocate m pl = (x, pl') \<and> pool_inv BS NB m pl' \<and> pool_free m pl' = xs \<and>
    pl_storage pl' = pl_storage pl"
proof -
  note d = pool_invD [OF inv]
  let ?pl = "pl\<lparr>pl_free_head := load_ptr m x, pl_free_count := pl_free_count pl - 1\<rparr>"
  have fh: "pl_free_head pl = x" "x \<noteq> nullptr" "free_list m (load_ptr m x) xs"
    using d(2) xs by auto
  have "unat (pl_free_count pl) = Suc (length xs)"
    using length_pool_free [of m pl] xs by (simp del: length_pool_free)
  then have "unat (pl_free_count pl - 1) = length xs"
    by (metis diff_Suc_1 unat_minus_one unat_0 nat.distinct(1))
  then have "pool_inv BS NB m ?pl \<and> pool_free m ?pl = xs"
    using d fh xs by (intro pool_invI) auto
  then show ?thesis using fh by (simp add: allocate_def)
qed

lemma allocate_none:
  assumes "pool_inv BS NB m pl" and "pool_free m pl = []"
  shows "allocate m pl = (nullptr, pl)"
  using pool_invD(2) [OF assms(1)] assms(2) by (simp add: allocate_def)

lemma deallocate_block:
  assumes inv: "pool_inv BS NB m pl" and b: "b \<in> set (pool_blocks BS NB (pl_storage pl))"
    and out: "b \<notin> set (pool_free m pl)"
  shows "\<exists>m' pl'. deallocate BS NB b m pl = Inr (m', pl') \<and> pool_inv BS NB m' pl' \<and>
    pool_free m' pl' = b # pool_free m pl \<and> pl_storage pl' = pl_storage pl"
proof -
  note d = pool_invD [OF inv]
  let ?m = "store_ptr m b (pl_free_head pl)"
  let ?pl = "pl\<lparr>pl_free_head := b, pl_free_count := pl_free_count pl + 1\<rparr>"
  have nn: "b \<noteq> nullptr" using b block_at_neq_null [OF d(1)] by (auto simp: pool_blocks_def)
  have w: "pool_inv BS NB ?m pl \<and> pool_free ?m pl = pool_free m pl"
    unfolding store_ptr_def using pool_geometryD(1) [OF d(1)] by (intro pool_inv_write [OF inv b out]) simp
  then have fl: "free_list ?m (pl_free_head pl) (pool_free m pl)" using pool_invD(2) by metis
  have "unat (pl_free_count pl) < unat NB"
  proof -
    have "card (insert b (set (pool_free m pl))) \<le> card (set (pool_blocks BS NB (pl_storage pl)))"
      by (rule card_mono) (use b d(4) in auto)
    also have "\<dots> \<le> unat NB" using card_length [of "pool_blocks BS NB (pl_storage pl)"]
      by (simp add: pool_blocks_def)
    finally show ?thesis using out by (simp add: distinct_card [OF d(3)])
  qed
  then have "unat (pl_free_count pl + 1) = Suc (unat (pl_free_count pl))"
    using unsigned_less [of NB, where 'a = nat] by (simp add: unat_word_ariths)
  then have "pool_inv BS NB ?m ?pl \<and> pool_free ?m ?pl = b # pool_free m pl"
    using d b out nn fl by (intro pool_invI) auto
  moreover have "deallocate BS NB b m pl = Inr (?m, ?pl)"
    using nn pool_blocks_owned [OF d(1) b] by (simp add: deallocate_def)
  ultimately show ?thesis by simp
qed

section \<open>Pools in memory\<close>

text \<open>Several pool objects of one type share the memory; an object is named by a number, as a
  reference to it is. These are the operations as the pool's users call them.\<close>

record pool_world =
  w_mem :: mem
  w_pools :: "nat \<Rightarrow> pool"

definition world_alloc :: "nat \<Rightarrow> pool_world \<Rightarrow> ptr \<times> pool_world" where
  "world_alloc k w =
     (let (p, pl) = allocate (w_mem w) (w_pools w k) in (p, w\<lparr>w_pools := (w_pools w)(k := pl)\<rparr>))"

definition world_dealloc :: "size_t \<Rightarrow> size_t \<Rightarrow> nat \<Rightarrow> ptr \<Rightarrow> pool_world \<Rightarrow> pool_world result" where
  "world_dealloc BS NB k p w =
     bind_result (deallocate BS NB p (w_mem w) (w_pools w k))
       (\<lambda>(m, pl). Inr (w\<lparr>w_mem := m, w_pools := (w_pools w)(k := pl)\<rparr>))"

definition world_inv :: "size_t \<Rightarrow> size_t \<Rightarrow> nat \<Rightarrow> pool_world \<Rightarrow> bool" where
  "world_inv BS NB k w \<longleftrightarrow> pool_inv BS NB (w_mem w) (w_pools w k)"

definition world_free :: "nat \<Rightarrow> pool_world \<Rightarrow> ptr list" where
  "world_free k w = pool_free (w_mem w) (w_pools w k)"

definition world_blocks :: "size_t \<Rightarrow> size_t \<Rightarrow> nat \<Rightarrow> pool_world \<Rightarrow> ptr set" where
  "world_blocks BS NB k w = set (pool_blocks BS NB (pl_storage (w_pools w k)))"

lemmas world_defs = world_alloc_def world_dealloc_def world_inv_def world_free_def world_blocks_def

interpretation mpool: block_pool "world_alloc k" "world_dealloc BS NB k" "world_inv BS NB k"
  "world_free k" "world_blocks BS NB k" for BS NB k
proof unfold_locales
  fix w p ps assume "world_inv BS NB k w" "world_free k w = p # ps"
  then show "\<exists>w'. world_alloc k w = (p, w') \<and> world_inv BS NB k w' \<and> world_free k w' = ps \<and>
      world_blocks BS NB k w' = world_blocks BS NB k w"
    using allocate_some [of BS NB "w_mem w" "w_pools w k" p ps] by (auto simp: world_defs)
next
  fix w assume "world_inv BS NB k w" "world_free k w = []"
  then show "world_alloc k w = (nullptr, w)"
    using allocate_none [of BS NB "w_mem w" "w_pools w k"] by (simp add: world_defs)
next
  fix w show "world_dealloc BS NB k nullptr w = Inr w" by (simp add: world_defs deallocate_def)
next
  fix w p assume "world_inv BS NB k w" "p \<in> world_blocks BS NB k w" "p \<notin> set (world_free k w)"
  then show "\<exists>w'. world_dealloc BS NB k p w = Inr w' \<and> world_inv BS NB k w' \<and>
      world_free k w' = p # world_free k w \<and> world_blocks BS NB k w' = world_blocks BS NB k w"
    using deallocate_block [of BS NB "w_mem w" "w_pools w k" p] by (auto simp: world_defs)
next
  fix w assume "world_inv BS NB k w"
  then show "distinct (world_free k w) \<and> set (world_free k w) \<subseteq> world_blocks BS NB k w"
    by (simp add: world_defs pool_inv_def)
next
  fix w assume "world_inv BS NB k w"
  then show "nullptr \<notin> world_blocks BS NB k w"
    using block_at_neq_null by (force simp: world_defs pool_inv_def pool_blocks_def)
qed

section \<open>Properties\<close>

lemma pool_new_world:
  assumes "pool_geometry BS NB st" and "pool_new BS NB st m = (w_mem w, w_pools w k)"
  shows "world_inv BS NB k w" and "world_free k w = pool_blocks BS NB st"
    and "world_blocks BS NB k w = set (pool_blocks BS NB st)"
  using pool_new_inv [OF assms(1), of m] assms(2) by (simp_all add: world_defs)

lemma sample_geometry: "pool_geometry 64 4 4096"
  by (simp add: pool_geometry_def pool_static_assert_def sizeof_ptr_def kAlignedBlockSize_def max_align_def)

lemma sample_blocks: "pool_blocks 64 4 4096 = [4096, 4160, 4224, 4288]"
  by (simp add: pool_blocks_def block_at_def kAlignedBlockSize_def max_align_def upt_rec)

lemma sample_world:
  obtains w :: pool_world where "pool_new 64 4 4096 (\<lambda>_. 0) = (w_mem w, w_pools w 0)"
  using that [of "\<lparr>w_mem = fst (pool_new 64 4 4096 (\<lambda>_. 0)), w_pools = (\<lambda>_. snd (pool_new 64 4 4096 (\<lambda>_. 0)))\<rparr>"]
  by simp

text \<open>The constructor leaves a pool whose embedded free list links every block exactly once,
  in address order, and whose free count is the number of blocks.\<close>

theorem pool_new_links_all_blocks:
  assumes "pool_geometry BS NB st" and "pool_new BS NB st m = (m', pl)"
  shows "pool_inv BS NB m' pl \<and> free_list m' (pl_free_head pl) (pool_blocks BS NB st) \<and>
    free_count pl = NB \<and> distinct (pool_blocks BS NB st)"
proof -
  have i: "pool_inv BS NB m' pl" "pool_free m' pl = pool_blocks BS NB st"
    using pool_new_inv [OF assms] by auto
  moreover have "free_count pl = NB"
    using assms(2) by (auto simp: free_count_def pool_new_def Let_def split: prod.splits)
  ultimately show ?thesis using pool_invD(2,3) [OF i(1)] by simp
qed

theorem pool_new_links_all_blocks_witness:
  "\<exists>m' pl. pool_new 64 4 4096 (\<lambda>_. 0) = (m', pl) \<and>
    free_list m' (pl_free_head pl) [4096, 4160, 4224, 4288] \<and> free_count pl = 4"
  using pool_new_links_all_blocks [OF sample_geometry]
  by (metis sample_blocks surj_pair)

text \<open>From a fresh pool, \<open>NumBlocks\<close> allocations return the blocks in address order, and the
  next one returns null without changing the pool.\<close>

theorem allocate_until_exhausted:
  assumes "pool_geometry BS NB st" and "pool_new BS NB st m = (w_mem w, w_pools w k)"
  shows "\<exists>w'. alloc_n (world_alloc k) (unat NB) w = (pool_blocks BS NB st, w') \<and>
    world_alloc k w' = (nullptr, w') \<and> free_count (w_pools w' k) = 0"
proof -
  note n = pool_new_world [OF assms]
  have len: "length (pool_blocks BS NB st) = unat NB" by (simp add: pool_blocks_def)
  obtain w' where w': "alloc_n (world_alloc k) (unat NB) w = (take (unat NB) (world_free k w), w')"
    "world_inv BS NB k w'" "world_free k w' = drop (unat NB) (world_free k w)"
    using mpool.alloc_n_spec [OF n(1), of "unat NB"] len n(2) by auto
  then have "world_free k w' = []" by (simp add: n(2) len)
  moreover from this have "unat (pl_free_count (w_pools w' k)) = 0"
    by (metis length_pool_free list.size(3) world_free_def)
  ultimately show ?thesis
    using w' mpool.alloc_none [OF w'(2)] len n(2) by (simp add: free_count_def unat_eq_0)
qed

theorem allocate_until_exhausted_witness:
  "\<exists>w w'. alloc_n (world_alloc 0) 4 w = ([4096, 4160, 4224, 4288], w') \<and> world_alloc 0 w' = (nullptr, w')"
proof -
  obtain w :: pool_world where "pool_new 64 4 4096 (\<lambda>_. 0) = (w_mem w, w_pools w 0)" by (rule sample_world)
  from allocate_until_exhausted [OF sample_geometry this] show ?thesis
    by (auto simp: sample_blocks)
qed

text \<open>C35: Whatever a client allocates and gives back, no assertion fails, the pool stays
  well-formed, and the blocks it holds and the free blocks are together all the blocks, each
  exactly once: no block is handed out twice, and none is leaked.\<close>

theorem pool_blocks_accounted:
  assumes "pool_geometry BS NB st" and "pool_new BS NB st m = (w_mem w, w_pools w k)"
  shows "\<exists>held w'. pool_exec (world_alloc k) (world_dealloc BS NB k) ([], w) ops = Inr (held, w') \<and>
    world_inv BS NB k w' \<and> accounted held (world_free k w') (set (pool_blocks BS NB st)) \<and>
    length held + unat (free_count (w_pools w' k)) = unat NB"
proof -
  note n = pool_new_world [OF assms]
  have "accounted [] (world_free k w) (world_blocks BS NB k w)"
    by (simp add: accounted_def n distinct_pool_blocks [OF assms(1)])
  from mpool.exec_accounted [OF n(1) this, of ops] obtain held w' where
    r: "pool_exec (world_alloc k) (world_dealloc BS NB k) ([], w) ops = Inr (held, w')"
      "world_inv BS NB k w'" and
    acc: "accounted held (world_free k w') (set (pool_blocks BS NB st))"
    by (auto simp: n(3))
  have "length (held @ world_free k w') = length (pool_blocks BS NB st)"
    using acc distinct_pool_blocks [OF assms(1)]
    by (metis accounted_def distinct_card)
  then have "length held + unat (free_count (w_pools w' k)) = unat NB"
    by (simp add: world_free_def free_count_def pool_blocks_def)
  with r acc show ?thesis by blast
qed

theorem pool_blocks_accounted_witness:
  "\<exists>w held w'. pool_exec (world_alloc 0) (world_dealloc 64 4 0) ([], w) [PAlloc, PAlloc, PFree 1] = Inr (held, w') \<and>
    length held + unat (free_count (w_pools w' 0)) = 4"
proof -
  obtain w :: pool_world where "pool_new 64 4 4096 (\<lambda>_. 0) = (w_mem w, w_pools w 0)" by (rule sample_world)
  from pool_blocks_accounted [OF sample_geometry this, of "[PAlloc, PAlloc, PFree 1]"] show ?thesis
    by auto
qed



text \<open>\<open>deallocate\<close> ignores null, stops at the assertion on any pointer outside the storage,
  and on a block in use makes it the next one to be allocated.\<close>

theorem deallocate_outcomes:
  "deallocate BS NB nullptr m pl = Inr (m, pl) \<and>
   (p \<noteq> nullptr \<and> \<not> owns BS NB pl p \<longrightarrow>
      deallocate BS NB p m pl = Inl (AssertFailed ''Pointer does not belong to this pool'')) \<and>
   (pool_inv BS NB m pl \<and> p \<in> set (pool_blocks BS NB (pl_storage pl)) \<and> p \<notin> set (pool_free m pl) \<longrightarrow>
      (\<exists>m' pl'. deallocate BS NB p m pl = Inr (m', pl') \<and> pool_inv BS NB m' pl' \<and>
        fst (allocate m' pl') = p \<and> free_count pl' = free_count pl + 1))"
proof -
  have "\<exists>m' pl'. deallocate BS NB p m pl = Inr (m', pl') \<and> pool_inv BS NB m' pl' \<and>
        fst (allocate m' pl') = p \<and> free_count pl' = free_count pl + 1"
    if h: "pool_inv BS NB m pl" "p \<in> set (pool_blocks BS NB (pl_storage pl))" "p \<notin> set (pool_free m pl)"
  proof -
    from deallocate_block [OF h] obtain m' pl' where
      d: "deallocate BS NB p m pl = Inr (m', pl')" "pool_inv BS NB m' pl'"
        "pool_free m' pl' = p # pool_free m pl" by blast
    from allocate_some [OF d(2,3)] have "fst (allocate m' pl') = p" by force
    moreover have "free_count pl' = free_count pl + 1"
      using d(1) pool_geometryD(3) [OF pool_invD(1) [OF h(1)]] h(2)
        block_at_neq_null [OF pool_invD(1) [OF h(1)]]
      by (auto simp: deallocate_def free_count_def pool_blocks_def split: if_splits)
    ultimately show ?thesis using d by blast
  qed
  then show ?thesis by (simp add: deallocate_def)
qed

theorem deallocate_outcomes_witness:
  "deallocate 64 4 32 (\<lambda>_. 0) \<lparr>pl_storage = 4096, pl_free_head = 0, pl_free_count = 0\<rparr> =
    Inl (AssertFailed ''Pointer does not belong to this pool'')"
  using deallocate_outcomes [of 64 4 "\<lambda>_. 0" "\<lparr>pl_storage = 4096, pl_free_head = 0, pl_free_count = 0\<rparr>" 32]
  by (simp add: owns_def)

text \<open>The block size is rounded up to the next multiple of 16, so every block is at least
  \<open>BlockSize\<close> bytes, starts 16-aligned when the storage does, belongs to the pool, and lies
  apart from every other block.\<close>

theorem blocks_aligned_and_disjoint:
  assumes "pool_geometry BS NB (pl_storage pl)" and "16 dvd unat (pl_storage pl)"
    and "i < unat NB" and "j < unat NB" and "i \<noteq> j"
  shows "16 dvd unat (block_at BS (pl_storage pl) i) \<and> unat BS \<le> unat (kAlignedBlockSize BS) \<and>
    unat (kAlignedBlockSize BS) < unat BS + 16 \<and> owns BS NB pl (block_at BS (pl_storage pl) i) \<and>
    apart (block_at BS (pl_storage pl) i) (unat BS) (block_at BS (pl_storage pl) j) (unat BS)"
proof -
  have bs: "unat BS + 15 < 2 ^ 64" using assms(1) by (simp add: pool_geometry_def)
  note b = kAlignedBlockSize_bounds [OF bs]
  have "owns BS NB pl (block_at BS (pl_storage pl) i)"
    using assms(3) by (intro pool_blocks_owned [OF assms(1)]) (auto simp: pool_blocks_def)
  then show ?thesis
    using b assms(2) unat_block_at [OF assms(1,3)] blocks_apart [OF assms(1,3,4,5) b(1) b(1)] by simp
qed

theorem blocks_aligned_and_disjoint_witness:
  "apart (block_at 64 4096 0) 64 (block_at 64 4096 1) 64"
  using blocks_aligned_and_disjoint [of 64 4 "\<lparr>pl_storage = 4096, pl_free_head = 0, pl_free_count = 0\<rparr>" 0 1]
    sample_geometry by simp

end
