(* ===== verification/Pool_Ptr.thy ===== *)
theory Pool_Ptr
  imports Memory_Pool
begin

text \<open>
  \<open>PoolPtr\<close> of \<open>include/memory_pool.h\<close>: the owner of one block that gives it back when it is
  destroyed. It is a template over the pool, so its operations take the pool's as arguments
  (\<open>al\<close> and \<open>de\<close>, each applied to the reference the object keeps). Objects are named by
  numbers, so that moving an object onto itself can be told from moving another.
\<close>

record pool_ptr =
  pp_pool :: nat
  pp_ptr :: ptr

type_synonym 's alloc_op = "nat \<Rightarrow> 's \<Rightarrow> ptr \<times> 's"
type_synonym 's dealloc_op = "nat \<Rightarrow> ptr \<Rightarrow> 's \<Rightarrow> 's result"

definition poolptr_new :: "'s alloc_op \<Rightarrow> nat \<Rightarrow> 's \<Rightarrow> pool_ptr \<times> 's" where
  "poolptr_new al k s = (let (p, s') = al k s in (\<lparr>pp_pool = k, pp_ptr = p\<rparr>, s'))"

definition poolptr_destroy :: "'s dealloc_op \<Rightarrow> pool_ptr \<Rightarrow> 's \<Rightarrow> 's result" where
  "poolptr_destroy de pp s = (if pp_ptr pp \<noteq> nullptr then de (pp_pool pp) (pp_ptr pp) s else Inr s)"

text \<open>The move constructor makes object \<open>i\<close> out of object \<open>j\<close>.\<close>

definition poolptr_move :: "nat \<Rightarrow> nat \<Rightarrow> (nat \<Rightarrow> pool_ptr) \<Rightarrow> nat \<Rightarrow> pool_ptr" where
  "poolptr_move i j objs =
     (let objs1 = objs(i := \<lparr>pp_pool = pp_pool (objs j), pp_ptr = pp_ptr (objs j)\<rparr>)
      in objs1(j := (objs1 j)\<lparr>pp_ptr := nullptr\<rparr>))"

definition poolptr_move_assign ::
  "'s dealloc_op \<Rightarrow> nat \<Rightarrow> nat \<Rightarrow> (nat \<Rightarrow> pool_ptr) \<Rightarrow> 's \<Rightarrow> ((nat \<Rightarrow> pool_ptr) \<times> 's) result" where
  "poolptr_move_assign de i j objs s =
     (if i = j then Inr (objs, s)
      else bind_result
        (if pp_ptr (objs i) \<noteq> nullptr then de (pp_pool (objs i)) (pp_ptr (objs i)) s else Inr s)
        (\<lambda>s'. let objs1 = objs(i := (objs i)\<lparr>pp_ptr := pp_ptr (objs j)\<rparr>)
               in Inr (objs1(j := (objs1 j)\<lparr>pp_ptr := nullptr\<rparr>), s')))"

definition poolptr_get :: "pool_ptr \<Rightarrow> ptr" where
  "poolptr_get pp = pp_ptr pp"

definition poolptr_bool :: "pool_ptr \<Rightarrow> bool" where
  "poolptr_bool pp \<longleftrightarrow> pp_ptr pp \<noteq> nullptr"

definition poolptr_release :: "pool_ptr \<Rightarrow> ptr \<times> pool_ptr" where
  "poolptr_release pp = (pp_ptr pp, pp\<lparr>pp_ptr := nullptr\<rparr>)"

text \<open>A C++ scope that owns one \<open>PoolPtr\<close>: construct, run the body, destroy.\<close>

definition poolptr_scope ::
  "'s alloc_op \<Rightarrow> 's dealloc_op \<Rightarrow> nat \<Rightarrow> (pool_ptr \<Rightarrow> 's \<Rightarrow> 's result) \<Rightarrow> 's \<Rightarrow> 's result" where
  "poolptr_scope al de k body s =
     (let (pp, s1) = poolptr_new al k s
      in bind_result (body pp s1) (poolptr_destroy de pp))"

section \<open>Scopes over any pool\<close>

context block_pool
begin

text \<open>A body that keeps the pool's free list and blocks gets the whole pool back at the end of
  the scope.\<close>

lemma scope_restores:
  assumes "inv s"
    and body: "\<And>pp s1. inv s1 \<Longrightarrow> pp_ptr pp \<in> insert nullptr (blocks s1) \<Longrightarrow> pp_ptr pp \<notin> set (free s1) \<Longrightarrow>
      \<exists>s2. body pp s1 = Inr s2 \<and> inv s2 \<and> free s2 = free s1 \<and> blocks s2 = blocks s1"
  shows "\<exists>s'. poolptr_scope (\<lambda>_. alloc) (\<lambda>_. dealloc) k body s = Inr s' \<and> inv s' \<and>
    free s' = free s \<and> blocks s' = blocks s"
proof (cases "free s")
  case Nil
  let ?pp = "\<lparr>pp_pool = k, pp_ptr = nullptr\<rparr>"
  from body [OF assms(1), of ?pp] Nil obtain s2 where
    "body ?pp s = Inr s2" "inv s2" "free s2 = free s" "blocks s2 = blocks s" by auto
  with alloc_none [OF assms(1) Nil] Nil show ?thesis
    by (simp add: poolptr_scope_def poolptr_new_def poolptr_destroy_def)
next
  case (Cons p ps)
  let ?pp = "\<lparr>pp_pool = k, pp_ptr = p\<rparr>"
  from alloc_some [OF assms(1) Cons] obtain s1 where
    s1: "alloc s = (p, s1)" "inv s1" "free s1 = ps" "blocks s1 = blocks s" by blast
  have p: "p \<in> blocks s" "p \<notin> set ps" "p \<noteq> nullptr"
    using free_blocks [OF assms(1)] not_null [OF assms(1)] Cons by auto
  from body [OF s1(2), of ?pp] p s1 obtain s2 where
    s2: "body ?pp s1 = Inr s2" "inv s2" "free s2 = ps" "blocks s2 = blocks s" by auto
  with dealloc_block [OF s2(2), of p] p obtain s3 where
    "dealloc p s2 = Inr s3" "inv s3" "free s3 = p # ps" "blocks s3 = blocks s" by auto
  with s1 s2 p Cons show ?thesis
    by (simp add: poolptr_scope_def poolptr_new_def poolptr_destroy_def)
qed

end

lemma poolptr_scope_local:
  "poolptr_scope al de k body s = poolptr_scope (\<lambda>_. al k) (\<lambda>_. de k) k body s"
  by (simp add: poolptr_scope_def poolptr_new_def poolptr_destroy_def [abs_def] split_beta cong: if_cong)

section \<open>Properties\<close>

text \<open>At the end of a scope that owns a \<open>PoolPtr\<close>, the pool has exactly the free list it had
  before the scope, also when the allocation failed, for every body that only writes to
  memory it may write to.\<close>

theorem poolptr_scope_restores_pool:
  assumes "world_inv BS NB k w"
    and "\<And>pp w1. world_inv BS NB k w1 \<Longrightarrow> pp_ptr pp \<in> insert nullptr (world_blocks BS NB k w1) \<Longrightarrow>
      pp_ptr pp \<notin> set (world_free k w1) \<Longrightarrow>
      \<exists>w2. body pp w1 = Inr w2 \<and> world_inv BS NB k w2 \<and> world_free k w2 = world_free k w1 \<and>
        world_blocks BS NB k w2 = world_blocks BS NB k w1"
  shows "\<exists>w'. poolptr_scope world_alloc (world_dealloc BS NB) k body w = Inr w' \<and>
    world_inv BS NB k w' \<and> world_free k w' = world_free k w"
proof -
  have "\<exists>w'. poolptr_scope (\<lambda>_. world_alloc k) (\<lambda>_. world_dealloc BS NB k) k body w = Inr w' \<and>
      world_inv BS NB k w' \<and> world_free k w' = world_free k w \<and>
      world_blocks BS NB k w' = world_blocks BS NB k w"
    by (rule mpool.scope_restores [OF assms(1)]) (rule assms(2))
  then show ?thesis unfolding poolptr_scope_local [of world_alloc] by blast
qed

theorem poolptr_scope_restores_pool_witness:
  "\<exists>w w'. poolptr_scope world_alloc (world_dealloc 64 4) 0 (\<lambda>_ w. Inr w) w = Inr w' \<and>
    world_free 0 w' = [4096, 4160, 4224, 4288]"
proof -
  obtain w :: pool_world where "pool_new 64 4 4096 (\<lambda>_. 0) = (w_mem w, w_pools w 0)"
    by (rule sample_world)
  note n = pool_new_world [OF sample_geometry this]
  from poolptr_scope_restores_pool [OF n(1), of "\<lambda>_ w. Inr w"] n(2) show ?thesis
    by (auto simp: sample_blocks)
qed

text \<open>Moving out of a \<open>PoolPtr\<close> transfers the block: the source becomes null and its
  destruction does nothing, so the block is returned once; releasing it leaves the block
  with the caller.\<close>

lemma poolptr_move_transfers:
  assumes "i \<noteq> j"
  shows "pp_ptr (poolptr_move i j objs i) = pp_ptr (objs j) \<and>
    pp_pool (poolptr_move i j objs i) = pp_pool (objs j) \<and>
    \<not> poolptr_bool (poolptr_move i j objs j) \<and>
    poolptr_destroy de (poolptr_move i j objs j) s = Inr s \<and>
    poolptr_destroy de (snd (poolptr_release (objs j))) s = Inr s \<and>
    fst (poolptr_release (objs j)) = poolptr_get (objs j)"
  using assms
  by (simp add: poolptr_move_def poolptr_bool_def poolptr_destroy_def poolptr_release_def poolptr_get_def)

text \<open>Move assignment keeps the target's own pool reference. Between pointers into one pool
  it returns the target's block and takes the source's; but when the source's block comes
  from another pool, destroying the target later hands that block to the wrong pool and
  stops at its assertion.\<close>

theorem poolptr_move_assign_other_pool:
  assumes "i \<noteq> j" and "pp_ptr (objs i) = nullptr" and "pp_ptr (objs j) \<noteq> nullptr"
    and "\<not> owns BS NB (w_pools w (pp_pool (objs i))) (pp_ptr (objs j))"
  shows "\<exists>objs'. poolptr_move_assign (world_dealloc BS NB) i j objs w = Inr (objs', w) \<and>
    poolptr_destroy (world_dealloc BS NB) (objs' i) w =
      Inl (AssertFailed ''Pointer does not belong to this pool'')"
  using assms by (simp add: poolptr_move_assign_def poolptr_destroy_def world_dealloc_def deallocate_def)

theorem poolptr_move_assign_other_pool_witness:
  "\<exists>objs'. poolptr_move_assign (world_dealloc 64 4) 0 1
      ((\<lambda>_. \<lparr>pp_pool = 0, pp_ptr = nullptr\<rparr>)(1 := \<lparr>pp_pool = 1, pp_ptr = 8192\<rparr>))
      \<lparr>w_mem = \<lambda>_. 0, w_pools = \<lambda>n. \<lparr>pl_storage = 4096 * (of_nat n + 1), pl_free_head = 0, pl_free_count = 0\<rparr>\<rparr> =
    Inr (objs', \<lparr>w_mem = \<lambda>_. 0, w_pools = \<lambda>n. \<lparr>pl_storage = 4096 * (of_nat n + 1), pl_free_head = 0, pl_free_count = 0\<rparr>\<rparr>) \<and>
    poolptr_destroy (world_dealloc 64 4) (objs' 0)
      \<lparr>w_mem = \<lambda>_. 0, w_pools = \<lambda>n. \<lparr>pl_storage = 4096 * (of_nat n + 1), pl_free_head = 0, pl_free_count = 0\<rparr>\<rparr> =
      Inl (AssertFailed ''Pointer does not belong to this pool'')"
  by (rule poolptr_move_assign_other_pool)
    (simp_all add: owns_def kAlignedBlockSize_def max_align_def)

end
