(* ===== verification/Latency_Stats.thy ===== *)
theory Latency_Stats
  imports Doubles Config "HOL-Library.Multiset"
begin

text \<open>
  \<open>include/latency_stats.h\<close>: the recorder of round-trip times and its report. Samples are the
  signed 64-bit nanosecond counts of the source; the statistics take the rounding of double
  arithmetic as an argument. The reserved capacity of the vector has no effect on results
  and is left out. The report is the record of the numbers the source prints; \<open>Report_Layout\<close> has the
  text it prints them in.
\<close>

section \<open>Recording\<close>

record latency_stats =
  samples_ns :: "i64 list"

definition stats_new :: "size_t \<Rightarrow> latency_stats" where
  "stats_new reserve_size = \<lparr>samples_ns = []\<rparr>"

definition record_ns :: "i64 \<Rightarrow> latency_stats \<Rightarrow> latency_stats" where
  "record_ns ns st = st\<lparr>samples_ns := samples_ns st @ [ns]\<rparr>"

text \<open>\<open>record(start)\<close> with the value \<open>end_tp\<close> its own call of the clock returned; the
  subtraction is signed.\<close>

definition record_tp :: "i64 \<Rightarrow> i64 \<Rightarrow> latency_stats \<Rightarrow> latency_stats result" where
  "record_tp end_tp start st =
     (let d = sint end_tp - sint start
      in if - (2 ^ 63) \<le> d \<and> d < 2 ^ 63 then Inr (record_ns (of_int d) st) else Inl UB_SignedOverflow)"

definition stats_count :: "latency_stats \<Rightarrow> size_t" where
  "stats_count st = of_nat (length (samples_ns st))"

definition stats_reset :: "latency_stats \<Rightarrow> latency_stats" where
  "stats_reset st = st\<lparr>samples_ns := []\<rparr>"

definition stats_samples :: "latency_stats \<Rightarrow> i64 list" where
  "stats_samples st = samples_ns st"

section \<open>Statistics\<close>

text \<open>\<open>static_cast<double>\<close> of a sample.\<close>

definition dbl :: "(real \<Rightarrow> real) \<Rightarrow> i64 \<Rightarrow> real" where
  "dbl rnd s = rnd (of_int (sint s))"

definition percentile :: "(real \<Rightarrow> real) \<Rightarrow> i64 list \<Rightarrow> real \<Rightarrow> real result" where
  "percentile rnd srt pct =
     (if srt = [] then Inr 0
      else let rank = rnd (rnd (pct / 100) * rnd (of_nat (length srt - 1)))
        in bind_result (to_size_t rank) (\<lambda>lower.
          let upper = lower + 1
          in if length srt \<le> unat upper then Inr (dbl rnd (last srt))
             else let frac = rnd (rank - rnd (of_nat (unat lower)))
               in bind_result (arr_get srt lower) (\<lambda>a.
                  bind_result (arr_get srt upper) (\<lambda>b.
                    Inr (rnd (rnd (dbl rnd a * rnd (1 - frac)) + rnd (dbl rnd b * frac)))))))"

record latency_report =
  rp_label :: string
  rp_samples :: size_t
  rp_min :: real
  rp_max :: real
  rp_mean :: real
  rp_stddev :: real
  rp_median :: real
  rp_p95 :: real
  rp_p99 :: real
  rp_p999 :: real

datatype report = NoSamples string | Report latency_report

text \<open>\<open>std::accumulate\<close> with a double start value: one rounded addition per element.\<close>

definition sum_dbl :: "(real \<Rightarrow> real) \<Rightarrow> i64 list \<Rightarrow> real" where
  "sum_dbl rnd xs = foldl (\<lambda>acc s. rnd (acc + dbl rnd s)) 0 xs"

definition sq_sum :: "(real \<Rightarrow> real) \<Rightarrow> real \<Rightarrow> i64 list \<Rightarrow> real" where
  "sq_sum rnd mean_us xs =
     foldl (\<lambda>acc s. let diff = rnd (rnd (dbl rnd s / 1000) - mean_us) in rnd (acc + rnd (diff * diff))) 0 xs"

definition print_report :: "(real \<Rightarrow> real) \<Rightarrow> string \<Rightarrow> latency_stats \<Rightarrow> report result" where
  "print_report rnd label st =
     (if samples_ns st = [] then Inr (NoSamples label)
      else let srt = sort_key sint (samples_ns st);
               n = length srt;
               sum = sum_dbl rnd srt;
               min_us = rnd (dbl rnd (hd srt) / 1000);
               max_us = rnd (dbl rnd (last srt) / 1000);
               mean_us = rnd (rnd (sum / rnd (of_nat n)) / 1000)
        in bind_result (percentile rnd srt 50) (\<lambda>med.
           bind_result (percentile rnd srt 95) (\<lambda>p95.
           bind_result (percentile rnd srt 99) (\<lambda>p99.
           bind_result (percentile rnd srt (rnd (999 / 10))) (\<lambda>p999.
             Inr (Report \<lparr>rp_label = label, rp_samples = of_nat n, rp_min = min_us, rp_max = max_us,
               rp_mean = mean_us,
               rp_stddev = rnd (sqrt (rnd (sq_sum rnd mean_us srt / rnd (of_nat n)))),
               rp_median = rnd (med / 1000), rp_p95 = rnd (p95 / 1000), rp_p99 = rnd (p99 / 1000),
               rp_p999 = rnd (p999 / 1000)\<rparr>))))))"

section \<open>Index safety for every rounding\<close>

context rounding
begin

lemma percentile_defined:
  assumes "0 \<le> pct" and "pct \<le> 100" and "length xs \<le> 2 ^ 53"
  shows "\<exists>v. percentile rnd xs pct = Inr v"
proof (cases "xs = []")
  case False
  let ?n = "length xs - 1" and ?rank = "rnd (rnd (pct / 100) * rnd (of_nat (length xs - 1)))"
  have n: "?n \<le> 2 ^ 53" using assms(3) by simp
  have "0 \<le> ?rank \<and> ?rank \<le> of_nat ?n"
    using rnd_scaled_count [of "pct / 100" ?n] assms n by (simp add: rnd_nat del: of_nat_diff)
  with to_size_t_count [OF _ _ n, of ?rank] obtain k where
    k: "to_size_t ?rank = Inr k" "unat k \<le> ?n" by auto
  have "unat (k + 1) = Suc (unat k)"
    using k(2) n by (simp add: unat_word_ariths)
  with False k show ?thesis by (auto simp: percentile_def Let_def simp del: of_nat_diff)
qed (simp add: percentile_def)

end

section \<open>Exact percentiles\<close>

text \<open>In exact arithmetic the percentile is linear interpolation at the rank.\<close>

definition at_rank :: "real list \<Rightarrow> real \<Rightarrow> real" where
  "at_rank ys r = (let l = nat \<lfloor>r\<rfloor> in
     if length ys \<le> Suc l then last ys else ys ! l * (1 - (r - of_nat l)) + ys ! Suc l * (r - of_nat l))"

lemma percentile_exact:
  assumes "xs \<noteq> []" and "0 \<le> pct" and "pct \<le> 100" and "length xs \<le> 2 ^ 53"
  shows "percentile (\<lambda>x. x) xs pct =
    Inr (at_rank (map (of_int \<circ> sint) xs) (pct / 100 * of_nat (length xs - 1)))"
proof -
  let ?n = "length xs - 1" and ?rank = "pct / 100 * of_nat (length xs - 1) :: real"
  have n: "?n \<le> 2 ^ 53" using assms(4) by simp
  have "0 \<le> ?rank" "?rank \<le> of_nat ?n"
    using assms(2,3) mult_right_mono [of pct 100 "of_nat ?n"]
    by (auto simp: mult.commute simp del: of_nat_diff)
  with to_size_t_count [OF _ _ n, of ?rank] obtain k where
    k: "to_size_t ?rank = Inr k" "unat k = nat \<lfloor>?rank\<rfloor>" "unat k \<le> ?n" by auto
  have k1: "unat (k + 1) = Suc (unat k)" using k(3) n by (simp add: unat_word_ariths)
  show ?thesis
    using assms(1) k k1
    by (auto simp: percentile_def at_rank_def dbl_def Let_def last_map simp del: of_nat_diff)
qed

lemma interpolate_between:
  fixes a b f :: real
  assumes "a \<le> b" and "0 \<le> f" and "f \<le> 1"
  shows "a \<le> a * (1 - f) + b * f" and "a * (1 - f) + b * f \<le> b"
proof -
  have "0 \<le> (b - a) * f" "(b - a) * f \<le> b - a" using assms by (auto intro: mult_right_le_one_le)
  then show "a \<le> a * (1 - f) + b * f" "a * (1 - f) + b * f \<le> b" by (simp_all add: algebra_simps)
qed

text \<open>The interpolated value lies between the elements around the rank.\<close>

lemma at_rank_bracket:
  assumes "sorted ys" and "0 \<le> r"
  shows "l < length ys \<Longrightarrow> of_nat l \<le> r \<Longrightarrow> ys ! l \<le> at_rank ys r"
    and "l < length ys \<Longrightarrow> r < of_nat (Suc l) \<Longrightarrow> Suc l < length ys \<Longrightarrow> at_rank ys r \<le> ys ! Suc l"
    and "ys \<noteq> [] \<Longrightarrow> at_rank ys r \<le> last ys"
proof -
  let ?k = "nat \<lfloor>r\<rfloor>" and ?f = "r - of_nat (nat \<lfloor>r\<rfloor>)"
  have f: "0 \<le> ?f" "?f \<le> 1" using assms(2) by linarith+
  have in_range: "ys ! ?k \<le> at_rank ys r \<and> at_rank ys r \<le> ys ! Suc ?k" if "Suc ?k < length ys"
    using interpolate_between [OF sorted_nth_mono [OF assms(1), of ?k "Suc ?k"] f] that
    by (simp add: at_rank_def Let_def)
  show "ys ! l \<le> at_rank ys r" if "l < length ys" "of_nat l \<le> r"
  proof (cases "Suc ?k < length ys")
    case True
    have "l \<le> ?k" using that(2) by linarith
    then have "ys ! l \<le> ys ! ?k" using assms(1) True by (simp add: sorted_nth_mono)
    with in_range [OF True] show ?thesis by linarith
  next
    case False
    moreover have "ys ! l \<le> last ys"
      using that(1) assms(1) by (cases "ys = []") (simp_all add: last_conv_nth sorted_nth_mono)
    ultimately show ?thesis by (simp add: at_rank_def)
  qed
  show "at_rank ys r \<le> ys ! Suc l" if "l < length ys" "r < of_nat (Suc l)" "Suc l < length ys"
  proof -
    have kl: "?k \<le> l" using that(2) assms(2) by linarith
    then have "ys ! Suc ?k \<le> ys ! Suc l" using assms(1) that(3) by (simp add: sorted_nth_mono)
    with in_range kl that(3) show ?thesis by force
  qed
  show "at_rank ys r \<le> last ys" if "ys \<noteq> []"
  proof (cases "Suc ?k < length ys")
    case True
    have "ys ! Suc ?k \<le> last ys"
      using assms(1) True that by (simp add: last_conv_nth sorted_nth_mono)
    with in_range [OF True] show ?thesis by linarith
  qed (simp add: at_rank_def)
qed

lemma at_rank_mono:
  assumes "sorted ys" and "ys \<noteq> []" and "0 \<le> r" and "r \<le> s"
  shows "at_rank ys r \<le> at_rank ys s"
proof -
  let ?k = "nat \<lfloor>r\<rfloor>"
  note br = at_rank_bracket [OF assms(1,3)] and bs = at_rank_bracket [OF assms(1), of s]
  consider (same) "nat \<lfloor>s\<rfloor> = ?k" | (later) "of_nat (Suc ?k) \<le> s" using assms(3,4) by linarith
  then show ?thesis
  proof cases
    case same
    have "0 \<le> (ys ! Suc ?k - ys ! ?k) * (s - r)" if "Suc ?k < length ys"
      using assms(1,4) that by (intro mult_nonneg_nonneg) (simp_all add: sorted_nth_mono)
    then show ?thesis using same by (auto simp: at_rank_def Let_def algebra_simps)
  next
    case later
    show ?thesis
    proof (cases "Suc ?k < length ys")
      case True
      have "at_rank ys r \<le> ys ! Suc ?k" using br(2) [of ?k] True assms(3) by linarith
      with bs(1) [of "Suc ?k"] True later assms(3,4) show ?thesis by linarith
    next
      case False
      then have "at_rank ys s = last ys"
        using later assms(3) by (simp add: at_rank_def Let_def) linarith
      with br(3) assms(2) show ?thesis by simp
    qed
  qed
qed

section \<open>Sorting and sums\<close>

lemma map_sint_sort: "map sint (sort_key sint xs) = sort (map sint xs)"
  by (rule properties_for_sort [symmetric]) simp_all

lemma sort_samples_perm:
  fixes xs ys :: "i64 list"
  assumes "mset xs = mset ys"
  shows "sort_key sint xs = sort_key sint ys"
proof -
  have "mset (map sint xs) = mset (map sint ys)" using assms by simp
  then have "sort (map sint xs) = sort (map sint ys)"
    by (metis properties_for_sort sorted_sort mset_sort)
  then have "map sint (sort_key sint xs) = map sint (sort_key sint ys)" by (simp only: map_sint_sort)
  moreover have "inj (sint :: i64 \<Rightarrow> int)" by (simp add: inj_on_def signed_word_eqI)
  ultimately show ?thesis by (simp add: inj_map_eq_map)
qed

lemma foldl_add: "foldl (\<lambda>acc s. acc + f s) (c :: real) xs = c + sum_list (map f xs)"
  by (induction xs arbitrary: c) auto

lemma sum_dbl_exact: "sum_dbl (\<lambda>x. x) xs = sum_list (map (of_int \<circ> sint) xs)"
  using foldl_add [of "of_int \<circ> sint" 0 xs] by (simp add: sum_dbl_def dbl_def comp_def)

lemma sq_sum_exact_nonneg: "0 \<le> sq_sum (\<lambda>x. x) mu xs"
  using foldl_add [of "\<lambda>s. (of_int (sint s) / 1000 - mu) * (of_int (sint s) / 1000 - mu)" 0 xs]
  by (auto simp: sq_sum_def dbl_def Let_def intro!: sum_list_nonneg)

lemma sum_list_between:
  fixes ys :: "real list"
  assumes "sorted ys" and "ys \<noteq> []"
  shows "of_nat (length ys) * hd ys \<le> sum_list ys" and "sum_list ys \<le> of_nat (length ys) * last ys"
proof -
  have lo: "hd ys \<le> y" and hi: "y \<le> last ys" if "y \<in> set ys" for y
    using that assms by (auto simp: in_set_conv_nth hd_conv_nth last_conv_nth sorted_nth_mono)
  have "sum_list (map (\<lambda>_. hd ys) ys) \<le> sum_list (map (\<lambda>y. y) ys)" using lo by (intro sum_list_mono)
  moreover have "sum_list (map (\<lambda>y. y) ys) \<le> sum_list (map (\<lambda>_. last ys) ys)" using hi by (intro sum_list_mono)
  ultimately show "of_nat (length ys) * hd ys \<le> sum_list ys" "sum_list ys \<le> of_nat (length ys) * last ys"
    by (simp_all add: sum_list_triv)
qed

section \<open>Properties\<close>

lemma bind_result_ex:
  "\<exists>v. r = Inr v \<Longrightarrow> (\<And>v. \<exists>w. f v = Inr w) \<Longrightarrow> \<exists>w. bind_result r f = Inr w"
  by auto

lemma print_report_defined:
  assumes "length (samples_ns st) \<le> 2 ^ 53"
  shows "\<exists>r. print_report fl label st = Inr r"
proof (cases "samples_ns st = []")
  case False
  let ?s = "sort_key sint (samples_ns st)"
  have len: "length ?s \<le> 2 ^ 53" using assms by simp
  have "fl (999 / 10) \<le> fl 100" "0 \<le> fl (999 / 10)" by (simp_all add: fl_mono fl_nonneg)
  then have p999: "0 \<le> fl (999 / 10)" "fl (999 / 10) \<le> 100" using ieee.rnd_int [of 100] by simp_all
  show ?thesis
    using ieee.percentile_defined [OF _ _ len, of 50] ieee.percentile_defined [OF _ _ len, of 95]
      ieee.percentile_defined [OF _ _ len, of 99] ieee.percentile_defined [OF p999 len]
    by (simp only: print_report_def False if_False Let_def) (intro bind_result_ex; simp)
qed (simp add: print_report_def)

text \<open>With IEEE double rounding, a report on any set of up to \<open>2 ^ 53\<close> samples is produced
  without undefined behaviour: every percentile's rank converts to an index in range.\<close>

theorem report_always_defined:
  assumes "length (samples_ns st) \<le> 2 ^ 53"
  shows "\<exists>r. print_report fl label st = Inr r"
  using assms by (rule print_report_defined)

theorem report_always_defined_witness:
  "\<exists>r. print_report fl ''RTT'' \<lparr>samples_ns = [1000, 3000, 2000]\<rparr> = Inr r"
  by (rule report_always_defined) simp

text \<open>The report depends on the recorded samples only, not on the order they were recorded
  in, whatever the rounding.\<close>

theorem report_order_independent:
  assumes "mset (samples_ns st) = mset (samples_ns st')"
  shows "print_report rnd label st = print_report rnd label st'"
proof -
  have "samples_ns st = [] \<longleftrightarrow> samples_ns st' = []" using assms by (metis mset_zero_iff)
  then show ?thesis by (simp add: print_report_def sort_samples_perm [OF assms])
qed

theorem report_order_independent_witness:
  "print_report fl ''RTT'' \<lparr>samples_ns = [1, 2]\<rparr> = print_report fl ''RTT'' \<lparr>samples_ns = [2, 1]\<rparr>"
  by (rule report_order_independent) (simp add: add_mset_commute)

text \<open>In exact arithmetic the percentile of sorted samples lies between the smallest and the
  largest, is the smallest at 0 and the largest at 100, and grows with the percentage.\<close>

theorem percentile_exact_correct:
  assumes "sorted (map sint xs)" and "xs \<noteq> []" and "length xs \<le> 2 ^ 53"
    and "0 \<le> p" and "p \<le> q" and "q \<le> 100"
  shows "\<exists>u v. percentile (\<lambda>x. x) xs p = Inr u \<and> percentile (\<lambda>x. x) xs q = Inr v \<and>
    of_int (sint (hd xs)) \<le> u \<and> u \<le> v \<and> v \<le> of_int (sint (last xs)) \<and>
    (p = 0 \<longrightarrow> u = of_int (sint (hd xs))) \<and> (q = 100 \<longrightarrow> v = of_int (sint (last xs)))"
proof -
  let ?ys = "map (of_int \<circ> sint) xs :: real list" and ?n = "of_nat (length xs - 1) :: real"
  let ?u = "at_rank ?ys (p / 100 * ?n)" and ?v = "at_rank ?ys (q / 100 * ?n)"
  have srt: "sorted ?ys" using assms(1) by (simp add: sorted_wrt_map comp_def del: of_int_sint)
  have ne: "?ys \<noteq> []" using assms(2) by simp
  have r: "0 \<le> p / 100 * ?n" "p / 100 * ?n \<le> q / 100 * ?n"
    using assms(4,5) by (auto intro!: mult_right_mono divide_right_mono simp del: of_nat_diff)
  have "hd ?ys \<le> ?u" using at_rank_bracket(1) [OF srt r(1), of 0] ne r(1) by (simp add: hd_conv_nth)
  moreover have "?u \<le> ?v" by (rule at_rank_mono [OF srt ne r])
  moreover have "?v \<le> last ?ys" 
    by (rule at_rank_bracket(3) [OF srt order_trans [OF r] ne])
  moreover have "?u = hd ?ys" if "p = 0"
    using that ne by (auto simp: at_rank_def hd_conv_nth last_conv_nth Suc_le_eq not_less_eq_eq
        dest: le_antisym split: if_splits)
  moreover have "?v = last ?ys" if "q = 100"
    using that assms(2) by (auto simp: at_rank_def Let_def)
  ultimately show ?thesis
    using percentile_exact [OF assms(2) _ _ assms(3), of p] percentile_exact [OF assms(2) _ _ assms(3), of q]
      assms(2,4,5,6) by (auto simp: hd_map last_map)
qed

theorem percentile_exact_correct_witness:
  "\<exists>u v. percentile (\<lambda>x. x) [10, 20, 30] 50 = Inr u \<and> percentile (\<lambda>x. x) [10, 20, 30] 100 = Inr v \<and>
    10 \<le> u \<and> u \<le> v \<and> v = 30"
  using percentile_exact_correct [of "[10, 20, 30]" 50 100] by auto

text \<open>C38: In exact arithmetic the printed statistics are ordered: minimum, median, p95, p99,
  p99.9, maximum; the mean lies between minimum and maximum, and the standard deviation is not
  negative.\<close>

theorem report_exact_ordered:
  assumes "samples_ns st \<noteq> []" and "length (samples_ns st) \<le> 2 ^ 53"
  shows "\<exists>r. print_report (\<lambda>x. x) label st = Inr (Report r) \<and> rp_samples r = stats_count st \<and>
    rp_min r \<le> rp_median r \<and> rp_median r \<le> rp_p95 r \<and> rp_p95 r \<le> rp_p99 r \<and>
    rp_p99 r \<le> rp_p999 r \<and> rp_p999 r \<le> rp_max r \<and>
    rp_min r \<le> rp_mean r \<and> rp_mean r \<le> rp_max r \<and> 0 \<le> rp_stddev r"
proof -
  let ?s = "sort_key sint (samples_ns st)" and ?n = "length (samples_ns st)"
  let ?ys = "map (of_int \<circ> sint) ?s :: real list"
  let ?a = "\<lambda>p. at_rank ?ys (p / 100 * of_nat (length ?s - 1))"
  have ne: "?s \<noteq> []" using assms(1) by (metis length_0_conv length_sort)
  have ne': "?ys \<noteq> []" using ne by simp
  have srt: "sorted ?ys" using sorted_sort_key [of sint "samples_ns st"] by (simp add: sorted_wrt_map comp_def del: of_int_sint)
  have len: "length ?s \<le> 2 ^ 53" using assms(2) by simp
  have pc: "percentile (\<lambda>x. x) ?s p = Inr (?a p)" if "0 \<le> p" "p \<le> 100" for p
    using percentile_exact [OF ne that len] .
  have mono: "?a p \<le> ?a q" if "0 \<le> p" "p \<le> q" for p q
    using that by (intro at_rank_mono [OF srt ne'])
      (auto intro!: mult_right_mono divide_right_mono simp del: of_nat_diff)
  have lo: "of_int (sint (hd ?s)) \<le> ?a 50"
    using at_rank_bracket(1) [OF srt, of "50 / 100 * of_nat (length ?s - 1)" 0] ne assms(1)
    by (simp add: hd_conv_nth)
  have hi: "?a (999 / 10) \<le> of_int (sint (last ?s))"
    using at_rank_bracket(3) [OF srt _ ne', of "999 / 10 / 100 * of_nat (length ?s - 1)"] ne
    by (simp add: last_map)
  have mean: "of_int (sint (hd ?s)) \<le> sum_dbl (\<lambda>x. x) ?s / of_nat ?n"
    "sum_dbl (\<lambda>x. x) ?s / of_nat ?n \<le> of_int (sint (last ?s))"
    using sum_list_between [OF srt ne'] assms(1) ne
    by (simp_all add: sum_dbl_exact hd_map last_map field_simps)
  show ?thesis
    using assms(1) lo hi mean mono [of 50 95] mono [of 95 99] mono [of 99 "999 / 10"] sq_sum_exact_nonneg
    by (simp add: print_report_def Let_def pc dbl_def stats_count_def divide_right_mono)
qed

theorem report_exact_ordered_witness:
  "\<exists>r. print_report (\<lambda>x. x) ''RTT'' \<lparr>samples_ns = [5000, 1000]\<rparr> = Inr (Report r) \<and> rp_min r \<le> rp_median r \<and>
    rp_median r \<le> rp_max r"
  using report_exact_ordered [of "\<lparr>samples_ns = [5000, 1000]\<rparr>" "''RTT''"] by force

text \<open>After a reset the recorder holds exactly the samples recorded since, in order; a sample
  taken with a clock that does not run backwards is the elapsed time and not negative.\<close>

theorem recording_correct:
  assumes "0 \<le> sint start" and "sint start \<le> sint end_tp"
  shows "samples_ns (fold record_ns xs (stats_reset st)) = xs \<and>
    stats_count (fold record_ns xs (stats_reset st)) = of_nat (length xs) \<and>
    (\<exists>ns. record_tp end_tp start st = Inr (record_ns ns st) \<and> sint ns = sint end_tp - sint start \<and> 0 \<le> sint ns)"
proof -
  have fold: "samples_ns (fold record_ns xs st) = samples_ns st @ xs" for st
    by (induction xs arbitrary: st) (auto simp: record_ns_def)
  let ?d = "sint end_tp - sint start"
  have d: "0 \<le> ?d" "?d < 2 ^ 63" using assms sint_lt [of end_tp] by simp_all
  then have "sint (of_int ?d :: i64) = ?d"
    by (simp add: sint_sbintrunc' signed_take_bit_int_eq_self del: of_int_diff)
  then show ?thesis
    using d by (auto simp: fold stats_reset_def stats_count_def record_tp_def Let_def simp del: of_int_diff)
qed

theorem recording_correct_witness:
  "samples_ns (fold record_ns [7, 9] (stats_reset (stats_new 100))) = [7, 9] \<and>
   (\<exists>ns. record_tp 250 100 (stats_new 100) = Inr (record_ns ns (stats_new 100)) \<and> sint ns = 150)"
  using recording_correct [of 100 250 "[7, 9]" "stats_new 100"] by auto

end
