(* ===== verification/Ostream_Format.thy ===== *)
theory Ostream_Format
  imports Doubles Cxx_Strings
begin

text \<open>
  What the sources use of formatted output: fields of a given width, doubles in fixed notation, and the
  box-drawing characters, which are UTF-8 text: a character of a string is a byte, and \<open>setw\<close> counts
  bytes. The number of columns of a line on the terminal is the number of its bytes that do not
  continue a character.
\<close>

section \<open>Fields\<close>

definition setw_left :: "nat \<Rightarrow> string \<Rightarrow> string" where
  "setw_left w text = text @ replicate (w - length text) (CHR '' '')"

definition setw_right :: "nat \<Rightarrow> string \<Rightarrow> string" where
  "setw_right w text = replicate (w - length text) (CHR '' '') @ text"

text \<open>\<open>std::fixed << std::setprecision(p)\<close>: the exact value of the double rounded to \<open>p\<close> decimals, halves to
  even.\<close>

definition zero_pad :: "nat \<Rightarrow> string \<Rightarrow> string" where
  "zero_pad w ds = replicate (w - length ds) (CHR ''0'') @ ds"

definition fixed_digits :: "nat \<Rightarrow> nat \<Rightarrow> string" where
  "fixed_digits p m = nat_to_string (m div 10 ^ p) @
     (if p = 0 then [] else CHR ''.'' # zero_pad p (nat_to_string (m mod 10 ^ p)))"

definition fixed_str :: "nat \<Rightarrow> real \<Rightarrow> string" where
  "fixed_str p x = (if x < 0 then ''-'' else []) @ fixed_digits p (nat (rne (\<bar>x\<bar> * 10 ^ p)))"

section \<open>Boxes\<close>

definition micro :: string where "micro = [CHR 0xC2, CHR 0xB5]"
definition box_char :: "nat \<Rightarrow> string" where "box_char n = [CHR 0xE2, CHR 0x95, char_of n]"
definition line_char :: "nat \<Rightarrow> string" where "line_char n = [CHR 0xE2, CHR 0x94, char_of n]"

definition vbar :: string where "vbar = line_char 0x82"

text \<open>A horizontal line between two corners, and lines printed one after the other.\<close>

definition rule_line :: "nat \<Rightarrow> nat \<Rightarrow> nat \<Rightarrow> string" where
  "rule_line left n right = line_char left @ concat (replicate n (line_char 0x80)) @ line_char right"

definition print_lines :: "string list \<Rightarrow> string" where
  "print_lines ls = concat (map (\<lambda>l. l @ nl) ls)"

section \<open>Columns\<close>

definition continues :: "char \<Rightarrow> bool" where
  "continues ch \<longleftrightarrow> 128 \<le> (of_char ch :: nat) \<and> (of_char ch :: nat) < 192"

definition columns :: "string \<Rightarrow> nat" where
  "columns s = length (filter (\<lambda>ch. \<not> continues ch) s)"

definition ascii :: "string \<Rightarrow> bool" where
  "ascii s \<longleftrightarrow> list_all (\<lambda>ch. (of_char ch :: nat) < 128) s"

lemma columns_append [simp]: "columns (s @ t) = columns s + columns t"
  by (simp add: columns_def)

lemma columns_Nil [simp]: "columns [] = 0"
  by (simp add: columns_def)

lemma columns_Cons: "columns (c # s) = (if continues c then 0 else 1) + columns s"
  by (simp add: columns_def)

lemma ascii_simps [simp]:
  "ascii []" "ascii (s @ t) \<longleftrightarrow> ascii s \<and> ascii t" "ascii (c # s) \<longleftrightarrow> (of_char c :: nat) < 128 \<and> ascii s"
  by (simp_all add: ascii_def)

lemma ascii_replicate: "(of_char c :: nat) < 128 \<Longrightarrow> ascii (replicate n c)"
  by (simp add: ascii_def list_all_iff)

lemma columns_ascii: "ascii s \<Longrightarrow> columns s = length s"
  by (induction s) (auto simp: columns_Cons continues_def)

lemma columns_spaces [simp]: "columns (replicate n (CHR '' '')) = n"
  by (simp add: columns_ascii ascii_replicate)

lemma columns_setw_left: "columns (setw_left w s) = columns s + (w - length s)"
  by (simp add: setw_left_def)

lemma columns_setw_right: "columns (setw_right w s) = columns s + (w - length s)"
  by (simp add: setw_right_def)

lemma columns_setw_ascii:
  assumes "ascii s" and "length s \<le> w"
  shows "columns (setw_left w s) = w" and "columns (setw_right w s) = w"
  using assms by (simp_all add: columns_setw_left columns_setw_right columns_ascii)

lemma columns_line_char: "128 \<le> n \<Longrightarrow> n < 192 \<Longrightarrow> columns (line_char n) = 1"
  by (simp add: line_char_def columns_Cons continues_def take_bit_eq_mod)

lemma columns_concat_replicate: "columns (concat (replicate n s)) = n * columns s"
  by (induction n) simp_all

lemma columns_rule:
  "128 \<le> l \<Longrightarrow> l < 192 \<Longrightarrow> 128 \<le> r \<Longrightarrow> r < 192 \<Longrightarrow> columns (rule_line l n r) = n + 2"
  by (simp add: rule_line_def columns_line_char columns_concat_replicate)

lemma columns_vbar [simp]: "columns vbar = 1"
  by (simp add: vbar_def columns_line_char)

lemma columns_micro [simp]: "columns micro = 1"
  by (simp add: micro_def columns_Cons continues_def)

section \<open>Numbers\<close>

lemma digit_ascii: "is_digit ch \<Longrightarrow> (of_char ch :: nat) < 128"
  by (simp add: is_digit_def)

lemma nat_to_string_ascii [simp]: "ascii (nat_to_string n)"
  using nat_to_string_digits [of n] by (auto simp: ascii_def list_all_iff dest!: digit_ascii)

lemma fixed_digits_ascii: "ascii (fixed_digits p m)"
  by (simp add: fixed_digits_def zero_pad_def ascii_replicate)

lemma fixed_str_ascii [simp]: "ascii (fixed_str p x)"
  by (simp add: fixed_str_def fixed_digits_ascii)

lemma length_zero_pad: "length ds \<le> w \<Longrightarrow> length (zero_pad w ds) = w"
  by (simp add: zero_pad_def)

lemma length_fixed_digits:
  assumes "0 < k" and "m div 10 ^ p < 10 ^ k"
  shows "length (fixed_digits p m) \<le> k + (if p = 0 then 0 else Suc p)"
proof -
  have "length (nat_to_string (m mod 10 ^ p)) \<le> p" if "p \<noteq> 0" using that by (simp add: length_nat_to_string)
  with length_nat_to_string [OF assms] show ?thesis by (auto simp: fixed_digits_def length_zero_pad)
qed

lemma rne_nonneg: "0 \<le> x \<Longrightarrow> 0 \<le> rne x"
  using rne_mono [of 0 x] rne_int [of 0] by simp

lemma rne_close: "\<bar>of_int (rne x) - x\<bar> \<le> 1 / 2"
  unfolding rne_def Let_def by (cases "x - of_int \<lfloor>x\<rfloor> < 1 / 2") (auto simp: abs_le_iff; linarith)+

text \<open>A number below \<open>10 ^ k\<close> takes at most \<open>k + 1\<close> digits before the point.\<close>

lemma length_fixed_str:
  assumes "\<bar>x\<bar> \<le> 10 ^ k"
  shows "length (fixed_str p x) \<le> k + 2 + (if p = 0 then 0 else Suc p)"
proof -
  have "\<bar>x\<bar> * 10 ^ p \<le> of_int (10 ^ (k + p))" using assms by (simp add: power_add mult_right_mono)
  then have "rne (\<bar>x\<bar> * 10 ^ p) \<le> 10 ^ (k + p)" using rne_mono rne_int by metis
  then have "nat (rne (\<bar>x\<bar> * 10 ^ p)) \<le> 10 ^ (k + p)" by (simp add: nat_le_iff)
  then have "nat (rne (\<bar>x\<bar> * 10 ^ p)) div 10 ^ p \<le> 10 ^ (k + p) div 10 ^ p" by (rule div_le_mono)
  also have "\<dots> = 10 ^ k" by (simp add: power_add)
  also have "\<dots> < (10 :: nat) ^ Suc k" by (rule power_strict_increasing) simp_all
  finally have "nat (rne (\<bar>x\<bar> * 10 ^ p)) div 10 ^ p < 10 ^ Suc k" .
  from length_fixed_digits [OF _ this] show ?thesis by (auto simp: fixed_str_def)
qed

section \<open>Reading back\<close>

definition read_fixed :: "string \<Rightarrow> real" where
  "read_fixed s =
     (let (neg, r) = split_sign s; whole = takeWhile is_digit r; rest = dropWhile is_digit r;
          frac = (if rest \<noteq> [] \<and> hd rest = CHR ''.'' then takeWhile is_digit (tl rest) else []);
          v = of_nat (digits_value whole) + of_nat (digits_value frac) / 10 ^ length frac
      in if neg then - v else v)"

lemma digits_value_empty: "digits_value [] = 0"
  by (simp add: digits_value_def)

lemma digits_value_zeros: "digits_value (replicate n (CHR ''0'') @ ds) = digits_value ds"
  by (induction n) (simp_all add: digits_value_def digit_val_def)

lemma digits_value_zero_pad: "digits_value (zero_pad w (nat_to_string n)) = n"
  by (simp add: zero_pad_def digits_value_zeros digits_value_nat_to_string)

lemma zero_pad_digits: "list_all is_digit (zero_pad w (nat_to_string n))"
  using nat_to_string_digits [of n] by (auto simp: zero_pad_def list_all_iff is_digit_def)

lemma split_fixed_digits: "split_sign (fixed_digits p m @ rest) = (False, fixed_digits p m @ rest)"
proof -
  let ?w = "nat_to_string (m div 10 ^ p)"
  obtain c ds where w: "?w = c # ds" using nat_to_string_nonempty by (cases ?w) blast+
  then have "is_digit c" using nat_to_string_digits [of "m div 10 ^ p"] by simp
  then show ?thesis using digit_not_sign_space(1,2) by (simp add: fixed_digits_def w)
qed

lemma read_unsigned:
  assumes "rest = [] \<or> \<not> is_digit (hd rest) \<and> hd rest \<noteq> CHR ''.''"
  shows "read_fixed (fixed_digits p m @ rest) = of_nat m / 10 ^ p"
proof -
  let ?w = "nat_to_string (m div 10 ^ p)" and ?f = "zero_pad p (nat_to_string (m mod 10 ^ p))"
  note sign = split_fixed_digits [of p m rest]
  have dot: "\<not> is_digit (CHR ''.'')" by (simp add: is_digit_def)
  have m: "of_nat (m div 10 ^ p) + of_nat (m mod 10 ^ p) / 10 ^ p = (of_nat m / 10 ^ p :: real)"
  proof -
    have "real m = of_nat (m div 10 ^ p) * 10 ^ p + of_nat (m mod 10 ^ p)"
      using arg_cong [OF div_mult_mod_eq [of m "10 ^ p", symmetric], of real]
      by (simp only: of_nat_add of_nat_mult of_nat_power of_nat_numeral)
    then show ?thesis by (simp add: add_divide_distrib)
  qed
  show ?thesis
  proof (cases "p = 0")
    case True
    have "takeWhile is_digit (nat_to_string m @ rest) = nat_to_string m"
      using takeWhile_digits [OF nat_to_string_digits] assms by blast
    moreover have "dropWhile is_digit (nat_to_string m @ rest) = rest"
      using nat_to_string_digits [of m] assms by (cases rest) (auto simp: list_all_iff dropWhile_append2)
    ultimately show ?thesis
      using True sign assms by (auto simp: read_fixed_def fixed_digits_def digits_value_nat_to_string digits_value_empty)
  next
    case False
    have "takeWhile is_digit (?w @ CHR ''.'' # ?f @ rest) = ?w"
      using takeWhile_digits [OF nat_to_string_digits, of "CHR ''.'' # ?f @ rest"] dot by simp
    moreover have "dropWhile is_digit (?w @ CHR ''.'' # ?f @ rest) = CHR ''.'' # ?f @ rest"
      using nat_to_string_digits [of "m div 10 ^ p"] dot by (auto simp: list_all_iff dropWhile_append2)
    moreover have "takeWhile is_digit (?f @ rest) = ?f"
      using takeWhile_digits [OF zero_pad_digits] assms by blast
    moreover have "length ?f = p" using False by (simp add: length_zero_pad length_nat_to_string)
    ultimately show ?thesis
      using False sign m dot by (simp add: read_fixed_def fixed_digits_def digits_value_zero_pad digits_value_nat_to_string)
  qed
qed

lemma read_fixed_str:
  assumes "rest = [] \<or> \<not> is_digit (hd rest) \<and> hd rest \<noteq> CHR ''.''"
  shows "read_fixed (fixed_str p x @ rest) = of_int (rne (x * 10 ^ p)) / 10 ^ p"
proof (cases "x < 0")
  case True
  have "rne (\<bar>x\<bar> * 10 ^ p) = - rne (x * 10 ^ p)" using True rne_uminus [of "x * 10 ^ p"] by simp
  moreover have "0 \<le> rne (\<bar>x\<bar> * 10 ^ p)" by (simp add: rne_nonneg)
  moreover have "read_fixed (CHR ''-'' # fixed_digits p m @ rest) = - read_fixed (fixed_digits p m @ rest)" for m
    by (simp add: read_fixed_def Let_def split_fixed_digits)
  ultimately show ?thesis
    using True read_unsigned [OF assms, of p "nat (rne (\<bar>x\<bar> * 10 ^ p))"] by (simp add: fixed_str_def)
next
  case False
  then show ?thesis
    using read_unsigned [OF assms, of p "nat (rne (\<bar>x\<bar> * 10 ^ p))"] rne_nonneg [of "x * 10 ^ p"]
    by (simp add: fixed_str_def)
qed

lemma read_fixed_close: "\<bar>of_int (rne (x * 10 ^ p)) / 10 ^ p - x\<bar> \<le> 1 / (2 * 10 ^ p)"
proof -
  have "\<bar>of_int (rne (x * 10 ^ p)) - x * 10 ^ p\<bar> / 10 ^ p \<le> 1 / 2 / 10 ^ p"
    using rne_close by (intro divide_right_mono) simp_all
  moreover have "of_int (rne (x * 10 ^ p)) / 10 ^ p - x = (of_int (rne (x * 10 ^ p)) - x * 10 ^ p) / 10 ^ p"
    by (simp add: diff_divide_distrib)
  ultimately show ?thesis by (simp add: abs_divide)
qed

end
