(* ===== verification/Report_Layout.thy ===== *)
theory Report_Layout
  imports Latency_Stats Ostream_Format
begin

text \<open>
  The text \<open>LatencyStats::print_report\<close> writes: a box with a row for the label, one for the number of
  samples and eight for the figures, in microseconds with two decimals. The figures can be read back
  from the text; their rows are one column narrower than the frame.
\<close>

section \<open>The box\<close>

definition us_row :: "string \<Rightarrow> real \<Rightarrow> string" where
  "us_row name x = vbar @ name @ setw_left 28 (fixed_str 2 x) @ '' '' @ micro @ ''s '' @ vbar"

definition report_figures :: "latency_report \<Rightarrow> (string \<times> real) list" where
  "report_figures r =
     [(''  Min     : '', rp_min r), (''  Max     : '', rp_max r), (''  Mean    : '', rp_mean r),
      (''  StdDev  : '', rp_stddev r), (''  Median  : '', rp_median r), (''  p95     : '', rp_p95 r),
      (''  p99     : '', rp_p99 r), (''  p99.9   : '', rp_p999 r)]"

definition report_lines :: "latency_report \<Rightarrow> string list" where
  "report_lines r =
     [[],
      rule_line 0x8C 45 0x90,
      vbar @ '' '' @ setw_left 43 (rp_label r) @ '' '' @ vbar,
      rule_line 0x9C 45 0xA4,
      vbar @ ''  Samples : '' @ setw_left 32 (nat_to_string (unat (rp_samples r))) @ vbar] @
     map (\<lambda>(name, x). us_row name x) (report_figures r) @
     [rule_line 0x94 45 0x98,
      []]"

fun report_text :: "report \<Rightarrow> string" where
  "report_text (NoSamples label) = ''['' @ label @ ''] No samples recorded.'' @ nl"
| "report_text (Report r) = print_lines (report_lines r)"

section \<open>Widths\<close>

lemma figure_names: "ascii name \<and> length name = 12 \<and> CHR '':'' \<notin> set (butlast (butlast name)) \<and>
    name = butlast (butlast name) @ '': ''"
  if "(name, x) \<in> set (report_figures r)"
  using that by (auto simp: report_figures_def)

lemma columns_us_row:
  assumes "ascii name" and "\<bar>x\<bar> \<le> 10 ^ 23"
  shows "columns (us_row name x) = length name + 34"
proof -
  have "length (fixed_str 2 x) \<le> 28" using length_fixed_str [OF assms(2), of 2] by simp
  then have "columns (setw_left 28 (fixed_str 2 x)) = 28" by (intro columns_setw_ascii) simp_all
  with assms(1) show ?thesis by (simp add: us_row_def columns_ascii columns_Cons continues_def)
qed

lemma samples_fit: "length (nat_to_string (unat (n :: size_t))) \<le> 20"
proof -
  have "unat n < 2 ^ 64" using unsigned_less [of n] by simp
  then show ?thesis by (intro length_nat_to_string) simp_all
qed

section \<open>Reading the box\<close>

text \<open>The number after the colon of a row.\<close>

definition read_row :: "string \<Rightarrow> real" where
  "read_row line = read_fixed (drop 2 (dropWhile (\<lambda>ch. ch \<noteq> CHR '':'') line))"

lemma read_us_row:
  assumes "name = pre @ '': ''" and "CHR '':'' \<notin> set pre"
  shows "read_row (us_row name x) = of_int (rne (x * 10 ^ 2)) / 10 ^ 2"
proof -
  let ?rest = "replicate (28 - length (fixed_str 2 x)) (CHR '' '') @ '' '' @ micro @ ''s '' @ vbar"
  have "char_of (130 :: nat) \<noteq> CHR '':''"
  proof
    assume "char_of (130 :: nat) = CHR '':''"
    then have "of_char (char_of (130 :: nat)) = (of_char (CHR '':'') :: nat)" by simp
    then show False by (simp add: of_char_of take_bit_eq_mod)
  qed
  then have v: "dropWhile (\<lambda>ch. ch \<noteq> CHR '':'') (vbar @ s) = dropWhile (\<lambda>ch. ch \<noteq> CHR '':'') s" for s
    by (simp add: vbar_def line_char_def)
  have p: "dropWhile (\<lambda>ch. ch \<noteq> CHR '':'') (pre @ CHR '':'' # s) = CHR '':'' # s" for s
    using assms(2) by (induction pre) auto
  have "\<not> is_digit (CHR '' '')" by (simp add: is_digit_def)
  then have "\<not> is_digit (hd ?rest) \<and> hd ?rest \<noteq> CHR ''.''"
    by (cases "28 - length (fixed_str 2 x)") simp_all
  then show ?thesis
    using read_fixed_str [of ?rest 2 x] by (simp add: read_row_def us_row_def assms(1) v p setw_left_def)
qed

section \<open>Properties\<close>

text \<open>C37: What the report prints is what was computed. The eight rows of figures, read back from the text, are the
  minimum, maximum, mean, standard deviation, median, p95, p99 and p99.9, each rounded to the
  nearest of two decimals. The frame and the row of the label take 47 columns, the nine rows of figures
  46, so their right border is out of line by one.\<close>

theorem report_prints_figures:
  assumes "ascii (rp_label r)" and "length (rp_label r) \<le> 43" and "\<forall>(name, x) \<in> set (report_figures r). \<bar>x\<bar> \<le> 10 ^ 23"
  shows "map read_row (take 8 (drop 5 (report_lines r))) =
      map (\<lambda>x. of_int (rne (x * 100)) / 100)
        [rp_min r, rp_max r, rp_mean r, rp_stddev r, rp_median r, rp_p95 r, rp_p99 r, rp_p999 r] \<and>
    map columns (report_lines r) = [0, 47, 47, 47, 46, 46, 46, 46, 46, 46, 46, 46, 46, 47, 0]"
proof
  have rd: "read_row (us_row name x) = of_int (rne (x * 100)) / 100" if "(name, x) \<in> set (report_figures r)" for name x
    using read_us_row [of name "butlast (butlast name)" x] figure_names [OF that] by simp
  have "map read_row (map (\<lambda>(name, x). us_row name x) (report_figures r)) =
      map (\<lambda>x. of_int (rne (x * 100)) / 100) (map snd (report_figures r))"
    using rd by (auto simp: comp_def)
  moreover have "take 8 (drop 5 (report_lines r)) = map (\<lambda>(name, x). us_row name x) (report_figures r)"
    by (simp add: report_lines_def report_figures_def)
  moreover have "map snd (report_figures r) =
      [rp_min r, rp_max r, rp_mean r, rp_stddev r, rp_median r, rp_p95 r, rp_p99 r, rp_p999 r]"
    by (simp add: report_figures_def)
  ultimately show "map read_row (take 8 (drop 5 (report_lines r))) =
      map (\<lambda>x. of_int (rne (x * 100)) / 100)
        [rp_min r, rp_max r, rp_mean r, rp_stddev r, rp_median r, rp_p95 r, rp_p99 r, rp_p999 r]" by simp
next
  have "columns (us_row name x) = 46" if "(name, x) \<in> set (report_figures r)" for name x
    using columns_us_row [of name x] figure_names [OF that] assms(3) that by auto
  then have "map columns (map (\<lambda>(name, x). us_row name x) (report_figures r)) = map (\<lambda>_. 46) (report_figures r)"
    by (auto simp: comp_def)
  moreover have "columns (setw_left 32 (nat_to_string (unat (rp_samples r)))) = 32"
    using samples_fit [of "rp_samples r"] by (intro columns_setw_ascii) simp_all
  ultimately show "map columns (report_lines r) = [0, 47, 47, 47, 46, 46, 46, 46, 46, 46, 46, 46, 46, 47, 0]"
    using columns_setw_ascii(1) [OF assms(1,2)]
    by (simp add: report_lines_def columns_rule columns_Cons continues_def report_figures_def)
qed

theorem report_prints_figures_witness:
  "map read_row (take 8 (drop 5 (report_lines
      \<lparr>rp_label = ''RTT'', rp_samples = 2, rp_min = 1, rp_max = 5 / 2, rp_mean = 7 / 4, rp_stddev = 3 / 4,
       rp_median = 7 / 4, rp_p95 = 2425 / 1000, rp_p99 = 2485 / 1000, rp_p999 = 24985 / 10000\<rparr>))) =
    [1, 5 / 2, 7 / 4, 3 / 4, 7 / 4, 242 / 100, 248 / 100, 25 / 10]"
proof -
  have f: "\<lfloor>485 / 2 :: real\<rfloor> = 242" "\<lfloor>497 / 2 :: real\<rfloor> = 248" "\<lfloor>4997 / 20 :: real\<rfloor> = 249" by (simp_all add: floor_eq_iff)
  show ?thesis
    using report_prints_figures [of "\<lparr>rp_label = ''RTT'', rp_samples = 2, rp_min = 1, rp_max = 5 / 2, rp_mean = 7 / 4, rp_stddev = 3 / 4,
       rp_median = 7 / 4, rp_p95 = 2425 / 1000, rp_p99 = 2485 / 1000, rp_p999 = 24985 / 10000\<rparr>"]
    by (simp add: report_figures_def rne_def Let_def f)
qed

text \<open>The figures read back keep their order and are within half of the last decimal.\<close>

lemma printed_close: "\<bar>of_int (rne (x * 100)) / 100 - x\<bar> \<le> 1 / 200"
  using read_fixed_close [of x 2] by simp

lemma printed_mono: "x \<le> y \<Longrightarrow> of_int (rne (x * 100)) / 100 \<le> (of_int (rne (y * 100)) / 100 :: real)"
  using rne_mono [of "x * 100" "y * 100"] by (simp add: divide_right_mono)

end
