(* ===== verification/Chat_Session.thy ===== *)
theory Chat_Session
  imports Cli Pool_Ptr Report_Layout
begin

text \<open>
  \<open>chat_session\<close> and \<open>print_system_info\<close> of \<open>src/main.cpp\<close>: the interactive session, with its client, its
  memory pool, its statistics and the lines of standard input. Operations are \<open>io\<close> functions of
  the session: they return, throw, or end the program. Standard input is a text; the clock is
  a function of the number of earlier calls; how far the receiver thread gets between two
  operations of the main thread is read off two schedules of the session.
\<close>

section \<open>Standard input\<close>

record cin =
  cin_text :: string
  cin_good :: bool

text \<open>\<open>std::getline(std::cin, input)\<close>: whether the stream converts to true after it, the new value of
  the string, and the stream. A stream that is not good leaves the string alone; a last line
  without a newline is still read, but leaves the stream at its end.\<close>

definition getline :: "cin \<Rightarrow> string \<Rightarrow> bool \<times> string \<times> cin" where
  "getline c old =
     (if \<not> cin_good c then (False, old, c)
      else if cin_text c = [] then (False, '''', c\<lparr>cin_good := False\<rparr>)
      else (True, takeWhile (\<lambda>x. x \<noteq> CHR 0x0A) (cin_text c),
        c\<lparr>cin_text := tl (dropWhile (\<lambda>x. x \<noteq> CHR 0x0A) (cin_text c)),
          cin_good := (CHR 0x0A \<in> set (cin_text c))\<rparr>))"

lemma getline_consumes:
  assumes "getline c old = (True, line, c')"
  shows "length (cin_text c') < length (cin_text c)"
proof -
  have ne: "cin_text c \<noteq> []" and t: "cin_text c' = tl (dropWhile (\<lambda>x. x \<noteq> CHR 0x0A) (cin_text c))"
    using assms by (auto simp: getline_def split: if_splits)
  have "length (tl (dropWhile (\<lambda>x. x \<noteq> CHR 0x0A) (cin_text c))) \<le> length (tl (cin_text c))"
    by (cases "cin_text c") (auto simp: length_dropWhile_le intro: le_trans [OF diff_le_self])
  also have "\<dots> < length (cin_text c)" using ne by simp
  finally show ?thesis by (simp add: t)
qed

section \<open>The session\<close>

text \<open>What is printed: a text, a report, and a text on the error stream; and what of it arrives on standard
  output.\<close>

datatype chat_out = Say string | Show report | Err string

fun stdout_text :: "chat_out \<Rightarrow> string" where
  "stdout_text (Say text) = text"
| "stdout_text (Show r) = report_text r"
| "stdout_text (Err text) = []"

record 'w session =
  se_client :: "'w client"
  se_stats :: latency_stats
  se_world :: pool_world
  se_cin :: cin
  se_input :: string
  se_now :: nat
  se_spins :: "nat list list"
  se_steps :: "nat list"
  se_out :: "chat_out list"

text \<open>What the session runs on. The tag tells the client class: \<open>ws\<close> or \<open>wss\<close>. The last two fields are
  the address the pool's storage is allocated at and the steps the receiver gets while
  \<open>close\<close> waits for it.\<close>

record 'w chat_env =
  ce_api :: "'w beast_api"
  ce_os :: os_api
  ce_tag :: string
  ce_rnd :: "real \<Rightarrow> real"
  ce_clock :: "nat \<Rightarrow> i64"
  ce_storage :: ptr
  ce_join_steps :: nat

type_synonym ('w, 'a) chat = "('w session, 'a) io"

definition say :: "string \<Rightarrow> ('w, unit) chat" where
  "say text s = (Ret (), s\<lparr>se_out := se_out s @ [Say text]\<rparr>)"

definition warn :: "string \<Rightarrow> ('w, unit) chat" where
  "warn text s = (Ret (), s\<lparr>se_out := se_out s @ [Err text]\<rparr>)"

fun of_result :: "'a result \<Rightarrow> 'a outcome" where
  "of_result (Inl e) = Crash e"
| "of_result (Inr x) = Ret x"

definition lift :: "'a result \<Rightarrow> ('w, 'a) chat" where
  "lift r s = (of_result r, s)"

definition now :: "'w chat_env \<Rightarrow> ('w, i64) chat" where
  "now env s = (Ret (ce_clock env (se_now s)), s\<lparr>se_now := Suc (se_now s)\<rparr>)"

definition chat_send_text :: "'w chat_env \<Rightarrow> string \<Rightarrow> ('w, unit) chat" where
  "chat_send_text env msg s =
     (let (r, cl) = send_text (ce_api env) msg (se_client s) in (r, s\<lparr>se_client := cl\<rparr>))"

definition chat_send_binary :: "'w chat_env \<Rightarrow> byte list \<Rightarrow> ('w, unit) chat" where
  "chat_send_binary env data s =
     (let (r, cl) = send_binary (ce_api env) data (se_client s) in (r, s\<lparr>se_client := cl\<rparr>))"

text \<open>\<open>client.spin_receive()\<close> under the next schedule; it hangs when the schedule brings no message.\<close>

fun spin_outcome :: "(message \<times> 'w client) option result \<Rightarrow> nat list list \<Rightarrow> 'w session \<Rightarrow> message outcome \<times> 'w session" where
  "spin_outcome (Inl e) rest s = (Crash e, s)"
| "spin_outcome (Inr None) rest s = (Crash (Hangs ''spin_receive''), s)"
| "spin_outcome (Inr (Some (m, cl))) rest s = (Ret m, s\<lparr>se_client := cl, se_spins := rest\<rparr>)"

definition chat_spin_receive :: "'w chat_env \<Rightarrow> ('w, message) chat" where
  "chat_spin_receive env s =
     (let sched = (case se_spins s of [] \<Rightarrow> [] | sc # _ \<Rightarrow> sc)
      in spin_outcome (spin_receive sched (ce_api env) (ce_os env) (ce_tag env) (se_client s)) (tl (se_spins s)) s)"

text \<open>The receiver thread runs on while the main thread sleeps or waits for input.\<close>

definition let_receiver_run :: "'w chat_env \<Rightarrow> ('w, unit) chat" where
  "let_receiver_run env s =
     (let k = (case se_steps s of [] \<Rightarrow> 0 | n # _ \<Rightarrow> n)
      in case receive_loop k (ce_api env) (ce_os env) (ce_tag env) (se_client s) of
           Inl e \<Rightarrow> (Crash e, s)
         | Inr cl \<Rightarrow> (Ret (), s\<lparr>se_client := cl, se_steps := tl (se_steps s)\<rparr>))"

definition chat_try_receive :: "'w chat_env \<Rightarrow> ('w, message option) chat" where
  "chat_try_receive env s =
     (case try_receive (ce_api env) (se_client s) of
        Inl e \<Rightarrow> (Crash e, s)
      | Inr (m, cl) \<Rightarrow> (Ret m, s\<lparr>se_client := cl\<rparr>))"

definition record_since :: "'w chat_env \<Rightarrow> i64 \<Rightarrow> latency_stats \<Rightarrow> ('w, latency_stats) chat" where
  "record_since env start st = bind_io (now env) (\<lambda>t. lift (record_tp t start st))"

definition show_report :: "'w chat_env \<Rightarrow> string \<Rightarrow> latency_stats \<Rightarrow> ('w, unit) chat" where
  "show_report env label st =
     bind_io (lift (print_report (ce_rnd env) label st)) (\<lambda>r s. (Ret (), s\<lparr>se_out := se_out s @ [Show r]\<rparr>))"

section \<open>The messages\<close>

definition emdash :: string where "emdash = [CHR 0xE2, CHR 0x80, CHR 0x94]"
definition box_bar :: string where "box_bar = concat (replicate 46 (box_char 0x90))"

text \<open>\<open>std::string(n, ' ')\<close> with \<open>n\<close> computed in \<open>size_t\<close>; a negative difference would wrap around.\<close>

definition pad :: "size_t \<Rightarrow> string" where
  "pad n = replicate (unat n) (CHR '' '')"

definition sz :: "string \<Rightarrow> size_t" where
  "sz s = of_nat (length s)"

definition to_str :: "size_t \<Rightarrow> string" where
  "to_str n = nat_to_string (unat n)"

definition cpu_row :: "os_api \<Rightarrow> string" where
  "cpu_row os = (let n = nat_to_string (unat (get_cpu_count os)) in ''  CPU cores     : '' @ n @ pad (28 - sz n))"

definition queue_row :: string where
  "queue_row = (let n = to_str kQueueCapacity in ''  Queue capacity: '' @ n @ pad (28 - sz n))"

definition buffer_row :: string where
  "buffer_row = (let n = to_str (kReadBufferSize div 1024) in ''  Read buffer   : '' @ n @ '' KB'' @ pad (25 - sz n))"

definition pool_row :: string where
  "pool_row = (let n = to_str kPoolNumBlocks; b = to_str kPoolBlockSize
     in ''  Pool blocks   : '' @ n @ '' x '' @ b @ '' B'' @ pad (22 - sz n - sz b))"

definition title_row :: string where
  "title_row = ''   Low Latency WebSocket Client v2.0         ''"

definition box_row :: "string \<Rightarrow> string" where
  "box_row row = box_char 0x91 @ row @ box_char 0x91 @ nl"

definition print_system_info :: "os_api \<Rightarrow> string" where
  "print_system_info os =
     nl @ box_char 0x94 @ box_bar @ box_char 0x97 @ nl @ box_row title_row @
     box_char 0xA0 @ box_bar @ box_char 0xA3 @ nl @
     box_row (cpu_row os) @ box_row queue_row @ box_row buffer_row @ box_row pool_row @
     box_char 0x9A @ box_bar @ box_char 0x9D @ nl @ nl"

definition pool_msg :: "pool \<Rightarrow> string" where
  "pool_msg pl = ''[pool] Free: '' @ to_str (free_count pl) @ '' / '' @ to_str (pool_capacity kPoolNumBlocks) @
     '' blocks ('' @ to_str (free_count pl * block_size kPoolBlockSize div 1024) @ '' KB available)'' @ nl"

definition pool_init_msg :: string where
  "pool_init_msg = ''[pool] Memory pool initialized: '' @ to_str (pool_capacity kPoolNumBlocks) @ '' blocks x '' @
     to_str (block_size kPoolBlockSize) @ '' bytes = '' @
     to_str (pool_capacity kPoolNumBlocks * block_size kPoolBlockSize div 1024) @ '' KB total'' @ nl"

definition menu_text :: string where
  "menu_text = nl @ ''Commands:'' @ nl @
     ''  text    '' @ emdash @ '' Send a text message'' @ nl @
     ''  binary  '' @ emdash @ '' Send a binary message'' @ nl @
     ''  bench   '' @ emdash @ '' Run latency benchmark (100 messages)'' @ nl @
     ''  stats   '' @ emdash @ '' Print latency statistics'' @ nl @
     ''  pool    '' @ emdash @ '' Print memory pool status'' @ nl @
     ''  sysinfo '' @ emdash @ '' Print system configuration'' @ nl @
     ''  /exit   '' @ emdash @ '' Quit'' @ nl @ nl"

definition unknown_msg :: string where
  "unknown_msg = (let q = [CHR 0x27] in ''Unknown command. Type '' @ q @ ''text'' @ q @ '', '' @ q @ ''binary'' @ q @
     '', '' @ q @ ''bench'' @ q @ '', '' @ q @ ''stats'' @ q @ '', '' @ q @ ''pool'' @ q @ '', '' @
     q @ ''sysinfo'' @ q @ '', or '' @ q @ ''/exit'' @ q @ ''.'' @ nl)"

definition bench_msg :: "nat \<Rightarrow> string" where
  "bench_msg i = ''bench_'' @ nat_to_string i"

definition reply_msg :: "string \<Rightarrow> string \<Rightarrow> int \<Rightarrow> string" where
  "reply_msg kind text us = ''[server:'' @ kind @ ''] '' @ text @ ''  (RTT: '' @ int_to_string us @ '' '' @ micro @ ''s)'' @ nl"

section \<open>The benchmark command\<close>

text \<open>A scope that owns a block of the pool: the block goes back when the body returns and when it
  throws.\<close>

definition with_block :: "(pool_ptr \<Rightarrow> ('w, 'a) chat) \<Rightarrow> ('w, 'a) chat" where
  "with_block body s =
     (let (buf, w1) = poolptr_new world_alloc 0 (se_world s);
          (r, s1) = body buf (s\<lparr>se_world := w1\<rparr>)
      in case r of
           Crash e \<Rightarrow> (r, s1)
         | _ \<Rightarrow> (case poolptr_destroy (world_dealloc kPoolBlockSize kPoolNumBlocks) buf (se_world s1) of
               Inl e \<Rightarrow> (Crash e, s1)
             | Inr w2 \<Rightarrow> (r, s1\<lparr>se_world := w2\<rparr>)))"

definition copy_to_block :: "pool_ptr \<Rightarrow> string \<Rightarrow> ('w, unit) chat" where
  "copy_to_block buf msg s =
     (let w = se_world s; n = min (length msg) (unat kPoolBlockSize)
      in (Ret (), s\<lparr>se_world := w\<lparr>w_mem := write_bytes (w_mem w) (poolptr_get buf) (take n (string_bytes msg))\<rparr>\<rparr>))"

definition bench_body :: "'w chat_env \<Rightarrow> nat \<Rightarrow> latency_stats \<Rightarrow> pool_ptr \<Rightarrow> ('w, latency_stats option) chat" where
  "bench_body env i st buf =
     (if \<not> poolptr_bool buf
      then bind_io (warn (''[bench] Pool exhausted at message '' @ nat_to_string i @ nl)) (\<lambda>_. return_io None)
      else
        bind_io (copy_to_block buf (bench_msg i)) (\<lambda>_.
        bind_io (now env) (\<lambda>t_start.
        bind_io (chat_send_text env (bench_msg i)) (\<lambda>_.
        bind_io (chat_spin_receive env) (\<lambda>response.
        bind_io (record_since env t_start st) (\<lambda>st'. return_io (Some st')))))))"

text \<open>The loop from message \<open>i\<close> on, with \<open>n\<close> messages to go.\<close>

fun bench_loop :: "'w chat_env \<Rightarrow> nat \<Rightarrow> nat \<Rightarrow> latency_stats \<Rightarrow> ('w, latency_stats) chat" where
  "bench_loop env i 0 st = return_io st"
| "bench_loop env i (Suc n) st =
     bind_io (with_block (bench_body env i st)) (\<lambda>r.
       case r of None \<Rightarrow> return_io st | Some st' \<Rightarrow> bench_loop env (Suc i) n st')"

definition kBenchMessages :: nat where
  "kBenchMessages = 100"

definition bench_command :: "'w chat_env \<Rightarrow> ('w, unit) chat" where
  "bench_command env =
     bind_io (say (''[bench] Sending '' @ nat_to_string kBenchMessages @ '' messages for latency measurement...'' @ nl)) (\<lambda>_.
     bind_io (bench_loop env 0 kBenchMessages (stats_new (of_nat kBenchMessages))) (\<lambda>st.
     show_report env (''Benchmark Latency ('' @ nat_to_string kBenchMessages @ '' msgs)'') st))"

section \<open>Text and binary messages\<close>

definition record_main :: "'w chat_env \<Rightarrow> i64 \<Rightarrow> ('w, unit) chat" where
  "record_main env start s =
     bind_io (record_since env start (se_stats s)) (\<lambda>st s'. (Ret (), s'\<lparr>se_stats := st\<rparr>)) s"

text \<open>\<open>duration_cast<microseconds>\<close> of the difference of two clock values: the division truncates.\<close>

definition rtt_us :: "i64 \<Rightarrow> i64 \<Rightarrow> int result" where
  "rtt_us t start =
     (let d = sint t - sint start
      in if - (2 ^ 63) \<le> d \<and> d < 2 ^ 63 then Inr (if 0 \<le> d then d div 1000 else - (- d div 1000))
         else Inl UB_SignedOverflow)"

definition exchange :: "'w chat_env \<Rightarrow> string \<Rightarrow> ('w, unit) chat \<Rightarrow> ('w, unit) chat" where
  "exchange env kind send =
     bind_io (now env) (\<lambda>t_start.
     bind_io send (\<lambda>_.
     bind_io (chat_spin_receive env) (\<lambda>response.
     bind_io (record_main env t_start) (\<lambda>_.
     bind_io (now env) (\<lambda>t.
     bind_io (lift (rtt_us t t_start)) (\<lambda>us.
     say (reply_msg kind (payload response) us)))))))"

section \<open>The command loop\<close>

definition read_line :: "('w, bool) chat" where
  "read_line s = (let (ok, line, c) = getline (se_cin s) (se_input s) in (Ret ok, s\<lparr>se_input := line, se_cin := c\<rparr>))"

definition get_session :: "('w, 'w session) chat" where
  "get_session s = (Ret s, s)"

text \<open>What happens with a line that is not empty and not \<open>/exit\<close>; the result says whether the loop
  goes on.\<close>

definition chat_command :: "'w chat_env \<Rightarrow> string \<Rightarrow> ('w, bool) chat" where
  "chat_command env input =
     (if input = ''stats''
      then bind_io get_session (\<lambda>s. bind_io (show_report env ''Round-Trip Latency'' (se_stats s)) (\<lambda>_. return_io True))
      else if input = ''pool''
      then bind_io get_session (\<lambda>s. bind_io (say (pool_msg (w_pools (se_world s) 0))) (\<lambda>_. return_io True))
      else if input = ''sysinfo''
      then bind_io (say (print_system_info (ce_os env))) (\<lambda>_. return_io True)
      else if input = ''bench''
      then bind_io (bench_command env) (\<lambda>_. return_io True)
      else if input = ''text''
      then bind_io (say ''Message: '') (\<lambda>_. bind_io read_line (\<lambda>ok.
        if \<not> ok then return_io False
        else bind_io get_session (\<lambda>s.
          bind_io (exchange env ''text'' (chat_send_text env (se_input s))) (\<lambda>_. return_io True))))
      else if input = ''binary''
      then bind_io (say ''Data: '') (\<lambda>_. bind_io read_line (\<lambda>ok.
        if \<not> ok then return_io False
        else bind_io get_session (\<lambda>s.
          bind_io (exchange env ''binary'' (chat_send_binary env (string_bytes (se_input s)))) (\<lambda>_. return_io True))))
      else bind_io (say unknown_msg) (\<lambda>_. return_io True))"

text \<open>The prompt and the line read after it, if there is one; and what happens with the line.\<close>

definition chat_read :: "('w, string option) chat" where
  "chat_read =
     bind_io (say ''> '') (\<lambda>_.
     bind_io read_line (\<lambda>ok.
     bind_io get_session (\<lambda>s. return_io (if ok then Some (se_input s) else None))))"

definition chat_line :: "'w chat_env \<Rightarrow> string \<Rightarrow> ('w, bool) chat" where
  "chat_line env input =
     (if input = ''/exit'' then return_io False
      else if input = [] then return_io True
      else chat_command env input)"

text \<open>One turn of the loop, from the test of \<open>is_running()\<close> on.\<close>

definition chat_step :: "'w chat_env \<Rightarrow> ('w, bool) chat" where
  "chat_step env =
     bind_io (let_receiver_run env) (\<lambda>_.
     bind_io get_session (\<lambda>s.
       if \<not> is_running (se_client s) then return_io False
       else bind_io chat_read (\<lambda>r.
         case r of None \<Rightarrow> return_io False | Some line \<Rightarrow> chat_line env line)))"

section \<open>Relations the operations respect\<close>

text \<open>An operation that returns or throws relates the session before to the session after. The
  relations of interest are reflexive and transitive, so operations in sequence respect them
  when each does.\<close>

definition obeys :: "('w session \<Rightarrow> 'w session \<Rightarrow> bool) \<Rightarrow> ('w, 'a) chat \<Rightarrow> bool" where
  "obeys R m \<longleftrightarrow> (\<forall>s r s'. m s = (r, s') \<longrightarrow> (\<forall>e. r \<noteq> Crash e) \<longrightarrow> R s s')"

lemma obeysI: "(\<And>s r s'. m s = (r, s') \<Longrightarrow> \<forall>e. r \<noteq> Crash e \<Longrightarrow> R s s') \<Longrightarrow> obeys R m"
  by (auto simp: obeys_def)

lemma obeysD: "obeys R m \<Longrightarrow> m s = (r, s') \<Longrightarrow> \<forall>e. r \<noteq> Crash e \<Longrightarrow> R s s'"
  by (auto simp: obeys_def)

locale session_preorder =
  fixes R :: "'w session \<Rightarrow> 'w session \<Rightarrow> bool"
  assumes reflp: "R s s"
    and trans: "R s1 s2 \<Longrightarrow> R s2 s3 \<Longrightarrow> R s1 s3"
begin

lemma obeys_bind:
  assumes "obeys R m" and "\<And>a. obeys R (k a)"
  shows "obeys R (bind_io m k)"
proof (rule obeysI)
  fix s r s' assume b: "bind_io m k s = (r, s')" and ok: "\<forall>e. r \<noteq> Crash e"
  obtain r1 s1 where m: "m s = (r1, s1)" by (cases "m s")
  show "R s s'"
  proof (cases r1)
    case (Ret a)
    with b m have "k a s1 = (r, s')" by (simp add: bind_io_def)
    with obeysD [OF assms(2) this ok] obeysD [OF assms(1) m] Ret show ?thesis by (auto intro: trans)
  next
    case (Throw e)
    with b m obeysD [OF assms(1) m] show ?thesis by (simp add: bind_io_def)
  next
    case (Crash e)
    with b m ok show ?thesis by (auto simp: bind_io_def)
  qed
qed

lemma obeys_return: "obeys R (return_io a)"
  by (rule obeysI) (simp add: return_io_def reflp)

lemma obeys_get: "obeys R get_session"
  by (rule obeysI) (auto simp: get_session_def reflp)

lemma obeys_lift: "obeys R (lift r)"
  by (rule obeysI) (auto simp: lift_def reflp)

lemma obeys_if: "obeys R a \<Longrightarrow> obeys R b \<Longrightarrow> obeys R (if c then a else b)"
  by simp

lemma obeys_option: "obeys R a \<Longrightarrow> (\<And>x. obeys R (b x)) \<Longrightarrow> obeys R (case c of None \<Rightarrow> a | Some x \<Rightarrow> b x)"
  by (cases c) simp_all

lemmas obeys_rules =
  obeys_bind obeys_return obeys_get obeys_lift obeys_if obeys_option

end

text \<open>The operations that touch neither the pool nor standard input.\<close>

definition same_world_input :: "'w session \<Rightarrow> 'w session \<Rightarrow> bool" where
  "same_world_input s s' \<longleftrightarrow> se_world s' = se_world s \<and> se_cin s' = se_cin s"

interpretation same: session_preorder same_world_input
  by unfold_locales (auto simp: same_world_input_def)

lemma same_say: "obeys same_world_input (say t)"
  by (rule obeysI) (auto simp: say_def same_world_input_def)

lemma same_warn: "obeys same_world_input (warn t)"
  by (rule obeysI) (auto simp: warn_def same_world_input_def)

lemma same_now: "obeys same_world_input (now env)"
  by (rule obeysI) (auto simp: now_def same_world_input_def)

lemma same_send: "obeys same_world_input (chat_send_text env t)"
  "obeys same_world_input (chat_send_binary env d)"
  by (rule obeysI, auto simp: chat_send_text_def chat_send_binary_def same_world_input_def split: prod.splits)+

lemma same_spin: "obeys same_world_input (chat_spin_receive env)"
proof (rule obeysI)
  fix s :: "'a session" and r s'
  assume a: "chat_spin_receive env s = (r, s')" "\<forall>e. r \<noteq> Crash e"
  then obtain res rest where "spin_outcome res rest s = (r, s')" by (auto simp: chat_spin_receive_def Let_def)
  then show "same_world_input s s'"
    using a(2) by (cases "(res, rest, s)" rule: spin_outcome.cases) (auto simp: same_world_input_def)
qed

lemma same_run: "obeys same_world_input (let_receiver_run env)"
  by (rule obeysI) (auto simp: let_receiver_run_def Let_def same_world_input_def split: sum.splits)

lemma same_receive: "obeys same_world_input (chat_try_receive env)"
  by (rule obeysI) (auto simp: chat_try_receive_def same_world_input_def split: sum.splits prod.splits)

lemma same_record_since: "obeys same_world_input (record_since env t st)"
  unfolding record_since_def by (intro same.obeys_rules same_now)

lemma same_show: "obeys same_world_input (show_report env label st)"
  unfolding show_report_def
  by (intro same.obeys_rules obeysI) (auto simp: same_world_input_def)

lemma same_record_main: "obeys same_world_input (record_main env t)"
proof (rule obeysI)
  fix s :: "'a session" and r s' assume "record_main env t s = (r, s')" and ok: "\<forall>e. r \<noteq> Crash e"
  then have "bind_io (record_since env t (se_stats s)) (\<lambda>st s'. (Ret (), s'\<lparr>se_stats := st\<rparr>)) s = (r, s')"
    by (simp add: record_main_def)
  moreover have "obeys same_world_input
      (bind_io (record_since env t (se_stats s)) (\<lambda>st s'. (Ret (), s'\<lparr>se_stats := st\<rparr>)))"
    by (intro same.obeys_bind same_record_since obeysI) (auto simp: same_world_input_def)
  ultimately show "same_world_input s s'" using ok by (blast dest: obeysD)
qed

lemmas same_ops = same_say same_warn same_now same_send same_spin same_run same_receive same_record_since
  same_show same_record_main

lemma same_exchange: "obeys same_world_input send \<Longrightarrow> obeys same_world_input (exchange env kind send)"
  unfolding exchange_def by (intro same.obeys_rules same_ops)

section \<open>Standard input is used up\<close>

definition input_left :: "'w session \<Rightarrow> nat" where
  "input_left s = length (cin_text (se_cin s))"

definition input_shrinks :: "'w session \<Rightarrow> 'w session \<Rightarrow> bool" where
  "input_shrinks s s' \<longleftrightarrow> input_left s' \<le> input_left s"

interpretation input: session_preorder input_shrinks
  by unfold_locales (auto simp: input_shrinks_def)

lemma obeys_mono: "obeys R m \<Longrightarrow> (\<And>s s'. R s s' \<Longrightarrow> R' s s') \<Longrightarrow> obeys R' m"
  by (auto simp: obeys_def)

lemma same_input: "obeys same_world_input m \<Longrightarrow> obeys input_shrinks m"
  by (erule obeys_mono) (simp add: same_world_input_def input_shrinks_def input_left_def)

lemma input_read_line: "obeys input_shrinks read_line"
proof (rule obeysI)
  fix s :: "'a session" and r s' assume "read_line s = (r, s')"
  then show "input_shrinks s s'"
    using getline_consumes [of "se_cin s" "se_input s"]
    by (cases "getline (se_cin s) (se_input s)")
      (auto simp: read_line_def input_shrinks_def input_left_def getline_def split: if_splits intro: less_imp_le)
qed

lemma input_with_block:
  assumes "\<And>buf. obeys input_shrinks (body buf)"
  shows "obeys input_shrinks (with_block body)"
proof (rule obeysI)
  fix s r s' assume w: "with_block body s = (r, s')" and ok: "\<forall>e. r \<noteq> Crash e"
  obtain buf w1 where n: "poolptr_new world_alloc 0 (se_world s) = (buf, w1)"
    by (cases "poolptr_new world_alloc 0 (se_world s)")
  obtain r1 s1 where b: "body buf (s\<lparr>se_world := w1\<rparr>) = (r1, s1)" by (cases "body buf (s\<lparr>se_world := w1\<rparr>)")
  have "\<forall>e. r1 \<noteq> Crash e" and s': "se_cin s' = se_cin s1"
    using w ok n b by (auto simp: with_block_def split: outcome.splits sum.splits)
  from obeysD [OF assms b this(1)] s' show "input_shrinks s s'"
    by (simp add: input_shrinks_def input_left_def)
qed

lemma input_bench: "obeys input_shrinks (bench_body env i st buf)"
proof -
  have "obeys input_shrinks (copy_to_block buf t)" for t
    by (rule obeysI) (auto simp: copy_to_block_def Let_def input_shrinks_def input_left_def)
  then show ?thesis
    unfolding bench_body_def by (intro input.obeys_rules same_ops [THEN same_input])
qed

lemma input_bench_loop: "obeys input_shrinks (bench_loop env i n st)"
  by (induction n arbitrary: i st) (auto intro!: input.obeys_rules input_with_block input_bench)

lemma input_command: "obeys input_shrinks (chat_command env line)"
  unfolding chat_command_def bench_command_def
  by (intro input.obeys_rules same_ops [THEN same_input] same_exchange [THEN same_input] input_read_line
      input_bench_loop same_ops)

lemma input_line: "obeys input_shrinks (chat_line env line)"
  unfolding chat_line_def by (intro input.obeys_rules input_command)

lemma chat_read_consumes:
  assumes "chat_read s = (Ret (Some line), s')"
  shows "input_left s' < input_left s"
proof -
  from assms obtain s1 where r: "say ''> '' s = (Ret (), s1)" "read_line s1 = (Ret True, s')"
    by (auto simp: chat_read_def bind_io_Ret_iff get_session_def return_io_def split: if_splits)
  have "input_left s1 = input_left s"
    using obeysD [OF same_say r(1)] by (simp add: same_world_input_def input_left_def)
  moreover have "input_left s' < input_left s1"
    using r(2) getline_consumes by (auto simp: read_line_def input_left_def split: prod.splits)
  ultimately show ?thesis by simp
qed

lemma chat_step_consumes:
  assumes "chat_step env s = (Ret True, s')"
  shows "input_left s' < input_left s"
proof -
  from assms obtain s1 s2 line where
    r: "let_receiver_run env s = (Ret (), s1)" "chat_read s1 = (Ret (Some line), s2)" "chat_line env line s2 = (Ret True, s')"
    by (auto simp: chat_step_def bind_io_Ret_iff get_session_def return_io_def split: if_splits option.splits)
  have "input_left s1 = input_left s"
    using obeysD [OF same_run r(1)] by (simp add: same_world_input_def input_left_def)
  moreover have "input_left s' \<le> input_left s2" using obeysD [OF input_line r(3)] by (simp add: input_shrinks_def)
  ultimately show ?thesis using chat_read_consumes [OF r(2)] by simp
qed

section \<open>The whole session\<close>

function chat_loop :: "'w chat_env \<Rightarrow> 'w session \<Rightarrow> unit outcome \<times> 'w session" where
  "chat_loop env s =
     (case chat_step env s of
        (Ret b, s') \<Rightarrow> if b then chat_loop env s' else (Ret (), s')
      | (Throw e, s') \<Rightarrow> (Throw e, s')
      | (Crash e, s') \<Rightarrow> (Crash e, s'))"
  by pat_completeness auto

termination
  by (relation "measure (\<lambda>(env, s). input_left s)") (auto dest: chat_step_consumes [OF sym])

declare chat_loop.simps [simp del]

text \<open>Up to 100 looks for the greeting, with the receiver running on while the main thread sleeps.\<close>

fun await_greeting :: "'w chat_env \<Rightarrow> nat \<Rightarrow> ('w, unit) chat" where
  "await_greeting env 0 = return_io ()"
| "await_greeting env (Suc n) =
     bind_io (chat_try_receive env) (\<lambda>msg.
       case msg of
         Some m \<Rightarrow> say (''[server] '' @ payload m @ nl)
       | None \<Rightarrow> bind_io (let_receiver_run env) (\<lambda>_. await_greeting env n))"

definition new_pool :: "'w chat_env \<Rightarrow> ('w, unit) chat" where
  "new_pool env s =
     (let (m, pl) = pool_new kPoolBlockSize kPoolNumBlocks (ce_storage env) (w_mem (se_world s))
      in (Ret (), s\<lparr>se_stats := stats_new 10000, se_input := '''',
           se_world := \<lparr>w_mem = m, w_pools = (w_pools (se_world s))(0 := pl)\<rparr>\<rparr>))"

definition chat_close :: "'w chat_env \<Rightarrow> ('w, unit) chat" where
  "chat_close env s =
     (case client_close (ce_join_steps env) (ce_api env) (ce_os env) (ce_tag env) (se_client s) of
        Inl e \<Rightarrow> (Crash e, s)
      | Inr None \<Rightarrow> (Crash (Hangs ''join of the receiver thread''), s)
      | Inr (Some cl) \<Rightarrow> (Ret (), s\<lparr>se_client := cl\<rparr>))"

definition chat_session :: "'w chat_env \<Rightarrow> ('w, unit) chat" where
  "chat_session env =
     bind_io (new_pool env) (\<lambda>_.
     bind_io (say pool_init_msg) (\<lambda>_.
     bind_io (say (''[*] Waiting for server greeting...'' @ nl)) (\<lambda>_.
     bind_io (await_greeting env 100) (\<lambda>_.
     bind_io (say menu_text) (\<lambda>_.
     bind_io (chat_loop env) (\<lambda>_.
     bind_io get_session (\<lambda>s.
     bind_io (if 0 < stats_count (se_stats s) then show_report env ''Session Latency Summary'' (se_stats s)
              else return_io ()) (\<lambda>_.
     chat_close env))))))))"

end
