(* ===== verification/Tls_Context.thy ===== *)
theory Tls_Context
  imports Cxx_Strings Thread_Utils
begin

text \<open>
  The TLS context \<open>main\<close> sets up before it makes a \<open>SecureWebSocketClient\<close>: where the trusted
  certificates come from on the two platforms, and that the server's certificate is checked.
  OpenSSL and the Windows certificate store are the record \<open>ssl_api\<close>.
\<close>

section \<open>The context\<close>

record tls_ctx =
  tc_verify_peer :: bool
  tc_default_paths :: bool
  tc_store :: "byte list list"

text \<open>How the constructor and the two setters of \<open>ssl::context\<close> end; what
  \<open>CertOpenSystemStoreA(0, "ROOT")\<close> opens, a null handle or the encoded certificates
  \<open>CertEnumCertificatesInStore\<close> then walks through; and \<open>d2i_X509\<close>, which gives null for an encoding
  it cannot parse.\<close>

record ssl_api =
  sa_context :: "unit outcome"
  sa_set_verify_mode :: "unit outcome"
  sa_set_default_paths :: "unit outcome"
  sa_root_store :: "byte list list option"
  sa_d2i_X509 :: "byte list \<Rightarrow> byte list option"

definition ctx_op :: "unit outcome \<Rightarrow> (tls_ctx \<Rightarrow> tls_ctx) \<Rightarrow> (tls_ctx, unit) io" where
  "ctx_op r f c = (case r of Ret _ \<Rightarrow> (r, f c) | _ \<Rightarrow> (r, c))"

definition set_verify_peer :: "ssl_api \<Rightarrow> (tls_ctx, unit) io" where
  "set_verify_peer api = ctx_op (sa_set_verify_mode api) (\<lambda>c. c\<lparr>tc_verify_peer := True\<rparr>)"

definition set_default_verify_paths :: "ssl_api \<Rightarrow> (tls_ctx, unit) io" where
  "set_default_verify_paths api = ctx_op (sa_set_default_paths api) (\<lambda>c. c\<lparr>tc_default_paths := True\<rparr>)"

text \<open>The loop over the store.\<close>

fun add_certs :: "ssl_api \<Rightarrow> byte list list \<Rightarrow> tls_ctx \<Rightarrow> tls_ctx" where
  "add_certs api [] c = c"
| "add_certs api (p # ps) c =
     add_certs api ps (case sa_d2i_X509 api p of None \<Rightarrow> c | Some x \<Rightarrow> c\<lparr>tc_store := tc_store c @ [x]\<rparr>)"

definition certs_msg :: string where
  "certs_msg = ''[tls] Loaded certificates from Windows Certificate Store'' @ nl"

text \<open>The set-up returns what it prints.\<close>

definition load_root_store :: "ssl_api \<Rightarrow> (tls_ctx, string list) io" where
  "load_root_store api c =
     (case sa_root_store api of
        None \<Rightarrow> (Ret [], c)
      | Some certs \<Rightarrow> (Ret [certs_msg], add_certs api certs c))"

definition tls_setup :: "platform \<Rightarrow> ssl_api \<Rightarrow> string list outcome \<times> tls_ctx" where
  "tls_setup pf api =
     bind_io (ctx_op (sa_context api) (\<lambda>c. c)) (\<lambda>_.
       if pf = Win32 then bind_io (set_verify_peer api) (\<lambda>_. load_root_store api)
       else bind_io (set_default_verify_paths api) (\<lambda>_. bind_io (set_verify_peer api) (\<lambda>_. return_io [])))
       \<lparr>tc_verify_peer = False, tc_default_paths = False, tc_store = []\<rparr>"

section \<open>Lemmas\<close>

lemma add_certs_store:
  "tc_store (add_certs api ps c) = tc_store c @ List.map_filter (sa_d2i_X509 api) ps"
  "tc_verify_peer (add_certs api ps c) = tc_verify_peer c"
  "tc_default_paths (add_certs api ps c) = tc_default_paths c"
  by (induction ps arbitrary: c) (auto simp: map_filter_simps split: option.split)

lemma ctx_op_Ret: "ctx_op r f c = (Ret u, c') \<longleftrightarrow> r = Ret u \<and> c' = f c"
  by (cases r) (auto simp: ctx_op_def)

lemma tls_setup_no_crash:
  assumes "\<forall>e. sa_context api \<noteq> Crash e" and "\<forall>e. sa_set_verify_mode api \<noteq> Crash e"
    and "\<forall>e. sa_set_default_paths api \<noteq> Crash e"
  shows "fst (tls_setup pf api) \<noteq> Crash e"
proof -
  have "no_crash (ctx_op r f)" if "\<forall>e. r \<noteq> Crash e" for r f
    using that by (cases r) (auto simp: no_crash_def ctx_op_def)
  moreover have "no_crash (load_root_store api)" "no_crash (return_io x :: (tls_ctx, string list) io)" for x
    by (auto simp: no_crash_def load_root_store_def return_io_def split: option.splits)
  ultimately have "no_crash (bind_io (ctx_op (sa_context api) (\<lambda>c. c)) (\<lambda>_.
       if pf = Win32 then bind_io (set_verify_peer api) (\<lambda>_. load_root_store api)
       else bind_io (set_default_verify_paths api) (\<lambda>_. bind_io (set_verify_peer api) (\<lambda>_. return_io []))))"
    using assms unfolding set_verify_peer_def set_default_verify_paths_def
    by (cases "pf = Win32") (auto intro!: no_crash_bind)
  then show ?thesis unfolding tls_setup_def no_crash_def by (metis prod.collapse)
qed

section \<open>Properties\<close>

text \<open>C27: A TLS context that is set up without an exception checks the server's certificate, on both
  platforms. Elsewhere than on Windows it trusts the default paths; on Windows it trusts exactly the
  certificates of the system's root store that OpenSSL can parse, in their order, and says that it
  loaded them; when the store does not open it trusts nothing and says nothing.\<close>

theorem tls_setup_verifies:
  assumes "tls_setup pf api = (Ret out, c)"
  shows "tc_verify_peer c \<and> (tc_default_paths c \<longleftrightarrow> pf \<noteq> Win32) \<and>
    (pf = Win32 \<longrightarrow>
      (case sa_root_store api of
         None \<Rightarrow> tc_store c = [] \<and> out = []
       | Some certs \<Rightarrow> tc_store c = List.map_filter (sa_d2i_X509 api) certs \<and> out = [certs_msg]))"
  using assms
  by (auto simp: tls_setup_def bind_io_Ret_iff ctx_op_Ret set_verify_peer_def set_default_verify_paths_def
      load_root_store_def return_io_def add_certs_store split: if_splits option.splits)

theorem tls_setup_verifies_witness:
  "\<exists>c. tls_setup Win32 \<lparr>sa_context = Ret (), sa_set_verify_mode = Ret (), sa_set_default_paths = Ret (),
      sa_root_store = Some [[1], [2], [3]], sa_d2i_X509 = (\<lambda>b. if b = [2] then None else Some b)\<rparr> = (Ret [certs_msg], c) \<and>
    tc_verify_peer c \<and> tc_store c = [[1], [3]]"
proof -
  let ?api = "\<lparr>sa_context = Ret (), sa_set_verify_mode = Ret (), sa_set_default_paths = Ret (),
      sa_root_store = Some [[1], [2], [3]], sa_d2i_X509 = (\<lambda>b. if b = [2] then None else Some b)\<rparr>"
  have "\<exists>c. tls_setup Win32 ?api = (Ret [certs_msg], c)"
    by (simp add: tls_setup_def bind_io_def ctx_op_def set_verify_peer_def load_root_store_def)
  then obtain c where c: "tls_setup Win32 ?api = (Ret [certs_msg], c)" ..
  from tls_setup_verifies [OF c] c show ?thesis by (simp add: map_filter_simps)
qed

end
