(* ===== verification/Program.thy ===== *)
theory Program
  imports Chat_Session Tls_Context
begin

text \<open>
  \<open>main\<close> of \<open>src/main.cpp\<close>: the three ways it connects, its exception handlers and its exit status.
  A run gives the exit status, or how the program ended without one, and what it printed.
  With \<open>--reconnect\<close> the chat runs on the client of the connection manager while the manager's
  threads go on.
\<close>

section \<open>Runs on a client\<close>

text \<open>What a run starts from: the build, whether an exception with a given text is a
  \<open>boost::system::system_error\<close>, OpenSSL, the I/O context, the memory
  the pool is allocated in, standard input and the two schedules of the receiver.\<close>

record 'w main_env =
  me_chat :: "'w chat_env"
  me_with_ssl :: bool
  me_system_error :: "string \<Rightarrow> bool"
  me_ssl :: ssl_api
  me_ioc :: 'w
  me_world :: pool_world
  me_cin :: cin
  me_spins :: "nat list list"
  me_steps :: "nat list"

type_synonym run = "i32 outcome \<times> chat_out list"

definition main_session :: "'w main_env \<Rightarrow> string \<Rightarrow> cli_args \<Rightarrow> 'w session" where
  "main_session env tag args =
     \<lparr>se_client = (if tag = ''wss''
        then wss_new (ce_api (me_chat env)) (me_ioc env) (ca_host args) (ca_port args) (main_client_config args)
        else client_new (ce_api (me_chat env)) (me_ioc env) (ca_host args) (ca_port args) (main_client_config args)),
      se_stats = stats_new 0, se_world = me_world env, se_cin = me_cin env, se_input = [], se_now = 0,
      se_spins = me_spins env, se_steps = me_steps env,
      se_out = [Say (print_system_info (ce_os (me_chat env)))]\<rparr>"

definition client_connect :: "'w main_env \<Rightarrow> string \<Rightarrow> ('w, unit) chat" where
  "client_connect env tag s =
     (let (r, cl) = (if tag = ''wss'' then wss_connect else ws_connect) (ce_api (me_chat env)) (se_client s)
      in (r, s\<lparr>se_client := cl\<rparr>))"

text \<open>Leaving the \<open>try\<close> block destroys the client, whether it is left by an exception or not.\<close>

definition destroy_client :: "'w main_env \<Rightarrow> string \<Rightarrow> 'w session \<Rightarrow> cxx_error option" where
  "destroy_client env tag s =
     (let ce = me_chat env
      in case client_destroy (ce_join_steps ce) (ce_api ce) (ce_os ce) tag (se_client s) of
           Inl e \<Rightarrow> Some e
         | Inr None \<Rightarrow> Some (Hangs ''join of the receiver thread'')
         | Inr (Some w) \<Rightarrow> None)"

text \<open>The two handlers of a \<open>try\<close> block; \<open>prefix\<close> is what the first one prints.\<close>

definition catch_msg :: "'w main_env \<Rightarrow> string \<Rightarrow> string \<Rightarrow> string" where
  "catch_msg env prefix e = ''[error] '' @ (if me_system_error env e then prefix else []) @ e @ nl"

definition main_try :: "'w main_env \<Rightarrow> string \<Rightarrow> string \<Rightarrow> ('w, unit) chat \<Rightarrow> 'w session \<Rightarrow> run" where
  "main_try env tag prefix body s =
     (let (r, s1) = body s
      in case r of
           Crash e \<Rightarrow> (Crash e, se_out s1)
         | _ \<Rightarrow> (case destroy_client env tag s1 of
               Some e \<Rightarrow> (Crash e, se_out s1)
             | None \<Rightarrow> (case r of
                   Throw e \<Rightarrow> (Ret 1, se_out s1 @ [Err (catch_msg env prefix e)])
                 | _ \<Rightarrow> (Ret 0, se_out s1))))"

definition connecting_msg :: "cli_args \<Rightarrow> string \<Rightarrow> string" where
  "connecting_msg args how = ''[*] Connecting to '' @ ca_host args @ '':'' @ ca_port args @ how @ ''...'' @ nl"

definition pin_msg :: "os_api \<Rightarrow> cli_args \<Rightarrow> string result" where
  "pin_msg os args =
     bind_result (if sint (ca_pin_core args) < 0 then i32_result (sint (get_cpu_count os) - 1) else Inr (ca_pin_core args))
       (\<lambda>core. Inr (''[*] Receiver thread pinning: core '' @ int_to_string (sint core) @ nl))"

definition main_plain :: "'w main_env \<Rightarrow> cli_args \<Rightarrow> run" where
  "main_plain env args =
     (let ce = (me_chat env)\<lparr>ce_tag := ''ws''\<rparr>
      in main_try env ''ws'' ''Network error: ''
           (bind_io (say (connecting_msg args [])) (\<lambda>_.
            bind_io (if ca_pin_thread args then bind_io (lift (pin_msg (ce_os ce) args)) say else return_io ()) (\<lambda>_.
            bind_io (client_connect env ''ws'') (\<lambda>_. chat_session ce))))
           (main_session env ''ws'' args))"

text \<open>The TLS context is set up before there is a client.\<close>

definition main_tls :: "'w main_env \<Rightarrow> cli_args \<Rightarrow> run" where
  "main_tls env args =
     (let ce = (me_chat env)\<lparr>ce_tag := ''wss''\<rparr>; s = main_session env ''wss'' args
      in case tls_setup (os_platform (ce_os ce)) (me_ssl env) of
           (Crash e, ctx) \<Rightarrow> (Crash e, se_out s)
         | (Throw e, ctx) \<Rightarrow> (Ret 1, se_out s @ [Err (catch_msg env ''TLS/Network error: '' e)])
         | (Ret printed, ctx) \<Rightarrow> main_try env ''wss'' ''TLS/Network error: ''
             (bind_io (say (connecting_msg args '' (TLS)'')) (\<lambda>_.
              bind_io (client_connect env ''wss'') (\<lambda>_. chat_session ce))) (s\<lparr>se_out := se_out s @ map Say printed\<rparr>))"

definition no_ssl_msg :: string where
  "no_ssl_msg = ''[error] SSL support not compiled. Rebuild with -DWS_ENABLE_SSL and link OpenSSL.'' @ nl"

section \<open>Runs on the connection manager\<close>

definition manager_env :: "'w main_env \<Rightarrow> 'w cm_env" where
  "manager_env env = \<lparr>env_api = ce_api (me_chat env), env_os = ce_os (me_chat env),
     env_rnd = ce_rnd (me_chat env), env_steps = ce_join_steps (me_chat env)\<rparr>"

text \<open>The polls of \<open>is_connected()\<close>; the schedule says what the manager's threads do in each sleep.\<close>

fun wait_connected ::
  "nat \<Rightarrow> 'w cm_env \<Rightarrow> cm_action list list \<Rightarrow> 'w conn_manager \<Rightarrow> 'w conn_manager result" where
  "wait_connected 0 env sched cm = Inr cm"
| "wait_connected (Suc n) env sched cm =
     (if cm_is_connected cm then Inr cm
      else bind_result (cm_run env (case sched of [] \<Rightarrow> [] | as # _ \<Rightarrow> as) (Idle, cm)) (\<lambda>(m, cm').
        wait_connected n env (tl sched) cm'))"

section \<open>The chat on the manager's client\<close>

text \<open>\<open>chat_session\<close> gets a reference to the client the manager owns. The manager's threads run on while
  the main thread sleeps, waits for a line or polls for a message; when one of them destroys the client, the reference dangles.
  A new client is another object: reconnecting starts when the old one is gone.\<close>

record 'w managed_chat =
  mc_cm :: "'w conn_manager"
  mc_session :: "'w session"
  mc_alive :: bool

fun managed_acts :: "'w cm_env \<Rightarrow> cm_action list \<Rightarrow> 'w managed_chat \<Rightarrow> unit outcome \<times> 'w managed_chat" where
  "managed_acts env [] mc = (Ret (), mc)"
| "managed_acts env (a # as) mc =
     (case cm_step env a (Idle, mc_cm mc) of
        Inl e \<Rightarrow> (Crash e, mc)
      | Inr (m, cm) \<Rightarrow> managed_acts env as (mc\<lparr>mc_cm := cm, mc_alive := mc_alive mc \<and> cm_client cm \<noteq> None\<rparr>))"

text \<open>A part of the chat that uses the client through the reference, and one that does not.\<close>

definition on_client :: "('w, 'a) chat \<Rightarrow> ('w managed_chat, 'a) io" where
  "on_client m mc =
     (case (mc_alive mc, cm_client (mc_cm mc)) of
        (True, Some cl) \<Rightarrow>
          (let (r, s) = m ((mc_session mc)\<lparr>se_client := cl\<rparr>)
           in (r, mc\<lparr>mc_session := s, mc_cm := (mc_cm mc)\<lparr>cm_client := Some (se_client s)\<rparr>\<rparr>))
      | _ \<Rightarrow> (Crash UB_UseAfterFree, mc))"

definition on_session :: "('w, 'a) chat \<Rightarrow> ('w managed_chat, 'a) io" where
  "on_session m mc = (let (r, s) = m (mc_session mc) in (r, mc\<lparr>mc_session := s\<rparr>))"

definition chat_running :: "('w, bool) chat" where
  "chat_running s = (Ret (is_running (se_client s)), s)"

text \<open>\<open>spin_receive\<close> through the reference. The schedule says what the manager's threads do before each
  poll; a poll is a use of the client. Where the schedule ends the manager's threads stay idle, and
  the polls go on under the schedule the session has for the receiver.\<close>

fun managed_spin :: "'w chat_env \<Rightarrow> 'w cm_env \<Rightarrow> cm_action list list \<Rightarrow> ('w managed_chat, message) io" where
  "managed_spin env cenv [] = on_client (chat_spin_receive env)"
| "managed_spin env cenv (acts # sched) =
     bind_io (managed_acts cenv acts) (\<lambda>_.
     bind_io (on_client (chat_try_receive env)) (\<lambda>r.
       case r of Some msg \<Rightarrow> return_io msg | None \<Rightarrow> managed_spin env cenv sched))"

definition managed_exchange ::
  "'w chat_env \<Rightarrow> 'w cm_env \<Rightarrow> cm_action list list \<Rightarrow> string \<Rightarrow> ('w, unit) chat \<Rightarrow> ('w managed_chat, unit) io" where
  "managed_exchange env cenv polls kind send =
     bind_io (on_session (now env)) (\<lambda>t_start.
     bind_io (on_client send) (\<lambda>_.
     bind_io (managed_spin env cenv polls) (\<lambda>response.
     bind_io (on_session (record_main env t_start)) (\<lambda>_.
     bind_io (on_session (now env)) (\<lambda>t.
     bind_io (on_session (lift (rtt_us t t_start))) (\<lambda>us.
     on_session (say (reply_msg kind (payload response) us))))))))"

text \<open>What the manager's threads do in one turn of the chat: while it waits for the first line, for the
  second line, and in each \<open>spin_receive\<close> of the turn.\<close>

type_synonym turn_sched = "cm_action list \<times> cm_action list \<times> cm_action list list list"

definition next_polls :: "cm_action list list list \<Rightarrow> cm_action list list" where
  "next_polls polls = (case polls of [] \<Rightarrow> [] | p # _ \<Rightarrow> p)"

text \<open>The commands \<open>text\<close> and \<open>binary\<close> prompt for a second line before they use the client.\<close>

definition managed_message ::
  "'w chat_env \<Rightarrow> 'w cm_env \<Rightarrow> cm_action list \<Rightarrow> cm_action list list list \<Rightarrow> string \<Rightarrow> string \<Rightarrow>
   (string \<Rightarrow> ('w, unit) chat) \<Rightarrow> ('w managed_chat, bool) io" where
  "managed_message env cenv acts polls prompt kind send =
     bind_io (on_session (bind_io (say prompt) (\<lambda>_. read_line))) (\<lambda>ok.
       if \<not> ok then return_io False
       else bind_io (managed_acts cenv acts) (\<lambda>_.
         bind_io (on_session get_session) (\<lambda>s.
         bind_io (managed_exchange env cenv (next_polls polls) kind (send (se_input s))) (\<lambda>_. return_io True))))"

text \<open>The benchmark, with its blocks of the session's pool.\<close>

definition managed_with_block :: "(pool_ptr \<Rightarrow> ('w managed_chat, 'a) io) \<Rightarrow> ('w managed_chat, 'a) io" where
  "managed_with_block body mc =
     (let (buf, w1) = poolptr_new world_alloc 0 (se_world (mc_session mc));
          (r, mc1) = body buf (mc\<lparr>mc_session := (mc_session mc)\<lparr>se_world := w1\<rparr>\<rparr>)
      in case r of
           Crash e \<Rightarrow> (r, mc1)
         | _ \<Rightarrow> (case poolptr_destroy (world_dealloc kPoolBlockSize kPoolNumBlocks) buf (se_world (mc_session mc1)) of
               Inl e \<Rightarrow> (Crash e, mc1)
             | Inr w2 \<Rightarrow> (r, mc1\<lparr>mc_session := (mc_session mc1)\<lparr>se_world := w2\<rparr>\<rparr>)))"

definition managed_bench_body ::
  "'w chat_env \<Rightarrow> 'w cm_env \<Rightarrow> cm_action list list \<Rightarrow> nat \<Rightarrow> latency_stats \<Rightarrow> pool_ptr \<Rightarrow>
   ('w managed_chat, latency_stats option) io" where
  "managed_bench_body env cenv polls i st buf =
     (if \<not> poolptr_bool buf
      then bind_io (on_session (warn (''[bench] Pool exhausted at message '' @ nat_to_string i @ nl))) (\<lambda>_. return_io None)
      else
        bind_io (on_session (copy_to_block buf (bench_msg i))) (\<lambda>_.
        bind_io (on_session (now env)) (\<lambda>t_start.
        bind_io (on_client (chat_send_text env (bench_msg i))) (\<lambda>_.
        bind_io (managed_spin env cenv polls) (\<lambda>response.
        bind_io (on_session (record_since env t_start st)) (\<lambda>st'. return_io (Some st')))))))"

fun managed_bench_loop ::
  "'w chat_env \<Rightarrow> 'w cm_env \<Rightarrow> cm_action list list list \<Rightarrow> nat \<Rightarrow> nat \<Rightarrow> latency_stats \<Rightarrow>
   ('w managed_chat, latency_stats) io" where
  "managed_bench_loop env cenv polls i 0 st = return_io st"
| "managed_bench_loop env cenv polls i (Suc n) st =
     bind_io (managed_with_block (managed_bench_body env cenv (next_polls polls) i st)) (\<lambda>r.
       case r of None \<Rightarrow> return_io st | Some st' \<Rightarrow> managed_bench_loop env cenv (tl polls) (Suc i) n st')"

definition managed_bench ::
  "'w chat_env \<Rightarrow> 'w cm_env \<Rightarrow> cm_action list list list \<Rightarrow> ('w managed_chat, bool) io" where
  "managed_bench env cenv polls =
     bind_io (on_session (say (''[bench] Sending '' @ nat_to_string kBenchMessages @ '' messages for latency measurement...'' @ nl))) (\<lambda>_.
     bind_io (managed_bench_loop env cenv polls 0 kBenchMessages (stats_new (of_nat kBenchMessages))) (\<lambda>st.
     bind_io (on_session (show_report env (''Benchmark Latency ('' @ nat_to_string kBenchMessages @ '' msgs)'') st)) (\<lambda>_.
     return_io True)))"

definition managed_line ::
  "'w chat_env \<Rightarrow> 'w cm_env \<Rightarrow> cm_action list \<Rightarrow> cm_action list list list \<Rightarrow> string \<Rightarrow> ('w managed_chat, bool) io" where
  "managed_line env cenv acts polls line =
     (if line = ''text'' then managed_message env cenv acts polls ''Message: '' ''text'' (chat_send_text env)
      else if line = ''binary''
      then managed_message env cenv acts polls ''Data: '' ''binary'' (\<lambda>input. chat_send_binary env (string_bytes input))
      else if line = ''bench'' then managed_bench env cenv polls
      else on_session (chat_line env line))"

text \<open>One turn of the chat loop.\<close>

definition managed_turn :: "'w chat_env \<Rightarrow> 'w cm_env \<Rightarrow> turn_sched \<Rightarrow> ('w managed_chat, bool) io" where
  "managed_turn env cenv sched =
     bind_io (on_client chat_running) (\<lambda>running.
       if \<not> running then return_io False
       else bind_io (on_session chat_read) (\<lambda>r.
         bind_io (managed_acts cenv (fst sched)) (\<lambda>_.
         case r of None \<Rightarrow> return_io False
         | Some line \<Rightarrow> managed_line env cenv (fst (snd sched)) (snd (snd sched)) line)))"

text \<open>Where the schedule ends the main thread goes on waiting for a line.\<close>

fun managed_loop :: "'w chat_env \<Rightarrow> 'w cm_env \<Rightarrow> turn_sched list \<Rightarrow> ('w managed_chat, unit) io" where
  "managed_loop env cenv [] = (\<lambda>mc. (Crash (Hangs ''std::getline''), mc))"
| "managed_loop env cenv (turn # sched) =
     bind_io (managed_turn env cenv turn) (\<lambda>again. if again then managed_loop env cenv sched else return_io ())"

text \<open>The looks for the greeting, with the actions during the sleeps between them.\<close>

fun managed_greeting :: "'w chat_env \<Rightarrow> 'w cm_env \<Rightarrow> cm_action list list \<Rightarrow> nat \<Rightarrow> ('w managed_chat, unit) io" where
  "managed_greeting env cenv sched 0 = return_io ()"
| "managed_greeting env cenv sched (Suc n) =
     bind_io (on_client (chat_try_receive env)) (\<lambda>msg.
       case msg of
         Some m \<Rightarrow> on_session (say (''[server] '' @ payload m @ nl))
       | None \<Rightarrow> bind_io (managed_acts cenv (case sched of [] \<Rightarrow> [] | as # _ \<Rightarrow> as)) (\<lambda>_.
           managed_greeting env cenv (tl sched) n))"

type_synonym chat_sched = "cm_action list list \<times> turn_sched list"

definition managed_session :: "'w chat_env \<Rightarrow> 'w cm_env \<Rightarrow> chat_sched \<Rightarrow> ('w managed_chat, unit) io" where
  "managed_session env cenv sched =
     bind_io (on_session (bind_io (new_pool env) (\<lambda>_. bind_io (say pool_init_msg) (\<lambda>_.
       say (''[*] Waiting for server greeting...'' @ nl))))) (\<lambda>_.
     bind_io (managed_greeting env cenv (fst sched) 100) (\<lambda>_.
     bind_io (on_session (say menu_text)) (\<lambda>_.
     bind_io (managed_loop env cenv (snd sched)) (\<lambda>_.
     bind_io (on_session (bind_io get_session (\<lambda>s.
       if 0 < stats_count (se_stats s) then show_report env ''Session Latency Summary'' (se_stats s) else return_io ()))) (\<lambda>_.
     on_client (chat_close env))))))"

text \<open>The chat of the managed branch. There is no handler: an exception leaves \<open>main\<close>.\<close>

definition managed_chat_run ::
  "'w main_env \<Rightarrow> chat_sched \<Rightarrow> cli_args \<Rightarrow> chat_out list \<Rightarrow> 'w conn_manager \<Rightarrow>
   ('w conn_manager \<times> chat_out list) result" where
  "managed_chat_run env sched args out cm =
     (case managed_session ((me_chat env)\<lparr>ce_tag := ''ws''\<rparr>) (manager_env env) sched
        \<lparr>mc_cm = cm, mc_session = (main_session env ''ws'' args)\<lparr>se_out := out\<rparr>, mc_alive = True\<rparr> of
        (Ret _, mc) \<Rightarrow> Inr (mc_cm mc, se_out (mc_session mc))
      | (Throw e, mc) \<Rightarrow> Inl (Terminate e)
      | (Crash e, mc) \<Rightarrow> Inl e)"

definition no_connection_msg :: string where
  "no_connection_msg = ''[error] Could not establish connection.'' @ nl"

text \<open>The three schedules: the manager's threads during the polls and during the chat, and the joins
  of \<open>stop\<close> with the threads they wait for.\<close>

definition main_managed ::
  "'w main_env \<Rightarrow> cm_action list list \<Rightarrow> chat_sched \<Rightarrow> cm_action list \<Rightarrow> cli_args \<Rightarrow>
   (i32 \<times> 'w conn_manager \<times> chat_out list) result" where
  "main_managed env polls sched stops args =
     (let ce = manager_env env;
          out = [Say (print_system_info (ce_os (me_chat env))), Say (connecting_msg args '' (auto-reconnect enabled)'')]
      in bind_result (cm_start ce (main_manager (me_ioc env) args)) (\<lambda>cm.
         bind_result (wait_connected 100 ce polls cm) (\<lambda>cm1.
         bind_result
           (if cm_is_connected cm1 \<and> cm_get_client cm1 \<noteq> None then managed_chat_run env sched args out cm1
            else Inr (cm1, out @ [Err no_connection_msg])) (\<lambda>(cm2, out2).
         bind_result (cm_run ce (Stop # stops @ [Destroy]) (Idle, cm2)) (\<lambda>(m, cm3).
           if m = Destroyed then Inr (0, cm3, out2) else Inl (Hangs ''stop''))))))"

text \<open>The whole program.\<close>

definition main_program ::
  "'w main_env \<Rightarrow> cm_action list list \<Rightarrow> chat_sched \<Rightarrow> cm_action list \<Rightarrow> string list \<Rightarrow> run" where
  "main_program env polls sched stops argv =
     (case parse_args argv of
        ExitHelp text \<Rightarrow> (Ret 0, [Say text])
      | Parsed args \<Rightarrow>
          (case main_launch (me_with_ssl env) args of
             ViaManager _ \<Rightarrow>
               (case main_managed env polls sched stops args of
                  Inl e \<Rightarrow> (Crash e, [])
                | Inr (status, cm, out) \<Rightarrow> (Ret status, out))
           | ViaTls _ _ _ \<Rightarrow> main_tls env args
           | TlsNotBuilt \<Rightarrow> (Ret 1, [Say (print_system_info (ce_os (me_chat env))), Err no_ssl_msg])
           | ViaPlain _ _ _ \<Rightarrow> main_plain env args))"

end
