(* ===== verification/Stream_Contract.thy ===== *)
theory Stream_Contract
  imports Connection_Frames
begin

text \<open>
  What a property of the stream needs to hold in every run of the connection manager: that each
  operation the plain client and its receiver perform on the stream keeps it. The manager
  keeps a stream in its client, or, between clients, the I/O context.
\<close>

definition streams_sat :: "('w \<Rightarrow> bool) \<Rightarrow> 'w conn_manager \<Rightarrow> bool" where
  "streams_sat P cm \<longleftrightarrow> P (cm_ioc cm) \<and> (\<forall>cl. cm_client cm = Some cl \<longrightarrow> P (cl_stream cl))"

locale stream_contract =
  fixes api :: "'w beast_api" and P :: "'w \<Rightarrow> bool"
  assumes k_stream: "P w \<Longrightarrow> P (b_stream api w)"
    and k_resolve: "keeps P (b_resolve api h p)"
    and k_connect: "keeps P (b_connect api eps)"
    and k_option: "keeps P (b_set_option api opt)"
    and k_handshake: "keeps P (b_handshake api h target)"
    and k_spawn: "keeps P (b_spawn api)"
    and k_text: "P w \<Longrightarrow> P (b_text api on w)"
    and k_write: "keeps P (b_write api d)"
    and k_close: "P w \<Longrightarrow> P (snd (b_close api w))"
    and k_read: "P w \<Longrightarrow> P (snd (b_read api w))"
begin

lemma establish: "keeps P (ws_establish api h p)"
  unfolding ws_establish_def
  by (intro keeps_bind k_resolve k_connect k_option k_handshake)

lemma start_receiver:
  "P (cl_stream cl) \<Longrightarrow> P (cl_stream (snd (start_receiver api line cl)))"
  using keepsD [OF k_spawn] by (auto simp: start_receiver_def cl_print_def Let_def split: prod.splits outcome.splits)

lemma connect:
  assumes "P (cl_stream cl)"
  shows "P (cl_stream (snd (ws_connect api cl)))"
proof -
  obtain r w where e: "ws_establish api (cl_host cl) (cl_port cl) (cl_stream cl) = (r, w)"
    by (cases "ws_establish api (cl_host cl) (cl_port cl) (cl_stream cl)")
  from keepsD [OF establish assms this] have "P (cl_stream (cl\<lparr>cl_stream := w\<rparr>))" by simp
  from start_receiver [OF this] keepsD [OF establish assms e] show ?thesis
    by (cases r) (simp_all add: ws_connect_def e)
qed

lemma send: "P (cl_stream cl) \<Longrightarrow> send_text api msg cl = (r, cl') \<Longrightarrow> P (cl_stream cl')"
  using keepsD [OF k_write k_text] by (auto simp: send_text_def split: prod.splits)

lemma read_done: "cl_stream (read_done api tag r cl) = cl_stream cl"
  by (cases r) (simp_all add: set_pc_def cl_print_def)

lemma step:
  assumes "P (cl_stream cl)" and "receive_step api os tag cl = Inr cl'"
  shows "P (cl_stream cl')"
proof (cases "cl_receiver cl")
  case (Running pc)
  with assms(2) have "receive_at api os tag pc cl = Inr cl'" by (simp add: receive_step_def)
  then show ?thesis
    using assms(1) k_read [OF assms(1)]
    by (cases pc) (auto simp: set_pc_def cl_print_def read_done split: prod.splits option.splits if_splits)
qed (use assms in \<open>simp add: receive_step_def\<close>)

lemma loop: "P (cl_stream cl) \<Longrightarrow> receive_loop n api os tag cl = Inr cl' \<Longrightarrow> P (cl_stream cl')"
  by (induction n arbitrary: cl) (auto dest: step)

lemma close_stream: "P (cl_stream cl) \<Longrightarrow> P (cl_stream (close_stream api tag cl))"
  using k_close by (auto simp: close_stream_def cl_print_def Let_def split: prod.splits option.splits) (metis snd_conv)+

lemma close:
  assumes "P (cl_stream cl)" and "client_close n api os tag cl = Inr (Some cl')"
  shows "P (cl_stream cl')"
proof -
  from assms(2) obtain c where c: "receive_loop n api os tag (close_stream api tag cl) = Inr c" "join_receiver c = Some cl'"
    by (auto simp: client_close_def)
  from loop [OF close_stream [OF assms(1)] c(1)] c(2) show ?thesis
    by (auto simp: join_receiver.simps split: thread.splits receiver_pc.splits)
qed

lemma destroy: "P (cl_stream cl) \<Longrightarrow> client_destroy n api os tag cl = Inr (Some w) \<Longrightarrow> P w"
  by (auto simp: client_destroy_def split: option.splits if_splits dest: close)

end

text \<open>The same for the operations and the threads of the manager.\<close>

lemma streams_sat_same:
  "cm_ioc cm' = cm_ioc cm \<Longrightarrow> cm_client cm' = cm_client cm \<Longrightarrow> streams_sat P cm' = streams_sat P cm"
  by (simp add: streams_sat_def)

lemma streams_sat_log [simp]:
  "streams_sat P (log_event ev cm) = streams_sat P cm"
  "streams_sat P (set_state st cm) = streams_sat P cm"
  "streams_sat P (start_threads cm) = streams_sat P cm"
  "streams_sat P (cm\<lparr>cm_reconnect_count := n\<rparr>) = streams_sat P cm"
  "streams_sat P (cm\<lparr>cm_should_run := b\<rparr>) = streams_sat P cm"
  "streams_sat P (cm\<lparr>cm_heartbeat_thread := h\<rparr>) = streams_sat P cm"
  "streams_sat P (cm\<lparr>cm_monitor_thread := m\<rparr>) = streams_sat P cm"
  "streams_sat P (cm\<lparr>cm_reconnect_thread := r\<rparr>) = streams_sat P cm"
  by (rule streams_sat_same; simp add: start_threads_def Let_def)+

lemma streams_sat_call: "call_back cb ev cm = Inr cm' \<Longrightarrow> streams_sat P cm' = streams_sat P cm"
  by (cases cb) auto

locale manager_contract = stream_contract "env_api env" P
  for env :: "'w cm_env" and P :: "'w \<Rightarrow> bool"
begin

lemma reset: "streams_sat P cm \<Longrightarrow> client_reset env cm = Inr cm' \<Longrightarrow> streams_sat P cm'"
  using destroy by (auto simp: client_reset_def streams_sat_def split: option.splits)

lemma failed: "streams_sat P cm \<Longrightarrow> connect_failed env e cm = Inr (ok, cm') \<Longrightarrow> streams_sat P cm'"
  by (auto simp: connect_failed_def dest: reset [rotated])

lemma after:
  "streams_sat P cm \<Longrightarrow> after_connect env r cb cm = Inr (ok, cm') \<Longrightarrow> streams_sat P cm'"
  by (cases "(env, r, cb, cm)" rule: after_connect.cases) (auto dest: failed)

lemma attempt:
  assumes "streams_sat P cm" and "try_connect env cm = Inr (ok, cm')"
  shows "streams_sat P cm'"
proof -
  from assms(2) obtain cm1 where cm1: "client_reset env cm = Inr cm1" by (auto simp: try_connect_def)
  let ?cl = "client_new (env_api env) (cm_ioc cm1) (cc_host (cm_config cm1)) (cc_port (cm_config cm1)) client_config_default"
  obtain r cl where c: "ws_connect (env_api env) ?cl = (r, cl)" by (cases "ws_connect (env_api env) ?cl")
  from reset [OF assms(1) cm1] have s1: "P (cm_ioc cm1)" by (simp add: streams_sat_def)
  then have "P (cl_stream ?cl)" by (simp add: client_new_def k_stream)
  from connect [OF this] c s1 have "streams_sat P (cm1\<lparr>cm_client := Some cl\<rparr>)" by (simp add: streams_sat_def)
  moreover have "after_connect env r (cm_on_connect cm1) (cm1\<lparr>cm_client := Some cl\<rparr>) = Inr (ok, cm')"
    using assms(2) cm1 c by (simp add: try_connect_def Let_def)
  ultimately show ?thesis by (rule after)
qed

lemma reconnect:
  assumes "streams_sat P cm" and "reconnect_at env pc cm = Inr (pc', cm')"
  shows "streams_sat P cm'"
proof (cases pc)
  case (RC_Loop b)
  with assms show ?thesis
    by (auto simp: Let_def split: if_splits dest!: streams_sat_call)
next
  case (RC_Awake b)
  with assms(2) obtain ok cm1 where t: "try_connect env cm = Inr (ok, cm1)" by auto
  from attempt [OF assms(1) t] RC_Awake assms(2) t show ?thesis by (auto split: if_splits)
qed (use assms in simp)

lemma monitor:
  assumes "streams_sat P cm" and "monitor_at env pc cm = Inr (pc', cm')"
  shows "streams_sat P cm'"
proof (cases pc)
  case M_Awake
  with assms show ?thesis
    by (auto split: if_splits dest!: streams_sat_call dest: reset [rotated])
next
  case (M_Reconnect rpc)
  with assms(2) obtain q cm1 where "reconnect_at env rpc cm = Inr (q, cm1)" "cm' = cm1" by auto
  with reconnect [OF assms(1)] show ?thesis by simp
qed (use assms in auto)

lemma heartbeat:
  assumes "streams_sat P cm" and "heartbeat_at env pc cm = Inr (pc', cm')"
  shows "streams_sat P cm'"
proof -
  have ping: "streams_sat P c'" if "ping env (r, cl) cm = Inr (q, c')" "P (cl_stream cl)" for r cl q c'
    using that assms(1) by (cases r) (auto simp: streams_sat_def log_event_def)
  show ?thesis
  proof (cases "pc = H_Awake \<and> (\<exists>cl. cm_client cm = Some cl \<and> is_running cl)")
    case True
    then obtain cl where cl: "pc = H_Awake" "cm_client cm = Some cl" "is_running cl" by blast
    obtain r cl' where s: "send_text (env_api env) ''__ping__'' cl = (r, cl')"
      by (cases "send_text (env_api env) ''__ping__'' cl")
    have "P (cl_stream cl')" using send [OF _ s] assms(1) cl(2) by (simp add: streams_sat_def)
    with cl s assms ping show ?thesis by (auto split: if_splits)
  next
    case False
    with assms show ?thesis by (cases pc) (auto split: if_splits option.splits)
  qed
qed

end

context manager_contract
begin

lemma start:
  assumes "streams_sat P cm" and "cm_start env cm = Inr cm'"
  shows "streams_sat P cm'"
proof -
  let ?c = "set_state Connecting (cm\<lparr>cm_should_run := True\<rparr>)"
  from assms(2) obtain ok cm1 where t: "try_connect env ?c = Inr (ok, cm1)" by (auto simp: cm_start_def)
  have "streams_sat P cm1" using attempt [OF _ t] assms(1) by simp
  then show ?thesis
    using assms(2) t
    by (auto simp: cm_start_def start_monitoring_def Let_def split: if_splits)
qed

lemma stop:
  assumes "streams_sat P cm" and "stop_begin env cm = Inr (m, cm')"
  shows "streams_sat P cm'"
proof (cases "cm_should_run cm \<and> cm_client cm \<noteq> None")
  case True
  then obtain cl where cl: "cm_client cm = Some cl" "cm_should_run cm" by blast
  with assms(2) obtain cl' where c: "client_close (env_steps env) (env_api env) (env_os env) ''ws'' cl = Inr (Some cl')"
    and cm': "cm' = (set_state Closing cm)\<lparr>cm_should_run := False, cm_client := Some cl'\<rparr>"
    by (auto simp: stop_begin_def Let_def split: option.splits)
  have "P (cl_stream cl')" using close [OF _ c] assms(1) cl(1) by (simp add: streams_sat_def)
  with assms(1) show ?thesis unfolding cm' by (simp add: streams_sat_def)
qed (use assms in \<open>auto simp: stop_begin_def Let_def split: if_splits\<close>)

lemma joins: "streams_sat P (snd (stop_at m cm)) = streams_sat P cm"
  by (cases m) simp_all

lemma receiver:
  "streams_sat P cm \<Longrightarrow> recv_action env cm = Inr cm' \<Longrightarrow> streams_sat P cm'"
  using step by (auto simp: recv_action_def streams_sat_def split: option.splits)

lemma one:
  assumes "streams_sat P cm" and "cm_step env a (m, cm) = Inr (m', cm')"
  shows "streams_sat P cm'"
proof (cases a)
  case StopJoin
  with assms joins [of m cm] show ?thesis by (cases "stop_at m cm") simp
next
  case Destroy
  with assms reset show ?thesis by (auto simp: destroy_members_def split: if_splits)
qed (use assms in \<open>auto simp: on_thread_def split: thread.splits if_splits
    dest: start [rotated] stop [rotated] monitor [rotated] heartbeat [rotated] reconnect [rotated] receiver [rotated]\<close>)

end

sublocale manager_contract \<subseteq> streams: run_invariant env UNIV "\<lambda>_. streams_sat P"
  by unfold_locales (blast intro: one)

text \<open>A stream that keeps its stages: the manager asks for none of TLS.\<close>

definition no_tls :: "'w \<times> stage list \<Rightarrow> bool" where
  "no_tls w \<longleftrightarrow> STls \<notin> set (snd w) \<and> (\<forall>h. SSni h \<notin> set (snd w))"

lemma keeps_note: "st \<noteq> STls \<Longrightarrow> (\<And>h. st \<noteq> SSni h) \<Longrightarrow> keeps no_tls (note_stage st f)"
  by (auto simp: keeps_def no_tls_def note_stage_def Let_def split: prod.splits)

interpretation untls: stream_contract "traced api" no_tls for api :: "'w beast_api"
proof unfold_locales
  show "no_tls (b_stream (traced api) w)" if "no_tls w" for w :: "'w \<times> stage list"
    using that by (simp add: traced_def no_tls_def)
  show "no_tls (b_text (traced api) on w)" if "no_tls w" for on and w :: "'w \<times> stage list"
    using that by (simp add: traced_def no_tls_def)
  show "no_tls (snd (b_close (traced api) w))" if "no_tls w" for w :: "'w \<times> stage list"
    using that by (auto simp: traced_def no_tls_def split: prod.splits)
  show "no_tls (snd (b_read (traced api) w))" if "no_tls w" for w :: "'w \<times> stage list"
    using that by (auto simp: traced_def no_tls_def split: prod.splits)
  show "keeps no_tls (b_spawn (traced api))" "keeps no_tls (b_write (traced api) d)" for d
    by (auto simp: keeps_def traced_def no_tls_def split: prod.splits)
qed (auto simp: traced_simps intro: keeps_note)

definition traced_env :: "'w cm_env \<Rightarrow> ('w \<times> stage list) cm_env" where
  "traced_env env = \<lparr>env_api = traced (env_api env), env_os = env_os env, env_rnd = env_rnd env, env_steps = env_steps env\<rparr>"

interpretation untls_manager: manager_contract "traced_env env" no_tls for env :: "'w cm_env"
  using untls.stream_contract_axioms [of "env_api env"] by (simp add: manager_contract_def traced_env_def)

end
