(* ===== verification/Program_Properties.thy ===== *)
theory Program_Properties
  imports Program Stream_Contract Connection_Theorems
begin

text \<open>
  How runs of the program end when the server cannot be reached, and what \<open>--ssl\<close> means together
  with \<open>--reconnect\<close>.
\<close>

section \<open>A manager that never connects\<close>

fun rc_offline :: "'w cm_env \<Rightarrow> reconnect_pc \<Rightarrow> 'w conn_manager \<Rightarrow> bool" where
  "rc_offline env (RC_Loop b) cm = (\<exists>k. b = of_nat (backoff_at k) \<and> retrying env 10 k cm)"
| "rc_offline env (RC_Awake b) cm = (\<exists>k. b = of_nat (backoff_at k) \<and> retrying env 10 (Suc k) cm)"
| "rc_offline env RC_Done cm = True"

definition offline :: "'w cm_env \<Rightarrow> 'w conn_manager \<Rightarrow> bool" where
  "offline env cm \<longleftrightarrow> cm_client cm = None \<and> cm_monitor_thread cm = NoThread \<and> cm_heartbeat_thread cm = NoThread \<and>
     cm_state cm \<noteq> Connected \<and> cm_should_run cm \<and>
     (\<exists>pc. cm_reconnect_thread cm = Running pc \<and> rc_offline env pc cm)"

lemma rc_offline_thread [simp]: "rc_offline env pc (cm\<lparr>cm_reconnect_thread := t\<rparr>) = rc_offline env pc cm"
  by (cases pc) (simp_all add: retrying_def)

lemma offline_reconnect:
  assumes "offline env cm" and "cm_reconnect_thread cm = Running pc"
  shows "\<exists>pc' cm'. reconnect_at env pc cm = Inr (pc', cm') \<and> offline env (cm'\<lparr>cm_reconnect_thread := Running pc'\<rparr>)"
proof (cases pc)
  case (RC_Loop b)
  with assms obtain k where k: "b = of_nat (backoff_at k)" "retrying env 10 k cm" by (auto simp: offline_def)
  show ?thesis
  proof (cases "k < 10")
    case True
    let ?cm = "\<lambda>l. cm\<lparr>cm_reconnect_count := of_nat (Suc k), cm_log := l\<rparr>"
    from retry_begin [OF k(2) True, of b] obtain l where "reconnect_at env (RC_Loop b) cm = Inr (RC_Awake b, ?cm l)" by blast
    moreover have "retrying env 10 (Suc k) (?cm l)" using k(2) True by (simp add: retrying_def del: of_nat_Suc)
    ultimately show ?thesis using assms(1) k(1) RC_Loop
      by (auto simp: offline_def simp del: reconnect_at.simps of_nat_Suc)
  next
    case False
    with k(2) have "k = 10" by (simp add: retrying_def)
    with retry_stop [of env 10 cm b] k(2) assms(1) RC_Loop show ?thesis
      by (auto simp: offline_def simp del: reconnect_at.simps of_nat_Suc)
  qed
next
  case (RC_Awake b)
  with assms obtain k where k: "b = of_nat (backoff_at k)" "retrying env 10 (Suc k) cm" by (auto simp: offline_def)
  from retry_fail [OF retryingD [OF k(2)], of k] obtain w l where
    "reconnect_at env (RC_Awake b) cm = Inr (RC_Loop (of_nat (backoff_at (Suc k))), cm\<lparr>cm_ioc := w, cm_log := l\<rparr>)"
    unfolding k(1) by blast
  moreover have "retrying env 10 (Suc k) (cm\<lparr>cm_ioc := w, cm_log := l\<rparr>)"
    using k(2) by (simp add: retrying_def del: of_nat_Suc)
  ultimately show ?thesis using assms(1) RC_Awake by (auto simp: offline_def simp del: reconnect_at.simps)
qed (use assms in \<open>auto simp: offline_def\<close>)

lemma offline_step:
  assumes "offline env cm" and "a \<in> {Mon, Hb, Rc, Receiver}"
  shows "\<exists>cm'. cm_step env a (m, cm) = Inr (m, cm') \<and> offline env cm'"
proof (cases "a = Rc")
  case True
  from assms(1) obtain pc where pc: "cm_reconnect_thread cm = Running pc" by (auto simp: offline_def)
  with offline_reconnect [OF assms(1) pc] True show ?thesis by (auto simp: on_thread_def simp del: reconnect_at.simps)
qed (use assms in \<open>auto simp: offline_def on_thread_def recv_action_def\<close>)

lemma offline_run:
  "offline env cm \<Longrightarrow> set as \<subseteq> {Mon, Hb, Rc, Receiver} \<Longrightarrow> \<exists>cm'. cm_run env as (m, cm) = Inr (m, cm') \<and> offline env cm'"
proof (induction as arbitrary: cm)
  case (Cons a as)
  from offline_step [OF Cons.prems(1), of a m] Cons.prems(2) obtain cm1 where
    "cm_step env a (m, cm) = Inr (m, cm1)" "offline env cm1" by auto
  with Cons.IH [of cm1] Cons.prems(2) show ?case by (simp del: cm_step.simps)
qed simp

lemma offline_wait:
  "offline env cm \<Longrightarrow> (\<forall>as \<in> set polls. set as \<subseteq> {Mon, Hb, Rc, Receiver}) \<Longrightarrow>
    \<exists>cm'. wait_connected n env polls cm = Inr cm' \<and> offline env cm'"
proof (induction n arbitrary: polls cm)
  case (Suc n)
  let ?as = "case polls of [] \<Rightarrow> [] | as # _ \<Rightarrow> as"
  have "set ?as \<subseteq> {Mon, Hb, Rc, Receiver}" using Suc.prems(2) by (cases polls) auto
  from offline_run [OF Suc.prems(1) this] obtain cm1 where
    r: "cm_run env ?as (Idle, cm) = Inr (Idle, cm1)" "offline env cm1" by blast
  have "\<forall>as \<in> set (tl polls). set as \<subseteq> {Mon, Hb, Rc, Receiver}" using Suc.prems(2) by (cases polls) auto
  from Suc.IH [OF r(2) this] r(1) Suc.prems(1) show ?case by (simp add: offline_def cm_is_connected_def)
qed simp

text \<open>Two steps of the reconnect thread are enough for \<open>stop\<close>: an attempt under way, and the test of
  \<open>should_run_\<close>.\<close>

definition offline_stop :: "cm_action list" where
  "offline_stop = [Rc, Rc, StopJoin, StopJoin, StopJoin, StopJoin]"

lemma rc_leaves:
  assumes "rc_offline env pc cm" and "\<not> cm_should_run cm'" and "cm_client cm' = None" and "cm_config cm' = cm_config cm"
  shows "\<exists>pc1 w l. reconnect_at env pc cm' = Inr (pc1, cm'\<lparr>cm_ioc := w, cm_log := l\<rparr>) \<and> pc1 \<in> {RC_Done} \<union> range RC_Loop"
proof (cases pc)
  case (RC_Awake b)
  with assms(1) obtain k where k: "b = of_nat (backoff_at k)" "retrying env 10 (Suc k) cm" by auto
  from retryingD [OF k(2)] assms(3,4) have "unreachable (env_api env) (cm_config cm')" "cm_client cm' = None"
    "env_rnd env = fl" "default_backoff (cm_config cm')" by simp_all
  from retry_fail [OF this, of k] RC_Awake k(1) show ?thesis by (auto simp del: reconnect_at.simps)
next
  case (RC_Loop b)
  then have "reconnect_at env pc cm' = Inr (RC_Done, cm'\<lparr>cm_ioc := cm_ioc cm', cm_log := cm_log cm'\<rparr>)"
    using assms(2) by simp
  then show ?thesis by blast
next
  case RC_Done
  then have "reconnect_at env pc cm' = Inr (RC_Done, cm'\<lparr>cm_ioc := cm_ioc cm', cm_log := cm_log cm'\<rparr>)" by simp
  then show ?thesis by blast
qed

lemma offline_stops:
  assumes "offline env cm"
  shows "\<exists>cm'. cm_run env (Stop # offline_stop @ [Destroy]) (Idle, cm) = Inr (Destroyed, cm') \<and> cm_state cm' = Closed"
proof -
  from assms obtain pc where pc: "cm_reconnect_thread cm = Running pc" "rc_offline env pc cm" and
    off: "cm_client cm = None" "cm_monitor_thread cm = NoThread" "cm_heartbeat_thread cm = NoThread" "cm_should_run cm"
    by (auto simp: offline_def)
  let ?c1 = "(set_state Closing cm)\<lparr>cm_should_run := False\<rparr>"
  have s1: "cm_step env Stop (Idle, cm) = Inr (Join_Heartbeat, ?c1)" using off by (simp add: stop_begin_def Let_def)
  from rc_leaves [OF pc(2), of ?c1] off(1) obtain pc1 w l where
    r1: "reconnect_at env pc ?c1 = Inr (pc1, ?c1\<lparr>cm_ioc := w, cm_log := l\<rparr>)" and pc1: "pc1 = RC_Done \<or> pc1 \<in> range RC_Loop"
    by auto
  let ?c2 = "?c1\<lparr>cm_ioc := w, cm_log := l, cm_reconnect_thread := Running pc1\<rparr>"
  have s2: "cm_step env Rc (Join_Heartbeat, ?c1) = Inr (Join_Heartbeat, ?c2)"
    using pc(1) r1 by (simp add: on_thread_def del: reconnect_at.simps)
  let ?c3 = "?c1\<lparr>cm_ioc := w, cm_log := l, cm_reconnect_thread := Running RC_Done\<rparr>"
  have "reconnect_at env pc1 ?c2 = Inr (RC_Done, ?c2)" using pc1 by auto
  then have s3: "cm_step env Rc (Join_Heartbeat, ?c2) = Inr (Join_Heartbeat, ?c3)"
    by (simp add: on_thread_def del: reconnect_at.simps)
  let ?c4 = "set_state Closed (?c3\<lparr>cm_heartbeat_thread := NoThread, cm_monitor_thread := NoThread, cm_reconnect_thread := NoThread\<rparr>)"
  have s4: "cm_run env [StopJoin, StopJoin, StopJoin, StopJoin, Destroy] (Join_Heartbeat, ?c3) = Inr (Destroyed, ?c4)"
    using off by (simp add: destroy_members_def client_reset_def)
  have "cm_run env (Stop # offline_stop @ [Destroy]) (Idle, cm) = Inr (Destroyed, ?c4)"
    using s1 s2 s3 s4 by (simp add: offline_stop_def del: cm_step.simps)
  moreover have "cm_state ?c4 = Closed" by simp
  ultimately show ?thesis by blast
qed

lemma offline_start:
  assumes "unreachable (env_api env) (main_conn_config args)" and "env_rnd env = fl"
  shows "\<exists>cm. cm_start env (main_manager ioc args) = Inr cm \<and> offline env cm"
proof -
  let ?c = "set_state Connecting ((main_manager ioc args)\<lparr>cm_should_run := True\<rparr>)"
  have cfg: "cm_config ?c = main_conn_config args" "cm_client ?c = None"
    by (simp_all add: main_manager_def cm_new_def on_reconnect_def on_disconnect_def on_connect_def)
  from try_connect_unreachable [of env ?c] assms(1) cfg obtain e w where
    t: "try_connect env ?c = Inr (False, ?c\<lparr>cm_ioc := w, cm_log := cm_log ?c @ [failed_msg e]\<rparr>)" by auto
  let ?c2 = "set_state Reconnecting (?c\<lparr>cm_ioc := w, cm_log := cm_log ?c @ [failed_msg e]\<rparr>)"
  let ?c3 = "?c2\<lparr>cm_reconnect_thread := Running (RC_Loop 100)\<rparr>"
  have "cm_start env (main_manager ioc args) = Inr ?c3"
    using t by (simp add: cm_start_def thread_assign_def Let_def main_manager_def cm_new_def on_reconnect_def
        on_disconnect_def on_connect_def main_conn_config_def)
  moreover have "offline env ?c3"
  proof -
    have "retrying env 10 0 ?c2" and b: "of_nat (backoff_at 0) = (100 :: u32)"
      using assms by (simp_all add: retrying_def main_manager_def cm_new_def on_reconnect_def on_disconnect_def
          on_connect_def main_conn_config_def default_backoff_def connection_config_default_def backoff_at_def)
    then have "rc_offline env (RC_Loop (of_nat (backoff_at 0))) ?c3"
      unfolding rc_offline_thread rc_offline.simps by blast
    moreover have "cm_client ?c3 = None" "cm_monitor_thread ?c3 = NoThread" "cm_heartbeat_thread ?c3 = NoThread"
      by (simp_all add: main_manager_def cm_new_def on_reconnect_def on_disconnect_def on_connect_def)
    ultimately show ?thesis by (simp add: offline_def b del: rc_offline.simps rc_offline_thread)
  qed
  ultimately show ?thesis by blast
qed

lemma managed_unreachable:
  assumes "unreachable (ce_api (me_chat env)) (main_conn_config args)" and "ce_rnd (me_chat env) = fl"
    and "\<forall>as \<in> set polls. set as \<subseteq> {Mon, Hb, Rc, Receiver}"
  shows "\<exists>cm. main_managed env polls sched offline_stop args = Inr (0, cm, [Say (print_system_info (ce_os (me_chat env))),
    Say (connecting_msg args '' (auto-reconnect enabled)''), Err no_connection_msg]) \<and> cm_state cm = Closed"
proof -
  let ?ce = "manager_env env"
  have "unreachable (env_api ?ce) (main_conn_config args)" "env_rnd ?ce = fl"
    using assms(1,2) by (simp_all add: manager_env_def)
  from offline_start [OF this] obtain cm where
    cm: "cm_start ?ce (main_manager (me_ioc env) args) = Inr cm" "offline ?ce cm" by blast
  from offline_wait [OF cm(2) assms(3)] obtain cm1 where
    cm1: "wait_connected 100 ?ce polls cm = Inr cm1" "offline ?ce cm1" by blast
  from offline_stops [OF cm1(2)] obtain cm2 where
    cm2: "cm_run ?ce (Stop # offline_stop @ [Destroy]) (Idle, cm1) = Inr (Destroyed, cm2)" "cm_state cm2 = Closed" by blast
  have "\<not> cm_is_connected cm1" using cm1(2) by (simp add: offline_def cm_is_connected_def)
  with cm(1) cm1(1) cm2 show ?thesis by (simp add: main_managed_def Let_def del: cm_run.simps wait_connected.simps)
qed

text \<open>A plain run whose connection attempt throws.\<close>

lemma plain_connect_throws:
  assumes "ws_establish (ce_api (me_chat env)) (ca_host args) (ca_port args) (b_stream (ce_api (me_chat env)) (me_ioc env)) = (Throw e, w)"
    and "\<not> ca_pin_thread args"
  shows "main_plain env args = (Ret 1, [Say (print_system_info (ce_os (me_chat env))), Say (connecting_msg args []),
    Err (catch_msg env ''Network error: '' e)])"
proof -
  let ?api = "ce_api (me_chat env)"
  let ?s = "main_session env ''ws'' args"
  let ?cl = "se_client ?s"
  have cl: "cl_receiver ?cl = NoThread" "cl_host ?cl = ca_host args" "cl_port ?cl = ca_port args"
    "cl_stream ?cl = b_stream ?api (me_ioc env)" by (simp_all add: main_session_def client_new_def)
  have c: "ws_connect ?api ?cl = (Throw e, ?cl\<lparr>cl_stream := w\<rparr>)" using assms(1) cl by (simp add: ws_connect_def)
  have "cl_receiver (?cl\<lparr>cl_stream := w\<rparr>) = NoThread" using cl(1) by simp
  from client_destroy_no_thread [OF this, of "ce_join_steps (me_chat env)" ?api "ce_os (me_chat env)" "''ws''"]
  have d: "destroy_client env ''ws'' (s\<lparr>se_client := ?cl\<lparr>cl_stream := w\<rparr>\<rparr>) = None" for s
    by (auto simp: destroy_client_def Let_def)
  have out: "se_out ?s = [Say (print_system_info (ce_os (me_chat env)))]" by (simp add: main_session_def)
  let ?s1 = "?s\<lparr>se_out := se_out ?s @ [Say (connecting_msg args [])]\<rparr>"
  have body: "bind_io (say (connecting_msg args [])) (\<lambda>_.
      bind_io (if ca_pin_thread args then bind_io (lift (pin_msg os args)) say else return_io ()) (\<lambda>_.
      bind_io (client_connect env ''ws'') (\<lambda>_. chat_session ce))) ?s =
    (Throw e, ?s1\<lparr>se_client := ?cl\<lparr>cl_stream := w\<rparr>\<rparr>)" for ce os
    using assms(2) c by (simp add: bind_io_def say_def return_io_def client_connect_def)
  show ?thesis unfolding main_plain_def Let_def main_try_def body using d [of ?s1] out by simp
qed

section \<open>The chat on a client that goes away\<close>

lemma managed_acts_append:
  "managed_acts env (as @ bs) mc = bind_io (managed_acts env as) (\<lambda>_. managed_acts env bs) mc"
  by (induction as arbitrary: mc) (auto simp: bind_io_def split: sum.split)

lemma monitor_destroys:
  assumes "cm_client (mc_cm mc) = Some cl" and "\<not> is_running cl" and "cm_should_run (mc_cm mc)"
    and "cm_monitor_thread (mc_cm mc) = Running M_Loop" and "\<forall>e. cm_on_disconnect (mc_cm mc) \<noteq> Throws e"
    and "client_destroy (env_steps env) (env_api env) (env_os env) ''ws'' cl = Inr (Some w)"
  shows "\<exists>mc'. managed_acts env [Mon, Mon] mc = (Ret (), mc') \<and> \<not> mc_alive mc'"
proof -
  let ?cm = "(mc_cm mc)\<lparr>cm_monitor_thread := Running M_Awake\<rparr>"
  have s1: "cm_step env Mon (Idle, mc_cm mc) = Inr (Idle, ?cm)" using assms by (simp add: on_thread_def)
  let ?c1 = "set_state Reconnecting (log_event (Printed (Cout lost_msg)) ?cm)"
  have "\<forall>e. cm_on_disconnect ?cm \<noteq> Throws e" using assms(5) by simp
  from call_back_returns [OF this] obtain l where
    "call_back (cm_on_disconnect ?cm) (OnDisconnect ''connection lost'') ?c1 = Inr (?c1\<lparr>cm_log := l\<rparr>)" by blast
  moreover have "client_reset env (?c1\<lparr>cm_log := l\<rparr>) = Inr (?c1\<lparr>cm_log := l, cm_client := None, cm_ioc := w\<rparr>)"
    using assms(1,6) by (simp add: client_reset_def)
  ultimately have "\<exists>cm2. cm_step env Mon (Idle, ?cm) = Inr (Idle, cm2) \<and> cm_client cm2 = None"
    using assms(1-3) by (simp add: on_thread_def connection_lost_def)
  with s1 show ?thesis by (auto simp del: cm_step.simps)
qed

lemma managed_acts_session: "managed_acts env as mc = (r, mc') \<Longrightarrow> mc_session mc' = mc_session mc"
  by (induction as arbitrary: mc) (auto split: sum.splits)

text \<open>The commands that come to use the client: \<open>bench\<close> when the pool has a block, and \<open>text\<close> and \<open>binary\<close>
  when there is a second line.\<close>

definition reaches_client :: "string \<Rightarrow> 'w session \<Rightarrow> bool" where
  "reaches_client line s \<longleftrightarrow>
     line = ''bench'' \<and> poolptr_bool (fst (poolptr_new world_alloc 0 (se_world s))) \<or>
     line \<in> {''text'', ''binary''} \<and> fst (getline (se_cin s) (se_input s))"

lemma on_client_dead: "\<not> mc_alive mc \<Longrightarrow> on_client m mc = (Crash UB_UseAfterFree, mc)"
  by (simp add: on_client_def)

lemma message_after_loss:
  assumes "\<not> mc_alive mc" and "fst (getline (se_cin (mc_session mc)) (se_input (mc_session mc)))"
  shows "\<exists>mc'. managed_message env cenv [] polls prompt kind send mc = (Crash UB_UseAfterFree, mc')"
proof -
  obtain line c where "getline (se_cin (mc_session mc)) (se_input (mc_session mc)) = (True, line, c)"
    using assms(2) by (cases "getline (se_cin (mc_session mc)) (se_input (mc_session mc))") auto
  with assms(1) show ?thesis
    by (simp add: managed_message_def managed_exchange_def now_def bind_io_def on_session_def say_def read_line_def
        get_session_def on_client_dead)
qed

lemma bench_after_loss:
  assumes "\<not> mc_alive mc" and "poolptr_bool (fst (poolptr_new world_alloc 0 (se_world (mc_session mc))))"
  shows "\<exists>mc'. managed_bench env cenv polls mc = (Crash UB_UseAfterFree, mc')"
proof -
  obtain buf w where b: "poolptr_new world_alloc 0 (se_world (mc_session mc)) = (buf, w)" "poolptr_bool buf"
    using assms(2) by (cases "poolptr_new world_alloc 0 (se_world (mc_session mc))") auto
  have body: "\<exists>mc2. managed_bench_body env cenv polls i st buf mc1 = (Crash UB_UseAfterFree, mc2)"
    if "\<not> mc_alive mc1" for mc1 i st polls
    using b(2) that
    by (simp add: managed_bench_body_def copy_to_block_def Let_def now_def bind_io_def on_session_def on_client_dead)
  have block: "\<exists>mc2. managed_with_block (managed_bench_body env cenv polls i st) mc1 = (Crash UB_UseAfterFree, mc2)"
    if "\<not> mc_alive mc1" "se_world (mc_session mc1) = se_world (mc_session mc)" for mc1 i st polls
    using body [of "mc1\<lparr>mc_session := (mc_session mc1)\<lparr>se_world := w\<rparr>\<rparr>" polls i st] b(1) that
    by (auto simp: managed_with_block_def)
  have k: "kBenchMessages = Suc 99" by (simp add: kBenchMessages_def)
  have loop: "\<exists>mc2. managed_bench_loop env cenv polls 0 kBenchMessages st mc1 = (Crash UB_UseAfterFree, mc2)"
    if "\<not> mc_alive mc1" "se_world (mc_session mc1) = se_world (mc_session mc)" for mc1 st
    using block [OF that, of "next_polls polls" 0 st] unfolding k managed_bench_loop.simps by (auto simp: bind_io_def)
  have "\<exists>mc2. bind_io (on_session (say t)) (\<lambda>_. bind_io (managed_bench_loop env cenv polls 0 kBenchMessages st) f) mc =
      (Crash UB_UseAfterFree, mc2)" for t st and f :: "latency_stats \<Rightarrow> ('a managed_chat, bool) io"
    using loop [of "snd (on_session (say t) mc)" st] assms(1) by (auto simp: bind_io_def on_session_def say_def)
  then show ?thesis unfolding managed_bench_def by blast
qed

lemma chat_after_loss:
  assumes "on_client chat_running mc = (Ret True, mc1)" and "on_session chat_read mc1 = (Ret (Some line), mc2)"
    and "managed_acts cenv acts mc2 = (Ret (), mc3)" and "\<not> mc_alive mc3" and "reaches_client line (mc_session mc2)"
  shows "\<exists>mc4. managed_turn env cenv (acts, [], polls) mc = (Crash UB_UseAfterFree, mc4)"
proof -
  have t: "managed_turn env cenv (acts, [], polls) mc = managed_line env cenv [] polls line mc3"
    using assms(1-3) by (simp add: managed_turn_def bind_io_def)
  have s: "mc_session mc3 = mc_session mc2" by (rule managed_acts_session [OF assms(3)])
  from assms(5) consider (bench) "line = ''bench''" "poolptr_bool (fst (poolptr_new world_alloc 0 (se_world (mc_session mc3))))"
    | (msg) "line \<in> {''text'', ''binary''}" "fst (getline (se_cin (mc_session mc3)) (se_input (mc_session mc3)))"
    by (auto simp: reaches_client_def s)
  then show ?thesis
  proof cases
    case bench
    then show ?thesis unfolding t using bench_after_loss [OF assms(4)] by (simp add: managed_line_def)
  next
    case msg
    then show ?thesis unfolding t managed_line_def using message_after_loss [OF assms(4)] by auto
  qed
qed

section \<open>Properties\<close>

text \<open>C28: When the server cannot be reached, the plain client says why and the program exits with
  status 1. With \<open>--reconnect\<close> it exits with status 0: whatever the manager's threads do during the
  100 polls, there is no connection, and \<open>stop\<close> returns once the reconnect thread has made two more
  steps.\<close>

theorem unreachable_exit_status:
  assumes "unreachable (ce_api (me_chat env)) (main_conn_config args)" and "ce_rnd (me_chat env) = fl"
    and "\<not> ca_pin_thread args" and "\<forall>as \<in> set polls. set as \<subseteq> {Mon, Hb, Rc, Receiver}"
  shows "(\<exists>e. main_plain env args = (Ret 1, [Say (print_system_info (ce_os (me_chat env))),
      Say (connecting_msg args []), Err (catch_msg env ''Network error: '' e)])) \<and>
    (\<exists>cm. main_managed env polls sched offline_stop args = Inr (0, cm, [Say (print_system_info (ce_os (me_chat env))),
      Say (connecting_msg args '' (auto-reconnect enabled)''), Err no_connection_msg]) \<and> cm_state cm = Closed)"
proof
  from assms(1) obtain e w where "ws_establish (ce_api (me_chat env)) (ca_host args) (ca_port args)
      (b_stream (ce_api (me_chat env)) (me_ioc env)) = (Throw e, w)"
    unfolding unreachable_def main_conn_config_def by (simp, blast)
  from plain_connect_throws [OF this assms(3)]
  show "\<exists>e. main_plain env args = (Ret 1, [Say (print_system_info (ce_os (me_chat env))),
      Say (connecting_msg args []), Err (catch_msg env ''Network error: '' e)])" ..
qed (rule managed_unreachable [OF assms(1,2,4)])

definition openssl :: ssl_api where
  "openssl = \<lparr>sa_context = Ret (), sa_set_verify_mode = Ret (), sa_set_default_paths = Ret (), sa_root_store = None,
     sa_d2i_X509 = Some\<rparr>"

definition down_env :: "unit main_env" where
  "down_env = \<lparr>me_chat = \<lparr>ce_api = down_api, ce_os = linux_os, ce_tag = ''ws'', ce_rnd = fl, ce_clock = (\<lambda>_. 0),
       ce_storage = 4096, ce_join_steps = 4\<rparr>, me_with_ssl = True, me_system_error = (\<lambda>_. True), me_ssl = openssl,
     me_ioc = (), me_world = \<lparr>w_mem = (\<lambda>_. 0), w_pools = (\<lambda>_. \<lparr>pl_storage = 0, pl_free_head = 0, pl_free_count = 0\<rparr>)\<rparr>,
     me_cin = \<lparr>cin_text = [], cin_good = True\<rparr>, me_spins = [], me_steps = []\<rparr>"

theorem unreachable_exit_status_witness:
  "fst (main_program down_env [[Rc, Rc], [Mon, Rc]] ([], []) offline_stop [''websocket_client'']) = Ret 1 \<and>
   fst (main_program down_env [[Rc, Rc], [Mon, Rc]] ([], []) offline_stop [''websocket_client'', ''--reconnect'']) = Ret 0"
proof -
  let ?polls = "[[Rc, Rc], [Mon, Rc]]"
  let ?rec = "cli_defaults\<lparr>ca_auto_reconnect := True\<rparr>"
  have u: "unreachable (ce_api (me_chat down_env)) c" for c
    by (simp add: unreachable_def ws_establish_def bind_io_def down_env_def down_api_def)
  have h: "ce_rnd (me_chat down_env) = fl" "\<not> ca_pin_thread cli_defaults" "\<not> ca_pin_thread ?rec"
    by (simp_all add: down_env_def cli_defaults_def)
  have "\<forall>as \<in> set ?polls. set as \<subseteq> {Mon, Hb, Rc, Receiver}" by simp
  note t = unreachable_exit_status [OF u h(1,2) this, of "([], [])"] unreachable_exit_status [OF u h(1,3) this, of "([], [])"]
  have p: "parse_args [''websocket_client''] = Parsed cli_defaults"
    "parse_args [''websocket_client'', ''--reconnect''] = Parsed ?rec"
    by (simp_all add: parse_args_def parse_flags parse_loop.simps(1))
  have l: "main_launch (me_with_ssl down_env) ?rec = ViaManager (main_conn_config ?rec)"
    "main_launch (me_with_ssl down_env) cli_defaults =
      ViaPlain (ca_host cli_defaults) (ca_port cli_defaults) (main_client_config cli_defaults)"
    by (simp_all add: main_launch_def cli_defaults_def)
  from t(1) have "fst (main_plain down_env cli_defaults) = Ret 1" by auto
  moreover from t(2) obtain cm out where "main_managed down_env ?polls ([], []) offline_stop ?rec = Inr (0, cm, out)" by blast
  ultimately show ?thesis by (simp add: main_program_def p l)
qed

text \<open>C31: With \<open>--reconnect\<close> the program talks plain WebSocket even when \<open>--ssl\<close> is given: it runs on the
  connection manager, and in no interleaving of the manager's threads with its operations is a
  server name set or a TLS handshake made on any of its connections.\<close>

theorem reconnect_never_tls:
  assumes "ca_auto_reconnect args" and "cm_run (traced_env env) as (Idle, main_manager (w, []) args) = Inr (m, cm)"
  shows "main_launch with_ssl args = ViaManager (main_conn_config args) \<and> no_tls (cm_ioc cm) \<and>
    (\<forall>cl. cm_client cm = Some cl \<longrightarrow> no_tls (cl_stream cl))"
proof -
  have "streams_sat no_tls (main_manager (w, []) args)"
    by (simp add: streams_sat_def no_tls_def main_manager_def cm_new_def on_reconnect_def on_disconnect_def on_connect_def)
  from untls_manager.streams.run_keeps [OF assms(2) _ this] assms(1) show ?thesis by (simp add: streams_sat_def main_launch_def)
qed

definition ssl_reconnect :: cli_args where
  "ssl_reconnect = cli_defaults\<lparr>ca_use_ssl := True, ca_port := ''443'', ca_auto_reconnect := True\<rparr>"

theorem reconnect_never_tls_witness:
  "parse_args [''websocket_client'', ''--ssl'', ''--reconnect''] = Parsed ssl_reconnect \<and>
   main_launch True ssl_reconnect = ViaManager (main_conn_config ssl_reconnect) \<and>
   (\<exists>cm. cm_run (traced_env (demo_env flaky_api)) [Start] (Idle, main_manager ([True], []) ssl_reconnect) = Inr (Idle, cm) \<and>
     no_tls (cm_ioc cm))"
proof -
  have a: "parse_args [''websocket_client'', ''--ssl'', ''--reconnect''] = Parsed ssl_reconnect"
    by (simp add: parse_args_def cli_defaults_def parse_flags parse_loop.simps(1) ssl_reconnect_def)
  have "\<exists>cm. cm_run (traced_env (demo_env flaky_api)) [Start] (Idle, main_manager ([True], []) ssl_reconnect) = Inr (Idle, cm)"
    by (simp add: cm_start_def try_connect_def client_reset_def main_manager_def cm_new_def on_reconnect_def
        on_disconnect_def on_connect_def set_state_def log_event_def main_conn_config_def connection_config_default_def
        ws_connect_def ws_establish_def bind_io_def traced_env_def traced_def note_stage_def flaky_api_def client_new_def
        start_receiver_def cl_print_def start_monitoring_def thread_assign_def Let_def)
  then obtain cm where
    cm: "cm_run (traced_env (demo_env flaky_api)) [Start] (Idle, main_manager ([True], []) ssl_reconnect) = Inr (Idle, cm)" ..
  have "ca_auto_reconnect ssl_reconnect" by (simp add: ssl_reconnect_def)
  from reconnect_never_tls [OF this cm] a cm show ?thesis by blast
qed

text \<open>C30: The chat of the managed branch can use a client that is gone. When the connection is lost while
  the chat waits for a line, the monitor destroys the client as soon as it wakes, and the next
  command that sends, \<open>bench\<close> with a block in the pool, or \<open>text\<close> or \<open>binary\<close> with a second line,
  uses freed memory.\<close>

theorem managed_use_after_free:
  assumes "on_client chat_running mc = (Ret True, mc1)" and "on_session chat_read mc1 = (Ret (Some line), mc2)"
    and "line = ''bench'' \<and> poolptr_bool (fst (poolptr_new world_alloc 0 (se_world (mc_session mc2)))) \<or>
      line \<in> {''text'', ''binary''} \<and> fst (getline (se_cin (mc_session mc2)) (se_input (mc_session mc2)))"
    and "managed_acts cenv acts mc2 = (Ret (), mc3)"
    and "cm_client (mc_cm mc3) = Some cl" and "\<not> is_running cl" and "cm_should_run (mc_cm mc3)"
    and "cm_monitor_thread (mc_cm mc3) = Running M_Loop" and "\<forall>e. cm_on_disconnect (mc_cm mc3) \<noteq> Throws e"
    and "client_destroy (env_steps cenv) (env_api cenv) (env_os cenv) ''ws'' cl = Inr (Some w)"
  shows "\<exists>mc4. managed_turn env cenv (acts @ [Mon, Mon], [], polls) mc = (Crash UB_UseAfterFree, mc4)"
proof -
  from monitor_destroys [OF assms(5-10)] obtain mc4 where "managed_acts cenv [Mon, Mon] mc3 = (Ret (), mc4)" "\<not> mc_alive mc4"
    by blast
  with assms(4) have "managed_acts cenv (acts @ [Mon, Mon]) mc2 = (Ret (), mc4)" "\<not> mc_alive mc4"
    by (simp_all add: managed_acts_append bind_io_def)
  from chat_after_loss [OF assms(1,2) this] assms(3) show ?thesis by (simp add: reaches_client_def)
qed

lemma managed_receiver:
  assumes "cm_run env as (Idle, mc_cm mc) = Inr (Idle, cm)" and "set as \<subseteq> {Receiver}" and "cm_client (mc_cm mc) \<noteq> None"
  shows "managed_acts env as mc = (Ret (), mc\<lparr>mc_cm := cm\<rparr>)"
  using assms
proof (induction as arbitrary: mc)
  case (Cons a as)
  then have a: "a = Receiver" by simp
  with Cons.prems(1) obtain cm1 where r: "recv_action env (mc_cm mc) = Inr cm1" "cm_run env as (Idle, cm1) = Inr (Idle, cm)"
    by auto
  then have "cm_client cm1 \<noteq> None" using Cons.prems(3) by (auto simp: recv_action_def split: option.splits)
  then show ?case using Cons.IH [of "mc\<lparr>mc_cm := cm1, mc_alive := mc_alive mc\<rparr>"] Cons.prems(2) r a by simp
qed simp

text \<open>A managed chat on the example network, with the command \<open>text\<close> and its message typed ahead.\<close>

definition lost_env :: "bool list chat_env" where
  "lost_env = \<lparr>ce_api = flaky_api, ce_os = linux_os, ce_tag = ''ws'', ce_rnd = fl, ce_clock = (\<lambda>_. 0), ce_storage = 4096,
     ce_join_steps = 4\<rparr>"

definition lost_session :: "bool list session" where
  "lost_session = \<lparr>se_client = client_new flaky_api [] ''localhost'' ''8765'' client_config_default, se_stats = stats_new 0,
     se_world = \<lparr>w_mem = (\<lambda>_. 0), w_pools = (\<lambda>_. \<lparr>pl_storage = 0, pl_free_head = 0, pl_free_count = 0\<rparr>)\<rparr>,
     se_cin = \<lparr>cin_text = ''text'' @ nl @ ''hello'' @ nl, cin_good = True\<rparr>, se_input = [], se_now = 0, se_spins = [], se_steps = [], se_out = []\<rparr>"

theorem managed_use_after_free_witness:
  "\<exists>cm mc. cm_start (demo_env flaky_api) (cm_new [True] (demo_config\<lparr>cc_pin_receiver_thread := False\<rparr>)) = Inr cm \<and>
    managed_turn lost_env (demo_env flaky_api) ([Receiver, Receiver, Receiver, Receiver] @ [Mon, Mon], [], [])
      \<lparr>mc_cm = cm, mc_session = lost_session, mc_alive = True\<rparr> = (Crash UB_UseAfterFree, mc)"
proof -
  let ?env = "demo_env flaky_api"
  let ?four = "[Receiver, Receiver, Receiver, Receiver]"
  from flaky_start [of "[]" False] obtain cm cl where
    cm: "cm_start ?env (cm_new [True] (demo_config\<lparr>cc_pin_receiver_thread := False\<rparr>)) = Inr cm"
    and c: "cm_client cm = Some cl" "cl_receiver cl = Running R_Start" "cl_running cl" "cl_config cl = client_config_default"
    and c': "cm_monitor_thread cm = Running M_Loop" "cm_should_run cm" "cm_on_disconnect cm = Unset" by blast
  let ?mc = "\<lparr>mc_cm = cm, mc_session = lost_session, mc_alive = True\<rparr>"
  let ?cm1 = "cm\<lparr>cm_client := Some cl\<rparr>"
  let ?mc1 = "\<lparr>mc_cm = ?cm1, mc_session = lost_session\<lparr>se_client := cl\<rparr>, mc_alive = True\<rparr>"
  have 1: "on_client chat_running ?mc = (Ret True, ?mc1)"
    using c(1,3) by (simp add: on_client_def chat_running_def is_running_def)
  have "\<exists>s. chat_read (lost_session\<lparr>se_client := cl\<rparr>) = (Ret (Some ''text''), s) \<and> fst (getline (se_cin s) (se_input s))"
    by (simp add: chat_read_def bind_io_def say_def read_line_def get_session_def return_io_def getline_def lost_session_def nl_def)
  then obtain s where s: "chat_read (lost_session\<lparr>se_client := cl\<rparr>) = (Ret (Some ''text''), s)"
    "fst (getline (se_cin s) (se_input s))" by blast
  let ?mc2 = "\<lparr>mc_cm = ?cm1, mc_session = s, mc_alive = True\<rparr>"
  have 2: "on_session chat_read ?mc1 = (Ret (Some ''text''), ?mc2)" using s(1) by (simp add: on_session_def)
  have "cm_client ?cm1 = Some cl" by simp
  from flaky_drop [OF this c(2-4), of Idle] obtain cl1 where
    r: "cm_run ?env ?four (Idle, ?cm1) = Inr (Idle, ?cm1\<lparr>cm_client := Some cl1\<rparr>)"
    and cl1: "cl_receiver cl1 = Running R_Done" "\<not> cl_running cl1" by blast
  have 3: "managed_acts ?env ?four ?mc2 = (Ret (), ?mc2\<lparr>mc_cm := ?cm1\<lparr>cm_client := Some cl1\<rparr>\<rparr>)"
    by (rule managed_receiver) (use r in simp_all)
  have u: "''text'' = ''bench'' \<and> poolptr_bool (fst (poolptr_new world_alloc 0 (se_world (mc_session ?mc2)))) \<or>
      ''text'' \<in> {''text'', ''binary''} \<and> fst (getline (se_cin (mc_session ?mc2)) (se_input (mc_session ?mc2)))" using s(2) by simp
  have d: "client_destroy (env_steps ?env) (env_api ?env) (env_os ?env) ''ws'' cl1 = Inr (Some (cl_stream cl1))"
    using flaky_destroy [OF cl1(1)] by simp
  from managed_use_after_free [OF 1 2 u 3 _ _ _ _ _ d] cl1(2) c' have
    "\<exists>mc4. managed_turn lost_env ?env (?four @ [Mon, Mon], [], []) ?mc = (Crash UB_UseAfterFree, mc4)"
    by (simp add: is_running_def)
  with cm show ?thesis by blast
qed

end
