(* ===== verification/Managed_Chat.thy ===== *)
theory Managed_Chat
  imports Program_Properties Connection_States
begin

text \<open>
  The chat on the manager's client against the chat on a client of its own: as long as the manager's
  threads do nothing, a turn of the one is a turn of the other; when the connection is lost while the
  chat waits for a reply, the wait does not end, whatever the manager does.
\<close>

section \<open>Running on the reference\<close>

text \<open>The reference is good, and the session has the client it refers to.\<close>

definition in_step :: "'w managed_chat \<Rightarrow> bool" where
  "in_step mc \<longleftrightarrow> mc_alive mc \<and> cm_client (mc_cm mc) = Some (se_client (mc_session mc))"

definition with_session :: "'w managed_chat \<Rightarrow> 'w session \<Rightarrow> 'w managed_chat" where
  "with_session mc s = mc\<lparr>mc_session := s, mc_cm := (mc_cm mc)\<lparr>cm_client := Some (se_client s)\<rparr>\<rparr>"

lemma in_step_with: "in_step mc \<Longrightarrow> in_step (with_session mc s)"
  by (simp add: in_step_def with_session_def)

lemma with_session_again: "with_session (with_session mc s) s' = with_session mc s'"
  by (simp add: with_session_def)

lemma with_session_session: "mc_session (with_session mc s) = s"
  by (simp add: with_session_def)

lemma on_client_in_step:
  assumes "in_step mc"
  shows "on_client m mc = (fst (m (mc_session mc)), with_session mc (snd (m (mc_session mc))))"
  using assms by (simp add: on_client_def in_step_def with_session_def split: prod.split)

lemma on_client_bind:
  assumes "in_step mc"
  shows "on_client (bind_io m k) mc = bind_io (on_client m) (\<lambda>a. on_client (k a)) mc"
proof -
  obtain r s where m: "m (mc_session mc) = (r, s)" by (cases "m (mc_session mc)")
  note w = on_client_in_step [OF in_step_with [OF assms, of s]]
  show ?thesis
    by (cases r) (simp_all add: bind_io_def on_client_in_step [OF assms] m w with_session_session with_session_again)
qed

text \<open>Operations that leave the client alone can run on either.\<close>

definition keeps_client :: "('w, 'a) chat \<Rightarrow> bool" where
  "keeps_client m \<longleftrightarrow> (\<forall>s. se_client (snd (m s)) = se_client s)"

lemma on_session_keeps:
  assumes "in_step mc" and "keeps_client m"
  shows "on_session m mc = on_client m mc"
proof -
  obtain r s where m: "m (mc_session mc) = (r, s)" by (cases "m (mc_session mc)")
  have "se_client s = se_client (mc_session mc)" using assms(2) m by (metis keeps_client_def snd_conv)
  then show ?thesis
    using assms(1) by (simp add: on_session_def on_client_in_step [OF assms(1)] m with_session_def in_step_def)
qed

lemma keeps_client_bind:
  assumes "keeps_client m" and "\<And>a. keeps_client (k a)"
  shows "keeps_client (bind_io m k)"
  unfolding keeps_client_def
proof
  fix s
  obtain r s1 where "m s = (r, s1)" by (cases "m s")
  with assms show "se_client (snd (bind_io m k s)) = se_client s"
    by (cases r) (auto simp: bind_io_def keeps_client_def dest: spec [of _ s])
qed

lemma keeps_client_ops:
  "keeps_client (say t)" "keeps_client read_line" "keeps_client get_session" "keeps_client (return_io x)"
  "keeps_client (lift r)" "keeps_client chat_running" "keeps_client (now env)" "keeps_client (warn t)"
  "keeps_client (copy_to_block buf t)"
  by (auto simp: keeps_client_def say_def read_line_def get_session_def return_io_def lift_def chat_running_def
      now_def warn_def copy_to_block_def Let_def split: prod.splits)

lemma keeps_client_record: "keeps_client (record_since env start st)"
  unfolding record_since_def by (intro keeps_client_bind keeps_client_ops)

lemma keeps_client_record_main: "keeps_client (record_main env start)"
proof -
  have "keeps_client (bind_io (record_since env start st) (\<lambda>st s. (Ret (), s\<lparr>se_stats := st\<rparr>)))" for st
    by (rule keeps_client_bind [OF keeps_client_record]) (simp add: keeps_client_def)
  then show ?thesis by (simp add: keeps_client_def record_main_def)
qed

lemma keeps_client_show: "keeps_client (show_report env label st)"
  unfolding show_report_def by (rule keeps_client_bind [OF keeps_client_ops(5)]) (simp add: keeps_client_def)

lemma keeps_client_read: "keeps_client chat_read"
  unfolding chat_read_def by (intro keeps_client_bind keeps_client_ops)

lemma keeps_client_line:
  assumes "line \<notin> {''text'', ''binary'', ''bench''}"
  shows "keeps_client (chat_line env line)"
proof -
  have n: "line \<noteq> ''text''" "line \<noteq> ''binary''" "line \<noteq> ''bench''" using assms by simp_all
  have i: "keeps_client (if b then m1 else m2)" if "keeps_client m1" "keeps_client m2" for b m1 m2 using that by simp
  show ?thesis
    unfolding chat_line_def chat_command_def if_not_P [OF n(1)] if_not_P [OF n(2)] if_not_P [OF n(3)]
    by (intro i keeps_client_bind keeps_client_ops keeps_client_show)
qed

section \<open>Agreement\<close>

text \<open>An operation of the managed chat agrees with one of the plain chat.\<close>

definition agrees :: "('w managed_chat, 'a) io \<Rightarrow> ('w, 'a) chat \<Rightarrow> bool" where
  "agrees m1 m \<longleftrightarrow> (\<forall>mc. in_step mc \<longrightarrow> m1 mc = on_client m mc)"

lemma agrees_client: "agrees (on_client m) m"
  by (simp add: agrees_def)

lemma agrees_session: "keeps_client m \<Longrightarrow> agrees (on_session m) m"
  by (simp add: agrees_def on_session_keeps)

lemma agrees_return: "agrees (return_io x) (return_io x)"
  by (auto simp: agrees_def on_client_in_step return_io_def with_session_def in_step_def)

lemma agrees_if: "agrees a1 a \<Longrightarrow> agrees b1 b \<Longrightarrow> agrees (if c then a1 else b1) (if c then a else b)"
  by simp

lemma agrees_option:
  "agrees a1 a \<Longrightarrow> (\<And>x. agrees (f1 x) (f x)) \<Longrightarrow>
    agrees (case c of None \<Rightarrow> a1 | Some x \<Rightarrow> f1 x) (case c of None \<Rightarrow> a | Some x \<Rightarrow> f x)"
  by (cases c) simp_all

lemma agrees_bind:
  assumes "agrees m1 m" and "\<And>a. agrees (k1 a) (k a)"
  shows "agrees (bind_io m1 k1) (bind_io m k)"
  unfolding agrees_def
proof (intro allI impI)
  fix mc :: "'a managed_chat" assume i: "in_step mc"
  obtain r s where m: "m (mc_session mc) = (r, s)" by (cases "m (mc_session mc)")
  have m1: "m1 mc = (r, with_session mc s)" using assms(1) i by (simp add: agrees_def on_client_in_step m)
  have k1: "k1 a (with_session mc s) = on_client (k a) (with_session mc s)" for a
    using assms(2) in_step_with [OF i] by (simp add: agrees_def)
  show "bind_io m1 k1 mc = on_client (bind_io m k) mc"
    unfolding on_client_bind [OF i] by (cases r) (simp_all add: bind_io_def m1 k1 on_client_in_step [OF i] m)
qed

lemma bind_io_assoc: "bind_io (bind_io m f) g = bind_io m (\<lambda>a. bind_io (f a) g)"
proof
  fix s show "bind_io (bind_io m f) g s = bind_io m (\<lambda>a. bind_io (f a) g) s"
    by (cases "m s"; cases "fst (m s)") (auto simp: bind_io_def)
qed

lemma bind_no_acts [simp]: "bind_io (managed_acts cenv []) k = k ()"
  by (rule ext) (simp add: bind_io_def)

lemmas agrees_rules = agrees_bind agrees_client agrees_session agrees_return agrees_if agrees_option

lemma agrees_exchange: "agrees (managed_exchange env cenv [] kind send) (exchange env kind send)"
  unfolding managed_exchange_def exchange_def managed_spin.simps
  by (intro agrees_rules keeps_client_ops keeps_client_record_main)

lemma agrees_message:
  "agrees (managed_message env cenv [] [] prompt kind send)
     (bind_io (say prompt) (\<lambda>_. bind_io read_line (\<lambda>ok.
        if \<not> ok then return_io False
        else bind_io get_session (\<lambda>s. bind_io (exchange env kind (send (se_input s))) (\<lambda>_. return_io True)))))"
  unfolding managed_message_def bind_no_acts bind_io_assoc [symmetric, of "say prompt"] next_polls_def list.case
  by (intro agrees_rules agrees_exchange keeps_client_bind keeps_client_ops)

lemma agrees_with_block:
  assumes "\<And>buf. agrees (body1 buf) (body buf)"
  shows "agrees (managed_with_block body1) (with_block body)"
  unfolding agrees_def
proof (intro allI impI)
  fix mc :: "'a managed_chat" assume i: "in_step mc"
  let ?s = "mc_session mc"
  obtain buf w1 where n: "poolptr_new world_alloc 0 (se_world ?s) = (buf, w1)"
    by (cases "poolptr_new world_alloc 0 (se_world ?s)")
  let ?s1 = "?s\<lparr>se_world := w1\<rparr>" and ?mc1 = "mc\<lparr>mc_session := ?s\<lparr>se_world := w1\<rparr>\<rparr>"
  obtain r s2 where b: "body buf ?s1 = (r, s2)" by (cases "body buf ?s1")
  have i1: "in_step ?mc1" using i by (simp add: in_step_def)
  have "body1 buf ?mc1 = (r, with_session mc s2)"
    using assms i1 b by (simp add: agrees_def on_client_in_step [OF i1] with_session_def)
  with n b show "managed_with_block body1 mc = on_client (with_block body) mc"
    by (simp add: managed_with_block_def with_block_def on_client_in_step [OF i] with_session_def
        split: outcome.split sum.split)
qed

lemma agrees_bench_body: "agrees (managed_bench_body env cenv [] i st buf) (bench_body env i st buf)"
  unfolding managed_bench_body_def bench_body_def managed_spin.simps
  by (intro agrees_rules keeps_client_ops keeps_client_record)

lemma agrees_bench_loop: "agrees (managed_bench_loop env cenv [] i n st) (bench_loop env i n st)"
proof (induction n arbitrary: i st)
  case (Suc n)
  then show ?case
    by (auto simp: next_polls_def intro!: agrees_rules agrees_with_block agrees_bench_body)
qed (simp add: agrees_return)

lemma agrees_bench:
  "agrees (managed_bench env cenv []) (bind_io (bench_command env) (\<lambda>_. return_io True))"
  unfolding managed_bench_def bench_command_def bind_io_assoc
  by (intro agrees_rules agrees_bench_loop keeps_client_ops keeps_client_show)

lemma agrees_line: "agrees (managed_line env cenv [] [] line) (chat_line env line)"
proof -
  consider (message) "line = ''text''" | (binary) "line = ''binary''" | (bench) "line = ''bench''"
    | (other) "line \<notin> {''text'', ''binary'', ''bench''}" by blast
  then show ?thesis
  proof cases
    case message
    then show ?thesis using agrees_message [of env cenv "''Message: ''" "''text''" "chat_send_text env"]
      by (simp add: managed_line_def chat_line_def chat_command_def)
  next
    case binary
    then show ?thesis
      using agrees_message [of env cenv "''Data: ''" "''binary''" "\<lambda>input. chat_send_binary env (string_bytes input)"]
      by (simp add: managed_line_def chat_line_def chat_command_def)
  next
    case bench
    then show ?thesis using agrees_bench by (simp add: managed_line_def chat_line_def chat_command_def)
  next
    case other
    then show ?thesis using keeps_client_line [of line env] by (auto simp: managed_line_def intro: agrees_session)
  qed
qed

section \<open>A reply that is lost\<close>

text \<open>The receiver has returned and left nothing in the queue, and nobody is reconnecting.\<close>

definition drained :: "'w conn_manager \<Rightarrow> bool" where
  "drained cm \<longleftrightarrow> \<not> active cm \<and> (\<exists>cl. cm_client cm = Some cl \<and> receiver_gone cl \<and> \<not> is_running cl \<and>
     spsc_inv kQueueCapacity (cl_queue cl) \<and> queued cl = [])"

definition lost :: "'w managed_chat \<Rightarrow> bool" where
  "lost mc \<longleftrightarrow> \<not> mc_alive mc \<or> drained (mc_cm mc)"

lemma drainedI:
  "\<lbrakk>\<not> active cm; cm_client cm = Some cl; receiver_gone cl; \<not> is_running cl;
    spsc_inv kQueueCapacity (cl_queue cl); queued cl = []\<rbrakk> \<Longrightarrow> drained cm"
  by (auto simp: drained_def)

lemma drained_monitor:
  assumes "drained cm" and "cm_monitor_thread cm = Running pc" and "monitor_at env pc cm = Inr (pc', cm')"
  shows "cm_client cm' = None \<or> drained (cm'\<lparr>cm_monitor_thread := Running pc'\<rparr>)"
proof (cases pc)
  case M_Awake
  show ?thesis
  proof (cases "cm_should_run cm \<and> connection_lost cm")
    case True
    with M_Awake assms(3) obtain cm1 cm2 where "client_reset env cm1 = Inr cm2" "cm_client cm' = cm_client cm2"
      by (auto split: if_splits)
    then show ?thesis by (auto dest!: client_reset_frame)
  next
    case False
    with assms M_Awake show ?thesis by (auto simp: drained_def active_def split: if_splits)
  qed
next
  case (M_Reconnect x)
  with assms(1,2) show ?thesis by (simp add: drained_def active_def)
qed (use assms in \<open>auto simp: drained_def active_def split: if_splits\<close>)

lemma drained_heartbeat:
  assumes "drained cm" and "heartbeat_at env pc cm = Inr (pc', cm')"
  shows "drained (cm'\<lparr>cm_heartbeat_thread := Running pc'\<rparr>)"
  using assms by (cases pc) (auto simp: drained_def active_def split: if_splits)

lemma drained_step:
  assumes "drained cm" and "cm_step env a (Idle, cm) = Inr (m, cm')" and "a \<in> {Mon, Hb, Rc, Receiver}"
  shows "cm_client cm' = None \<or> drained cm'"
proof -
  from assms(1) obtain cl where cl: "cm_client cm = Some cl" "receiver_gone cl" "\<not> is_running cl"
    by (auto simp: drained_def)
  from assms(3) consider "a = Mon" | "a = Hb" | "a = Rc" | "a = Receiver" by blast
  then show ?thesis
  proof cases
    case 1
    with assms(1,2) show ?thesis
      by (cases "cm_monitor_thread cm") (auto simp: on_thread_def dest!: drained_monitor [OF assms(1)])
  next
    case 2
    with assms(1,2) show ?thesis
      by (cases "cm_heartbeat_thread cm") (auto simp: on_thread_def dest!: drained_heartbeat [OF assms(1)])
  next
    case 3
    with assms(1,2) show ?thesis
      by (cases "cm_reconnect_thread cm") (auto simp: on_thread_def drained_def active_def)
  next
    case 4
    with assms(1,2) cl show ?thesis
      by (auto simp: recv_action_def receiver_gone_def receive_step_def drained_def active_def)
  qed
qed

lemma lost_acts:
  assumes "lost mc" and "set acts \<subseteq> {Mon, Hb, Rc, Receiver}"
  shows "(\<exists>e mc'. managed_acts cenv acts mc = (Crash e, mc')) \<or>
    (\<exists>mc'. managed_acts cenv acts mc = (Ret (), mc') \<and> lost mc')"
  using assms
proof (induction acts arbitrary: mc)
  case (Cons a acts)
  show ?case
  proof (cases "cm_step cenv a (Idle, mc_cm mc)")
    case (Inr p)
    obtain m cm where p: "p = (m, cm)" by (cases p)
    have "lost (mc\<lparr>mc_cm := cm, mc_alive := mc_alive mc \<and> cm_client cm \<noteq> None\<rparr>)"
      using Cons.prems drained_step [of "mc_cm mc" cenv a m cm] Inr p by (auto simp: lost_def)
    with Cons Inr p show ?thesis by simp
  qed simp
qed simp

lemma lost_poll:
  assumes "lost mc"
  shows "on_client (chat_try_receive env) mc = (Crash UB_UseAfterFree, mc) \<or>
    (\<exists>mc'. on_client (chat_try_receive env) mc = (Ret None, mc') \<and> lost mc')"
proof (cases "mc_alive mc")
  case True
  with assms obtain cl where cl: "cm_client (mc_cm mc) = Some cl" "spsc_inv kQueueCapacity (cl_queue cl)" "queued cl = []"
    by (auto simp: lost_def drained_def)
  then have "try_receive (ce_api env) cl = Inr (None, cl)"
    using try_pop_empty [OF cl(2,3)] by (simp add: try_receive_def)
  with True cl(1) assms show ?thesis
    by (auto simp: on_client_def chat_try_receive_def lost_def drained_def active_def)
qed (simp add: on_client_dead)

lemma lost_spin_end:
  assumes "lost mc"
  shows "\<exists>e mc'. on_client (chat_spin_receive env) mc = (Crash e, mc')"
proof (cases "mc_alive mc")
  case True
  with assms obtain cl where cl: "cm_client (mc_cm mc) = Some cl" "receiver_gone cl"
    "spsc_inv kQueueCapacity (cl_queue cl)" "queued cl = []" by (auto simp: lost_def drained_def)
  with True spin_receive_stuck [OF cl(2-4)] show ?thesis
    by (simp add: on_client_def chat_spin_receive_def Let_def)
qed (simp add: on_client_dead)

lemma lost_spin:
  assumes "lost mc" and "\<forall>acts \<in> set polls. set acts \<subseteq> {Mon, Hb, Rc, Receiver}"
  shows "\<exists>e mc'. managed_spin env cenv polls mc = (Crash e, mc')"
  using assms
proof (induction polls arbitrary: mc)
  case Nil
  then show ?case by (simp add: lost_spin_end)
next
  case (Cons acts polls)
  from Cons.prems lost_acts [of mc acts cenv] consider
    (crash) e mc1 where "managed_acts cenv acts mc = (Crash e, mc1)"
    | (ret) mc1 where "managed_acts cenv acts mc = (Ret (), mc1)" "lost mc1" by auto
  then show ?case
  proof cases
    case (ret mc1)
    from lost_poll [OF ret(2), of env] show ?thesis
    proof (elim disjE exE conjE)
      fix mc2 assume p: "on_client (chat_try_receive env) mc1 = (Ret None, mc2)" "lost mc2"
      with Cons.IH [OF p(2)] Cons.prems(2) ret show ?thesis by (simp add: bind_io_def)
    qed (simp add: bind_io_def ret)
  qed (simp add: bind_io_def)
qed

section \<open>Properties\<close>



text \<open>C29: With \<open>--reconnect\<close>, a reply that is lost with the connection is waited for forever or worse. When the receiver
  has ended with nothing in the queue while the chat polls for a reply, \<open>spin_receive\<close> does not
  return, whatever the manager's threads do between the polls, a successful reconnect included: the new
  client is another object. And as soon as the monitor has woken up, the next poll uses freed memory.\<close>

theorem managed_reply_lost:
  assumes "cm_client (mc_cm mc) = Some cl" and "receiver_gone cl" and "\<not> is_running cl"
    and "spsc_inv kQueueCapacity (cl_queue cl)" and "queued cl = []"
    and "\<not> rc_active (cm_reconnect_thread (mc_cm mc))" and "\<not> mon_active (cm_monitor_thread (mc_cm mc))"
    and "\<forall>acts \<in> set polls. set acts \<subseteq> {Mon, Hb, Rc, Receiver}"
  shows "(\<exists>e mc'. managed_spin env cenv polls mc = (Crash e, mc')) \<and>
    (cm_should_run (mc_cm mc) \<and> cm_monitor_thread (mc_cm mc) = Running M_Loop \<and>
     (\<forall>e. cm_on_disconnect (mc_cm mc) \<noteq> Throws e) \<and>
     client_destroy (env_steps cenv) (env_api cenv) (env_os cenv) ''ws'' cl = Inr (Some w) \<longrightarrow>
     (\<exists>mc'. managed_spin env cenv ([Mon, Mon] # rest) mc = (Crash UB_UseAfterFree, mc')))"
proof
  have "lost mc" using assms(1-7) by (auto simp: lost_def active_def intro: drainedI)
  then show "\<exists>e mc'. managed_spin env cenv polls mc = (Crash e, mc')" using assms(8) by (rule lost_spin)
  show "cm_should_run (mc_cm mc) \<and> cm_monitor_thread (mc_cm mc) = Running M_Loop \<and>
     (\<forall>e. cm_on_disconnect (mc_cm mc) \<noteq> Throws e) \<and>
     client_destroy (env_steps cenv) (env_api cenv) (env_os cenv) ''ws'' cl = Inr (Some w) \<longrightarrow>
     (\<exists>mc'. managed_spin env cenv ([Mon, Mon] # rest) mc = (Crash UB_UseAfterFree, mc'))"
    using monitor_destroys [OF assms(1,3), of cenv w]
    by (auto simp: bind_io_def on_client_dead simp del: managed_acts.simps)
qed

text \<open>The example: the receiver of the manager's client has returned, the monitor is asleep.\<close>

definition lost_client :: "bool list client" where
  "lost_client = (client_new flaky_api [] ''localhost'' ''8765'' client_config_default)\<lparr>cl_receiver := Running R_Done\<rparr>"

definition lost_chat :: "bool list managed_chat" where
  "lost_chat = \<lparr>mc_cm = (cm_new [] demo_config)\<lparr>cm_client := Some lost_client, cm_should_run := True,
     cm_monitor_thread := Running M_Loop\<rparr>, mc_session = lost_session, mc_alive = True\<rparr>"

theorem managed_reply_lost_witness:
  "(\<exists>e mc. managed_spin lost_env (demo_env flaky_api) [[Receiver], [Mon, Hb], []] lost_chat = (Crash e, mc)) \<and>
   (\<exists>mc. managed_spin lost_env (demo_env flaky_api) ([Mon, Mon] # []) lost_chat = (Crash UB_UseAfterFree, mc))"
proof -
  have g: "cl_receiver lost_client = Running R_Done" "\<not> is_running lost_client"
    by (simp_all add: lost_client_def client_new_def is_running_def)
  have q: "spsc_inv kQueueCapacity (cl_queue lost_client)" "queued lost_client = []"
    using demo_inv [of linux_os "''ws''" "[]"] queued_demo [of "[]"]
    by (simp_all add: lost_client_def client_inv_def demo_client_def client_new_def)
  have d: "client_destroy (env_steps (demo_env flaky_api)) (env_api (demo_env flaky_api)) (env_os (demo_env flaky_api)) ''ws'' lost_client =
      Inr (Some (cl_stream lost_client))"
    using flaky_destroy [OF g(1)] by simp
  show ?thesis
    using managed_reply_lost [of lost_chat lost_client "[[Receiver], [Mon, Hb], []]" lost_env "demo_env flaky_api"
        "cl_stream lost_client" "[]"] g q d
    by (simp add: lost_chat_def cm_new_def receiver_gone_def del: managed_spin.simps)
qed

end
