(* ===== verification/Io_Safety.thy ===== *)
theory Io_Safety
  imports WS_Prelude
begin

text \<open>
  Triples for operations that return, throw, or end the program: from a state that meets the
  precondition, an operation that returns meets the postcondition of its result, one that throws
  leaves a state the handler can rely on, and one that does neither waits forever. Undefined
  behaviour, a failed assertion and \<open>std::terminate\<close> are excluded.
\<close>

fun is_hang :: "cxx_error \<Rightarrow> bool" where
  "is_hang (Hangs what) = True"
| "is_hang _ = False"

definition safe :: "('s \<Rightarrow> bool) \<Rightarrow> ('s, 'a) io \<Rightarrow> ('a \<Rightarrow> 's \<Rightarrow> bool) \<Rightarrow> ('s \<Rightarrow> bool) \<Rightarrow> bool" where
  "safe P m Q E \<longleftrightarrow> (\<forall>s. P s \<longrightarrow>
     (case m s of (Ret a, s') \<Rightarrow> Q a s' | (Throw e, s') \<Rightarrow> E s' | (Crash c, s') \<Rightarrow> is_hang c))"

lemma safeI:
  assumes "\<And>s a s'. P s \<Longrightarrow> m s = (Ret a, s') \<Longrightarrow> Q a s'" and "\<And>s e s'. P s \<Longrightarrow> m s = (Throw e, s') \<Longrightarrow> E s'"
    and "\<And>s c s'. P s \<Longrightarrow> m s = (Crash c, s') \<Longrightarrow> is_hang c"
  shows "safe P m Q E"
  using assms by (auto simp: safe_def split: prod.splits outcome.splits)

lemma safeD:
  assumes "safe P m Q E" and "P s"
  shows "m s = (Ret a, s') \<Longrightarrow> Q a s'" and "m s = (Throw e, s') \<Longrightarrow> E s'" and "m s = (Crash c, s') \<Longrightarrow> is_hang c"
  using assms by (force simp: safe_def split: prod.splits outcome.splits)+

text \<open>One rule per combinator, and the rules of consequence.\<close>

named_theorems safe_rules \<open>triples for the combinators\<close>

lemma safe_return [safe_rules]: "(\<And>s. P s \<Longrightarrow> Q a s) \<Longrightarrow> safe P (return_io a) Q E"
  by (simp add: safe_def return_io_def)

lemma safe_bind:
  assumes "safe P m Q E" and "\<And>a. safe (Q a) (k a) R E"
  shows "safe P (bind_io m k) R E"
  unfolding safe_def
proof (intro allI impI)
  fix s assume "P s"
  with assms(1) have m: "case m s of (Ret a, s') \<Rightarrow> Q a s' | (Throw e, s') \<Rightarrow> E s' | (Crash c, s') \<Rightarrow> is_hang c"
    by (simp add: safe_def)
  show "case bind_io m k s of (Ret a, s') \<Rightarrow> R a s' | (Throw e, s') \<Rightarrow> E s' | (Crash c, s') \<Rightarrow> is_hang c"
  proof (cases "(m s, k)" rule: bind_outcome.cases)
    case (1 a s' k')
    then have "Q a s'" using m by simp
    with assms(2) [of a] 1 show ?thesis by (simp add: bind_io_def safe_def)
  qed (use m in \<open>auto simp: bind_io_def\<close>)
qed

lemma safe_if: "(c \<Longrightarrow> safe P a Q E) \<Longrightarrow> (\<not> c \<Longrightarrow> safe P b Q E) \<Longrightarrow> safe P (if c then a else b) Q E"
  by simp

lemma safe_pre: "safe P m Q E \<Longrightarrow> (\<And>s. P' s \<Longrightarrow> P s) \<Longrightarrow> safe P' m Q E"
  by (auto simp: safe_def)

lemma safe_conseq:
  assumes "safe P m Q E" and "\<And>s. P' s \<Longrightarrow> P s" and "\<And>a s. Q a s \<Longrightarrow> Q' a s" and "\<And>s. E s \<Longrightarrow> E' s"
  shows "safe P' m Q' E'"
  using assms(1) unfolding safe_def by (fastforce split: prod.splits outcome.splits intro: assms(2-4))

lemma safe_pure: "(p \<Longrightarrow> safe P m Q E) \<Longrightarrow> safe (\<lambda>s. p \<and> P s) m Q E"
  by (auto simp: safe_def)

lemma safe_never: "safe (\<lambda>s. False) m Q E"
  by (simp add: safe_def)

text \<open>An operation that keeps a property whether it returns or throws.\<close>

abbreviation safe_inv :: "('s \<Rightarrow> bool) \<Rightarrow> ('s, 'a) io \<Rightarrow> bool" where
  "safe_inv I m \<equiv> safe I m (\<lambda>_. I) I"

end
