(* ===== verification/Chat_Properties.thy ===== *)
theory Chat_Properties
  imports Chat_Session Client_Properties
begin

text \<open>
  The session keeps its pool: whatever the user types, every block the benchmark borrows goes
  back, also when sending throws; and a benchmark that ends has measured all its messages.
\<close>

section \<open>The pool of a session\<close>

abbreviation pool_ok :: "pool_world \<Rightarrow> bool" where
  "pool_ok w \<equiv> world_inv kPoolBlockSize kPoolNumBlocks 0 w"

abbreviation pool_set :: "pool_world \<Rightarrow> ptr set" where
  "pool_set w \<equiv> world_blocks kPoolBlockSize kPoolNumBlocks 0 w"

definition pool_same :: "pool_world \<Rightarrow> pool_world \<Rightarrow> bool" where
  "pool_same w w' \<longleftrightarrow> pool_ok w' \<and> world_free 0 w' = world_free 0 w \<and> pool_set w' = pool_set w"

definition pool_kept :: "'w session \<Rightarrow> 'w session \<Rightarrow> bool" where
  "pool_kept s s' \<longleftrightarrow> (pool_ok (se_world s) \<longrightarrow> pool_same (se_world s) (se_world s'))"

interpretation kept: session_preorder pool_kept
  by unfold_locales (auto simp: pool_kept_def pool_same_def)

lemma same_kept: "obeys same_world_input m \<Longrightarrow> obeys pool_kept m"
  by (erule obeys_mono) (simp add: same_world_input_def pool_kept_def pool_same_def)

lemma kept_read_line: "obeys pool_kept read_line"
  by (rule obeysI) (auto simp: read_line_def pool_kept_def pool_same_def split: prod.splits)

text \<open>A block the session may use: the null pointer of a failed allocation, or a block that is not
  on the free list.\<close>

definition block_ok :: "pool_ptr \<Rightarrow> pool_world \<Rightarrow> bool" where
  "block_ok buf w \<longleftrightarrow> pool_ok w \<and> pp_ptr buf \<in> insert nullptr (pool_set w) \<and> pp_ptr buf \<notin> set (world_free 0 w)"

lemma with_block_cases:
  assumes "pool_ok (se_world s)"
  obtains buf w1 where "poolptr_new world_alloc 0 (se_world s) = (buf, w1)" and "block_ok buf w1"
    and "poolptr_bool buf \<longleftrightarrow> world_free 0 (se_world s) \<noteq> []"
    and "\<And>w2. pool_same w1 w2 \<Longrightarrow>
      \<exists>w3. poolptr_destroy (world_dealloc kPoolBlockSize kPoolNumBlocks) buf w2 = Inr w3 \<and> pool_same (se_world s) w3"
proof (cases "world_free 0 (se_world s)")
  case Nil
  let ?buf = "\<lparr>pp_pool = 0, pp_ptr = nullptr\<rparr>"
  from mpool.alloc_none [OF assms Nil] show ?thesis
    using Nil assms
    by (intro that [of ?buf "se_world s"])
      (auto simp: poolptr_new_def block_ok_def poolptr_bool_def poolptr_destroy_def)
next
  case (Cons p ps)
  let ?buf = "\<lparr>pp_pool = 0, pp_ptr = p\<rparr>"
  from mpool.alloc_some [OF assms Cons] obtain w1 where
    w1: "world_alloc 0 (se_world s) = (p, w1)" "pool_ok w1" "world_free 0 w1 = ps" "pool_set w1 = pool_set (se_world s)"
    by blast
  have p: "p \<in> pool_set (se_world s)" "p \<notin> set ps" "p \<noteq> nullptr"
    using mpool.free_blocks [OF assms] mpool.not_null [OF assms] Cons by auto
  show ?thesis
  proof (rule that [of ?buf w1])
    fix w2 assume "pool_same w1 w2"
    then have w2: "pool_ok w2" "world_free 0 w2 = ps" "pool_set w2 = pool_set (se_world s)"
      by (simp_all add: pool_same_def w1)
    with mpool.dealloc_block [OF w2(1), of p] p obtain w3 where
      "world_dealloc kPoolBlockSize kPoolNumBlocks 0 p w2 = Inr w3" "pool_ok w3" "world_free 0 w3 = p # ps"
      "pool_set w3 = pool_set w2" by auto
    with Cons w2 p show "\<exists>w3. poolptr_destroy (world_dealloc kPoolBlockSize kPoolNumBlocks) ?buf w2 = Inr w3 \<and>
        pool_same (se_world s) w3"
      by (simp add: poolptr_destroy_def pool_same_def)
  qed (use w1 p Cons in \<open>simp_all add: poolptr_new_def block_ok_def poolptr_bool_def\<close>)
qed

text \<open>What a scope with a block returns and leaves, from what its body does with a block it may use.\<close>

lemma with_block_pool:
  assumes body: "\<And>buf s r s'. body buf s = (r, s') \<Longrightarrow> \<forall>e. r \<noteq> Crash e \<Longrightarrow> block_ok buf (se_world s) \<Longrightarrow>
      pool_same (se_world s) (se_world s')"
    and w: "with_block body s = (r, s')" and ok: "\<forall>e. r \<noteq> Crash e" and inv: "pool_ok (se_world s)"
  shows "pool_same (se_world s) (se_world s') \<and>
    (\<exists>buf s1 s2. block_ok buf (se_world s1) \<and> (poolptr_bool buf \<longleftrightarrow> world_free 0 (se_world s) \<noteq> []) \<and>
       body buf s1 = (r, s2))"
proof -
  obtain buf w1 where n: "poolptr_new world_alloc 0 (se_world s) = (buf, w1)" and b: "block_ok buf w1"
    and nb: "poolptr_bool buf \<longleftrightarrow> world_free 0 (se_world s) \<noteq> []"
    and d: "\<And>w2. pool_same w1 w2 \<Longrightarrow>
      \<exists>w3. poolptr_destroy (world_dealloc kPoolBlockSize kPoolNumBlocks) buf w2 = Inr w3 \<and> pool_same (se_world s) w3"
    using with_block_cases [OF inv] by blast
  let ?s1 = "s\<lparr>se_world := w1\<rparr>"
  obtain r1 s2 where r1: "body buf ?s1 = (r1, s2)" by (cases "body buf ?s1")
  have r1ok: "\<forall>e. r1 \<noteq> Crash e"
  proof (cases r1)
    case (Crash e)
    then have "with_block body s = (Crash e, s2)" using n r1 by (simp add: with_block_def)
    with w have "r = Crash e" by simp
    with ok show ?thesis by blast
  qed simp_all
  have "pool_same w1 (se_world s2)" using body [OF r1 r1ok] b by simp
  from d [OF this] obtain w3 where
    w3: "poolptr_destroy (world_dealloc kPoolBlockSize kPoolNumBlocks) buf (se_world s2) = Inr w3"
      "pool_same (se_world s) w3" by blast
  have "with_block body s = (r1, s2\<lparr>se_world := w3\<rparr>)"
    using n r1 r1ok w3(1) by (cases r1) (simp_all add: with_block_def)
  with w have "r = r1" and "s' = s2\<lparr>se_world := w3\<rparr>" by simp_all
  with w3(2) b nb r1 have "pool_same (se_world s) (se_world s')" "body buf ?s1 = (r, s2)" "block_ok buf (se_world ?s1)"
    by simp_all
  with nb show ?thesis by blast
qed

section \<open>The benchmark\<close>

lemma copy_to_block_pool:
  assumes "block_ok buf (se_world s)" and "poolptr_bool buf" and "copy_to_block buf msg s = (r, s')"
  shows "pool_same (se_world s) (se_world s')"
proof -
  let ?w = "se_world s" and ?bs = "take (min (length msg) (unat kPoolBlockSize)) (string_bytes msg)"
  have geo: "unat kPoolBlockSize + 15 < 2 ^ 64" by (simp add: kPoolBlockSize_def)
  have len: "length ?bs \<le> unat (kAlignedBlockSize kPoolBlockSize)"
    using kAlignedBlockSize_bounds(1) [OF geo] by simp
  have "pool_inv kPoolBlockSize kPoolNumBlocks (w_mem ?w) (w_pools ?w 0)"
    and "poolptr_get buf \<in> set (pool_blocks kPoolBlockSize kPoolNumBlocks (pl_storage (w_pools ?w 0)))"
    and "poolptr_get buf \<notin> set (pool_free (w_mem ?w) (w_pools ?w 0))"
    using assms(1,2) by (auto simp: block_ok_def world_defs poolptr_get_def poolptr_bool_def)
  from pool_inv_write [OF this len] assms(3) show ?thesis
    by (auto simp: copy_to_block_def Let_def pool_same_def world_defs)
qed

text \<open>The part of an iteration after the copy.\<close>

definition bench_tail :: "'w chat_env \<Rightarrow> nat \<Rightarrow> latency_stats \<Rightarrow> ('w, latency_stats option) chat" where
  "bench_tail env i st =
     bind_io (now env) (\<lambda>t_start.
     bind_io (chat_send_text env (bench_msg i)) (\<lambda>_.
     bind_io (chat_spin_receive env) (\<lambda>response.
     bind_io (record_since env t_start st) (\<lambda>st'. return_io (Some st')))))"

lemma bench_tail_same: "obeys same_world_input (bench_tail env i st)"
  unfolding bench_tail_def by (intro same.obeys_rules same_ops)

lemma record_since_count:
  assumes "record_since env t st s = (Ret st', s')"
  shows "length (samples_ns st') = Suc (length (samples_ns st))"
proof -
  from assms obtain t' s1 where "lift (record_tp t' t st) s1 = (Ret st', s')"
    by (auto simp: record_since_def bind_io_Ret_iff)
  then have "record_tp t' t st = Inr st'" by (cases "record_tp t' t st") (auto simp: lift_def)
  then show ?thesis by (auto simp: record_tp_def Let_def record_ns_def split: if_splits)
qed

lemma bench_tail_count:
  assumes "bench_tail env i st s = (Ret r, s')"
  shows "\<exists>st'. r = Some st' \<and> length (samples_ns st') = Suc (length (samples_ns st))"
  using assms by (auto simp: bench_tail_def bind_io_Ret_iff return_io_def dest: record_since_count)

lemma bench_body_block:
  "poolptr_bool buf \<Longrightarrow> bench_body env i st buf = bind_io (copy_to_block buf (bench_msg i)) (\<lambda>_. bench_tail env i st)"
  by (simp add: bench_body_def bench_tail_def)

lemma copy_to_block_returns: "\<exists>s1. copy_to_block buf msg s = (Ret (), s1)"
  by (simp add: copy_to_block_def Let_def)

lemma bench_body_pool:
  assumes r: "bench_body env i st buf s = (r, s')" and ok: "\<forall>e. r \<noteq> Crash e" and b: "block_ok buf (se_world s)"
  shows "pool_same (se_world s) (se_world s')"
proof (cases "poolptr_bool buf")
  case True
  obtain s1 where s1: "copy_to_block buf (bench_msg i) s = (Ret (), s1)" using copy_to_block_returns by blast
  with r True have t: "bench_tail env i st s1 = (r, s')" by (simp add: bench_body_block bind_io_def)
  from obeysD [OF bench_tail_same t ok] copy_to_block_pool [OF b True s1] show ?thesis
    by (simp add: same_world_input_def)
next
  case False
  then have "obeys same_world_input (bench_body env i st buf)"
    unfolding bench_body_def by simp (intro same.obeys_rules same_ops)
  from obeysD [OF this r ok] b show ?thesis by (simp add: same_world_input_def pool_same_def block_ok_def)
qed

lemma bench_body_count:
  assumes "bench_body env i st buf s = (Ret r, s')" and "poolptr_bool buf"
  shows "\<exists>st'. r = Some st' \<and> length (samples_ns st') = Suc (length (samples_ns st))"
  using assms bench_tail_count by (auto simp: bench_body_block bind_io_Ret_iff)

lemma bench_iteration:
  assumes "with_block (bench_body env i st) s = (r, s')" and "\<forall>e. r \<noteq> Crash e" and "pool_ok (se_world s)"
  shows "pool_same (se_world s) (se_world s')"
    and "world_free 0 (se_world s) \<noteq> [] \<Longrightarrow> r = Ret x \<Longrightarrow>
      \<exists>st'. x = Some st' \<and> length (samples_ns st') = Suc (length (samples_ns st))"
proof -
  have w: "pool_same (se_world s) (se_world s') \<and>
    (\<exists>buf s1 s2. block_ok buf (se_world s1) \<and> (poolptr_bool buf \<longleftrightarrow> world_free 0 (se_world s) \<noteq> []) \<and>
       bench_body env i st buf s1 = (r, s2))"
    by (rule with_block_pool [OF _ assms]) (rule bench_body_pool)
  then show "pool_same (se_world s) (se_world s')" ..
  show "\<exists>st'. x = Some st' \<and> length (samples_ns st') = Suc (length (samples_ns st))"
    if "world_free 0 (se_world s) \<noteq> []" "r = Ret x"
    using w that bench_body_count by blast
qed

lemma kept_bench_iteration: "obeys pool_kept (with_block (bench_body env i st))"
  by (rule obeysI) (auto simp: pool_kept_def dest: bench_iteration(1))

lemma kept_bench_loop: "obeys pool_kept (bench_loop env i n st)"
  by (induction n arbitrary: i st) (auto intro!: kept.obeys_rules kept_bench_iteration)

lemma bench_loop_count:
  "bench_loop env i n st s = (Ret st', s') \<Longrightarrow> pool_ok (se_world s) \<Longrightarrow> world_free 0 (se_world s) \<noteq> [] \<Longrightarrow>
   length (samples_ns st') = length (samples_ns st) + n"
proof (induction n arbitrary: i st s)
  case (Suc n)
  from Suc.prems(1) obtain x s1 where
    it: "with_block (bench_body env i st) s = (Ret x, s1)"
    and rest: "(case x of None \<Rightarrow> return_io st | Some st1 \<Rightarrow> bench_loop env (Suc i) n st1) s1 = (Ret st', s')"
    by (auto simp: bind_io_Ret_iff)
  have nc: "\<forall>e. Ret x \<noteq> Crash e" by simp
  from bench_iteration(2) [OF it nc Suc.prems(2,3) refl] obtain st1 where
    x: "x = Some st1" "length (samples_ns st1) = Suc (length (samples_ns st))" by blast
  have "pool_ok (se_world s1)" "world_free 0 (se_world s1) \<noteq> []"
    using bench_iteration(1) [OF it nc Suc.prems(2)] Suc.prems(3) by (simp_all add: pool_same_def)
  from Suc.IH [OF _ this] rest x show ?case by simp
qed (simp add: return_io_def)

section \<open>Every command keeps the pool\<close>

lemma kept_command: "obeys pool_kept (chat_command env line)"
  unfolding chat_command_def bench_command_def
  by (intro kept.obeys_rules same_ops [THEN same_kept] same_exchange [THEN same_kept] kept_read_line
      kept_bench_loop same_ops)

lemma kept_step: "obeys pool_kept (chat_step env)"
  unfolding chat_step_def chat_read_def chat_line_def
  by (intro kept.obeys_rules same_ops [THEN same_kept] kept_read_line kept_command)

lemma kept_loop: "chat_loop env s = (r, s') \<Longrightarrow> \<forall>e. r \<noteq> Crash e \<Longrightarrow> pool_kept s s'"
proof (induction env s rule: chat_loop.induct)
  case (1 env s)
  obtain r1 s1 where st: "chat_step env s = (r1, s1)" by (cases "chat_step env s")
  show ?case
  proof (cases r1)
    case (Ret b)
    with obeysD [OF kept_step st] have k: "pool_kept s s1" by simp
    show ?thesis
    proof (cases b)
      case True
      with 1(1) [OF st [symmetric], of b] 1(2,3) Ret st have "pool_kept s1 s'"
        by (simp add: chat_loop.simps [of env s])
      with k show ?thesis by (rule kept.trans)
    next
      case False
      with 1(2) Ret st k show ?thesis by (simp add: chat_loop.simps [of env s])
    qed
  next
    case (Throw e)
    with 1(2) st obeysD [OF kept_step st] show ?thesis by (simp add: chat_loop.simps [of env s])
  next
    case (Crash e)
    with 1(2) st have "r = Crash e" by (simp add: chat_loop.simps [of env s])
    with 1(3) show ?thesis by blast
  qed
qed

lemma same_greeting: "obeys same_world_input (await_greeting env n)"
  by (induction n) (auto intro!: same.obeys_rules same_ops split: option.split)

lemma same_close: "obeys same_world_input (chat_close env)"
  by (rule obeysI) (auto simp: chat_close_def same_world_input_def split: sum.splits option.splits)

lemma kept_loop_op: "obeys pool_kept (chat_loop env)"
  by (rule obeysI) (rule kept_loop)

text \<open>The session after its pool has been made.\<close>

definition chat_rest :: "'w chat_env \<Rightarrow> ('w, unit) chat" where
  "chat_rest env =
     bind_io (say pool_init_msg) (\<lambda>_.
     bind_io (say (''[*] Waiting for server greeting...'' @ nl)) (\<lambda>_.
     bind_io (await_greeting env 100) (\<lambda>_.
     bind_io (say menu_text) (\<lambda>_.
     bind_io (chat_loop env) (\<lambda>_.
     bind_io get_session (\<lambda>s.
     bind_io (if 0 < stats_count (se_stats s) then show_report env ''Session Latency Summary'' (se_stats s)
              else return_io ()) (\<lambda>_.
     chat_close env)))))))"

lemma chat_session_rest: "chat_session env = bind_io (new_pool env) (\<lambda>_. chat_rest env)"
  by (simp only: chat_session_def chat_rest_def)

lemma kept_rest: "obeys pool_kept (chat_rest env)"
  unfolding chat_rest_def
  by (intro kept.obeys_rules same_ops [THEN same_kept] same_greeting [THEN same_kept] kept_loop_op
      same_close [THEN same_kept])

lemma session_pool:
  assumes "pool_geometry kPoolBlockSize kPoolNumBlocks (ce_storage env)"
    and "chat_session env s = (r, s')" and "\<forall>e. r \<noteq> Crash e"
  shows "pool_ok (se_world s')"
    and "world_free 0 (se_world s') = pool_blocks kPoolBlockSize kPoolNumBlocks (ce_storage env)"
proof -
  obtain m pl where n: "pool_new kPoolBlockSize kPoolNumBlocks (ce_storage env) (w_mem (se_world s)) = (m, pl)"
    by (cases "pool_new kPoolBlockSize kPoolNumBlocks (ce_storage env) (w_mem (se_world s))")
  let ?w = "\<lparr>w_mem = m, w_pools = (w_pools (se_world s))(0 := pl)\<rparr> :: pool_world"
  let ?s1 = "s\<lparr>se_stats := stats_new 10000, se_input := '''', se_world := ?w\<rparr>"
  have "pool_new kPoolBlockSize kPoolNumBlocks (ce_storage env) (w_mem (se_world s)) = (w_mem ?w, w_pools ?w 0)"
    using n by simp
  note w = pool_new_world [OF assms(1) this]
  have "chat_rest env ?s1 = (r, s')"
    using assms(2) n by (simp add: chat_session_rest bind_io_def new_pool_def)
  from obeysD [OF kept_rest this assms(3)] w show "pool_ok (se_world s')"
    "world_free 0 (se_world s') = pool_blocks kPoolBlockSize kPoolNumBlocks (ce_storage env)"
    by (simp_all add: pool_kept_def pool_same_def)
qed

section \<open>Properties\<close>

text \<open>C22: However an interactive session goes, with any commands, any answers of the network and an
  exception from sending included, it ends with a well-formed pool in which all 256 blocks are
  free in their original order: the benchmark neither leaks a block nor damages the free list
  its buffers share memory with.\<close>

theorem chat_pool_intact:
  assumes "pool_geometry kPoolBlockSize kPoolNumBlocks (ce_storage env)"
    and "chat_session env s = (r, s')" and "\<forall>e. r \<noteq> Crash e"
  shows "world_inv kPoolBlockSize kPoolNumBlocks 0 (se_world s') \<and>
    world_free 0 (se_world s') = pool_blocks kPoolBlockSize kPoolNumBlocks (ce_storage env) \<and>
    free_count (w_pools (se_world s') 0) = kPoolNumBlocks"
proof -
  note f = session_pool [OF assms]
  from f(2) have "length (pool_free (w_mem (se_world s')) (w_pools (se_world s') 0)) = unat kPoolNumBlocks"
    by (simp add: world_free_def pool_blocks_def)
  then have "unat (pl_free_count (w_pools (se_world s') 0)) = unat kPoolNumBlocks" by simp
  then have "free_count (w_pools (se_world s') 0) = kPoolNumBlocks" by (simp add: free_count_def word_unat_eq_iff)
  with f show ?thesis by blast
qed

text \<open>A session for the examples: a greeting is queued and the connection is already gone.\<close>

definition demo_chat_env :: "read_result option list chat_env" where
  "demo_chat_env = \<lparr>ce_api = replay_api, ce_os = linux_os, ce_tag = ''ws'', ce_rnd = fl, ce_clock = (\<lambda>n. of_nat n),
     ce_storage = 4096, ce_join_steps = 4\<rparr>"

definition demo_session :: "read_result option list session" where
  "demo_session = \<lparr>se_client = (demo_client [])\<lparr>cl_queue :=
       \<lparr>q_head = 0, q_tail = 1, q_buffer = [message_new ''welcome'' True]\<rparr>\<rparr>,
     se_stats = stats_new 0, se_world = \<lparr>w_mem = (\<lambda>_. 0), w_pools = (\<lambda>_. \<lparr>pl_storage = 0, pl_free_head = 0, pl_free_count = 0\<rparr>)\<rparr>,
     se_cin = \<lparr>cin_text = '''', cin_good = True\<rparr>, se_input = '''', se_now = 0, se_spins = [], se_steps = [], se_out = []\<rparr>"

lemma demo_geometry: "pool_geometry kPoolBlockSize kPoolNumBlocks 4096"
  by (simp add: pool_geometry_def pool_static_assert_def sizeof_ptr_def kAlignedBlockSize_def max_align_def
      kPoolBlockSize_def kPoolNumBlocks_def)

lemma demo_chat_returns: "\<exists>s'. chat_session demo_chat_env demo_session = (Ret (), s')"
proof -
  obtain m pl where n: "pool_new kPoolBlockSize kPoolNumBlocks (ce_storage demo_chat_env)
      (w_mem (se_world demo_session)) = (m, pl)"
    by (cases "pool_new kPoolBlockSize kPoolNumBlocks (ce_storage demo_chat_env) (w_mem (se_world demo_session))")
  let ?s1 = "demo_session\<lparr>se_stats := stats_new 10000, se_input := '''',
    se_world := \<lparr>w_mem = m, w_pools = (w_pools (se_world demo_session))(0 := pl)\<rparr>\<rparr>"
  have np: "new_pool demo_chat_env demo_session = (Ret (), ?s1)" using n by (simp add: new_pool_def)
  have g: "await_greeting demo_chat_env 100 s = (Ret (), s\<lparr>se_client := (se_client s)\<lparr>cl_queue := q\<rparr>,
      se_out := se_out s @ [Say (''[server] '' @ payload m @ nl)]\<rparr>)"
    if "try_receive replay_api (se_client s) = Inr (Some m, (se_client s)\<lparr>cl_queue := q\<rparr>)" for s m q
    using that by (simp add: numeral_eq_Suc bind_io_def chat_try_receive_def demo_chat_env_def say_def)
  have t: "try_receive replay_api (se_client demo_session) = Inr (Some (message_new ''welcome'' True),
      (se_client demo_session)\<lparr>cl_queue := \<lparr>q_head = 1, q_tail = 1, q_buffer = [message_new [] True]\<rparr>\<rparr>)"
    by (simp add: try_receive_def demo_session_def try_pop_def kMask_def kQueueCapacity_def message_new_def replay_api_def)
  have l: "chat_loop demo_chat_env s = (Ret (), s)" if "\<not> is_running (se_client s)" "se_steps s = []" for s
    using that by (simp add: chat_loop.simps [of _ s] chat_step_def bind_io_def let_receiver_run_def get_session_def return_io_def)
  have c: "\<exists>s'. chat_close demo_chat_env s = (Ret (), s')" if "cl_receiver (se_client s) = NoThread" for s
  proof -
    let ?cl = "close_stream replay_api ''ws'' (se_client s)"
    have r: "cl_receiver ?cl = NoThread" using that by (simp add: client_simps)
    then have "receive_loop 4 replay_api linux_os ''ws'' ?cl = Inr ?cl"
      by (intro receive_loop_gone) (simp add: receiver_gone_def)
    with r show ?thesis
      by (simp add: chat_close_def demo_chat_env_def client_close_def join_receiver.simps)
  qed
  have "\<exists>s'. chat_rest demo_chat_env ?s1 = (Ret (), s')"
    using t c by (simp add: chat_rest_def bind_io_def say_def g l get_session_def return_io_def stats_count_def
        stats_new_def demo_session_def is_running_def demo_client_simps)
  then show ?thesis using np by (simp add: chat_session_rest bind_io_def)
qed

theorem chat_pool_intact_witness:
  "\<exists>s'. chat_session demo_chat_env demo_session = (Ret (), s') \<and> free_count (w_pools (se_world s') 0) = 256"
proof -
  obtain s' where s': "chat_session demo_chat_env demo_session = (Ret (), s')" using demo_chat_returns by blast
  have "pool_geometry kPoolBlockSize kPoolNumBlocks (ce_storage demo_chat_env)"
    using demo_geometry by (simp add: demo_chat_env_def)
  from chat_pool_intact [OF this s'] s' show ?thesis by (simp add: kPoolNumBlocks_def)
qed

text \<open>C24: A benchmark that runs to its end has measured all its 100 messages: as long as the pool has a
  free block it never stops early, the report it prints counts 100 samples, and the pool is as
  it was.\<close>

theorem bench_measures_all:
  assumes "bench_command env s = (Ret (), s')" and "world_inv kPoolBlockSize kPoolNumBlocks 0 (se_world s)"
    and "world_free 0 (se_world s) \<noteq> []"
  shows "\<exists>r. last (se_out s') = Show (Report r) \<and> rp_samples r = 100 \<and>
    world_free 0 (se_world s') = world_free 0 (se_world s)"
proof -
  from assms(1) obtain s1 st s2 where
    r: "say (''[bench] Sending '' @ nat_to_string kBenchMessages @ '' messages for latency measurement...'' @ nl) s = (Ret (), s1)"
      "bench_loop env 0 kBenchMessages (stats_new (of_nat kBenchMessages)) s1 = (Ret st, s2)"
      "show_report env (''Benchmark Latency ('' @ nat_to_string kBenchMessages @ '' msgs)'') st s2 = (Ret (), s')"
    by (auto simp: bench_command_def bind_io_Ret_iff)
  have w1: "se_world s1 = se_world s" using obeysD [OF same_say r(1)] by (simp add: same_world_input_def)
  have n: "length (samples_ns st) = 100"
    using bench_loop_count [OF r(2)] assms(2,3) w1 by (simp add: stats_new_def kBenchMessages_def)
  have w2: "pool_same (se_world s1) (se_world s2)"
    using obeysD [OF kept_bench_loop r(2)] assms(2) w1 by (simp add: pool_kept_def)
  from r(3) obtain rep where rep: "print_report (ce_rnd env) (''Benchmark Latency ('' @ nat_to_string kBenchMessages @ '' msgs)'') st = Inr rep"
    and s': "s' = s2\<lparr>se_out := se_out s2 @ [Show rep]\<rparr>"
    by (auto simp: show_report_def bind_io_Ret_iff lift_def elim: of_result.elims)
  from rep n obtain rr where "rep = Report rr" "rp_samples rr = of_nat (length (samples_ns st))"
    by (auto simp: print_report_def Let_def split: if_splits)
  with n s' w1 w2 show ?thesis by (simp add: pool_same_def)
qed

text \<open>A session for the example of the benchmark: the server answers every message at once.\<close>

definition echo_api :: "unit beast_api" where
  "echo_api =
    \<lparr>b_stream = (\<lambda>w. w), b_resolve = (\<lambda>h p w. (Ret [], w)), b_connect = (\<lambda>eps w. (Ret ('''', 80), w)),
     b_set_option = (\<lambda>opt w. (Ret (), w)), b_set_sni = (\<lambda>h w. (True, w)), b_ssl_error = (\<lambda>w. ('''', w)),
     b_tls_handshake = (\<lambda>w. (Ret (), w)), b_handshake = (\<lambda>h t w. (Ret (), w)),
     b_spawn = (\<lambda>w. (Ret (), w)), b_text = (\<lambda>on w. w), b_binary = (\<lambda>on w. w),
     b_write = (\<lambda>d w. (Ret (), w)), b_is_open = (\<lambda>w. True), b_close = (\<lambda>w. (None, w)),
     b_read = (\<lambda>w. (Some (ReadOk ''echo''), w)), b_got_text = (\<lambda>w. True), b_moved = (\<lambda>m. m)\<rparr>"

definition echo_env :: "unit chat_env" where
  "echo_env = \<lparr>ce_api = echo_api, ce_os = linux_os, ce_tag = ''ws'', ce_rnd = fl, ce_clock = (\<lambda>_. 0),
     ce_storage = 4096, ce_join_steps = 4\<rparr>"

definition echo_client :: "unit client \<Rightarrow> bool" where
  "echo_client cl \<longleftrightarrow> cl_receiver cl = Running R_Loop \<and> cl_running cl \<and>
     spsc_inv kQueueCapacity (cl_queue cl) \<and> queued cl = []"

lemma echo_spin:
  assumes "echo_client cl"
  shows "\<exists>m cl'. spin_receive [3] echo_api linux_os ''ws'' cl = Inr (Some (m, cl')) \<and> echo_client cl'"
proof -
  let ?m = "message_new ''echo'' True"
  let ?c2 = "set_pc (R_Push ?m) (set_pc R_Read cl\<lparr>cl_stream := ()\<rparr>)"
  have q: "cl_queue ?c2 = cl_queue cl" by (simp add: client_simps)
  with assms have "spsc_inv kQueueCapacity (cl_queue ?c2)" by (simp add: echo_client_def)
  from push_pc_step [OF this, of echo_api linux_os "''ws''" ?m] obtain cl1 where
    p: "receive_at echo_api linux_os ''ws'' (R_Push ?m) ?c2 = Inr cl1" "cl_receiver cl1 = Running R_Loop"
      "cl_running cl1 = cl_running ?c2" "spsc_inv kQueueCapacity (cl_queue cl1)" "queued cl1 = [?m]"
    using assms q by (auto simp: echo_client_def simp flip: length_spsc_list)
  have "b_read echo_api w = (Some (ReadOk ''echo''), w)" "b_got_text echo_api w" for w by (simp_all add: echo_api_def)
  then have "receive_loop 3 echo_api linux_os ''ws'' cl = Inr cl1"
    using assms p(1) by (simp add: numeral_3_eq_3 receive_step_def echo_client_def client_simps del: receive_at.simps(4))
  from spin_receive_returns_oldest [OF this p(4,5), of "[]"] obtain q where
    s: "spin_receive [3] echo_api linux_os ''ws'' cl = Inr (Some (?m, cl1\<lparr>cl_queue := q\<rparr>))"
    "spsc_list kQueueCapacity q = []" by blast
  moreover have "spsc_inv kQueueCapacity q"
  proof -
    from try_receive_spec [OF p(4), of echo_api] obtain q' where
      "try_receive echo_api cl1 = Inr (Some ?m, cl1\<lparr>cl_queue := q'\<rparr>)" "spsc_inv kQueueCapacity q'"
      by (auto simp: p(5))
    with s(1) \<open>receive_loop 3 echo_api linux_os ''ws'' cl = Inr cl1\<close> show ?thesis
      by (auto dest: arg_cong [where f = cl_queue])
  qed
  ultimately show ?thesis using p assms by (auto simp: echo_client_def client_simps)
qed

definition echo_ready :: "nat \<Rightarrow> unit session \<Rightarrow> bool" where
  "echo_ready k s \<longleftrightarrow> pool_ok (se_world s) \<and> world_free 0 (se_world s) \<noteq> [] \<and> echo_client (se_client s) \<and>
     se_spins s = replicate k [3]"

lemma echo_tail:
  assumes "echo_client (se_client s)" and "se_spins s = replicate (Suc k) [3]"
  shows "\<exists>st' s'. bench_tail echo_env i st s = (Ret (Some st'), s') \<and> echo_client (se_client s') \<and>
    se_spins s' = replicate k [3]"
proof -
  from echo_spin [OF assms(1)] obtain m cl' where
    sp: "spin_receive [3] echo_api linux_os ''ws'' (se_client s) = Inr (Some (m, cl'))" "echo_client cl'" by blast
  have snd: "send_text echo_api msg cl = (Ret (), cl)" for msg cl
    by (simp add: send_text_def echo_api_def)
  show ?thesis
    using assms(2) sp
    by (simp add: bench_tail_def bind_io_def now_def chat_send_text_def chat_spin_receive_def snd echo_env_def
        record_since_def record_tp_def lift_def return_io_def del: spin_receive.simps)
qed

lemma echo_iteration:
  assumes "echo_ready (Suc k) s"
  shows "\<exists>st' s'. with_block (bench_body echo_env i st) s = (Ret (Some st'), s') \<and> echo_ready k s'"
proof -
  have inv: "pool_ok (se_world s)" and ne: "world_free 0 (se_world s) \<noteq> []" using assms by (simp_all add: echo_ready_def)
  obtain buf w1 where n: "poolptr_new world_alloc 0 (se_world s) = (buf, w1)" and b: "block_ok buf w1"
    and nb: "poolptr_bool buf \<longleftrightarrow> world_free 0 (se_world s) \<noteq> []"
    and d: "\<And>w2. pool_same w1 w2 \<Longrightarrow>
      \<exists>w3. poolptr_destroy (world_dealloc kPoolBlockSize kPoolNumBlocks) buf w2 = Inr w3 \<and> pool_same (se_world s) w3"
    using with_block_cases [OF inv] by blast
  let ?s1 = "s\<lparr>se_world := w1\<rparr>"
  obtain s2 where s2: "copy_to_block buf (bench_msg i) ?s1 = (Ret (), s2)" using copy_to_block_returns by blast
  then have c2: "se_client s2 = se_client s" "se_spins s2 = se_spins s" by (auto simp: copy_to_block_def Let_def)
  obtain st' s3 where s3: "bench_tail echo_env i st s2 = (Ret (Some st'), s3)" "echo_client (se_client s3)"
    "se_spins s3 = replicate k [3]"
    using echo_tail [of s2 k i st] assms c2 by (auto simp: echo_ready_def)
  have body: "bench_body echo_env i st buf ?s1 = (Ret (Some st'), s3)"
    using nb ne s2 s3(1) by (simp add: bench_body_block bind_io_def)
  have "pool_same w1 (se_world s3)" using bench_body_pool [OF body] b by simp
  from d [OF this] obtain w3 where
    w3: "poolptr_destroy (world_dealloc kPoolBlockSize kPoolNumBlocks) buf (se_world s3) = Inr w3"
      "pool_same (se_world s) w3" by blast
  have "with_block (bench_body echo_env i st) s = (Ret (Some st'), s3\<lparr>se_world := w3\<rparr>)"
    using n body w3(1) by (simp add: with_block_def)
  moreover have "echo_ready k (s3\<lparr>se_world := w3\<rparr>)"
    using w3(2) s3(2,3) ne by (simp add: echo_ready_def pool_same_def)
  ultimately show ?thesis by blast
qed

lemma echo_bench_loop:
  "echo_ready n s \<Longrightarrow> \<exists>st' s'. bench_loop echo_env i n st s = (Ret st', s')"
proof (induction n arbitrary: i st s)
  case (Suc n)
  from echo_iteration [OF Suc.prems] obtain st1 s1 where
    "with_block (bench_body echo_env i st) s = (Ret (Some st1), s1)" "echo_ready n s1" by blast
  with Suc.IH [of s1 "Suc i" st1] show ?case by (simp add: bind_io_def)
qed (simp add: return_io_def)

definition echo_session :: "unit session" where
  "echo_session = \<lparr>se_client = (client_new echo_api () ''localhost'' ''8765'' client_config_default)
       \<lparr>cl_running := True, cl_receiver := Running R_Loop\<rparr>,
     se_stats = stats_new 0, se_world = (let (m, pl) = pool_new kPoolBlockSize kPoolNumBlocks 4096 (\<lambda>_. 0)
       in \<lparr>w_mem = m, w_pools = (\<lambda>_. pl)\<rparr>),
     se_cin = \<lparr>cin_text = '''', cin_good = True\<rparr>, se_input = '''', se_now = 0,
     se_spins = replicate 100 [3], se_steps = [], se_out = []\<rparr>"

lemma echo_session_world:
  "pool_ok (se_world echo_session)" "world_free 0 (se_world echo_session) \<noteq> []"
proof -
  let ?w = "se_world echo_session"
  have "pool_new kPoolBlockSize kPoolNumBlocks 4096 (\<lambda>_. 0) = (w_mem ?w, w_pools ?w 0)"
    by (simp add: echo_session_def split: prod.splits)
  from pool_new_world [OF demo_geometry this] show "pool_ok ?w" "world_free 0 ?w \<noteq> []"
    by (simp_all add: pool_blocks_def kPoolNumBlocks_def)
qed

lemma echo_session_ready: "echo_ready 100 echo_session"
  using echo_session_world
  by (simp add: echo_ready_def echo_client_def)
    (simp add: echo_session_def client_new_def spsc_new_inv spsc_new_list spsc_static_assert_def kQueueCapacity_def)

lemma echo_bench_returns: "\<exists>s'. bench_command echo_env echo_session = (Ret (), s')"
proof -
  let ?msg = "''[bench] Sending '' @ nat_to_string kBenchMessages @ '' messages for latency measurement...'' @ nl"
  define s1 where "s1 = echo_session\<lparr>se_out := se_out echo_session @ [Say ?msg]\<rparr>"
  have say: "say ?msg echo_session = (Ret (), s1)" by (simp only: say_def s1_def)
  have "echo_ready 100 s1" using echo_session_ready by (simp add: s1_def echo_ready_def)
  from echo_bench_loop [OF this] obtain st s2 where
    l: "bench_loop echo_env 0 kBenchMessages (stats_new (of_nat kBenchMessages)) s1 = (Ret st, s2)"
    unfolding kBenchMessages_def by blast
  have "length (samples_ns st) = 100"
    using bench_loop_count [OF l] echo_session_world by (simp add: s1_def stats_new_def kBenchMessages_def)
  then have "length (samples_ns st) \<le> 2 ^ 53" by simp
  from print_report_defined [OF this] obtain r where
    "print_report fl (''Benchmark Latency ('' @ nat_to_string kBenchMessages @ '' msgs)'') st = Inr r" by blast
  then have "show_report echo_env (''Benchmark Latency ('' @ nat_to_string kBenchMessages @ '' msgs)'') st s2 =
      (Ret (), s2\<lparr>se_out := se_out s2 @ [Show r]\<rparr>)"
    by (simp add: show_report_def bind_io_def lift_def echo_env_def)
  with say l show ?thesis by (simp add: bench_command_def bind_io_def)
qed

theorem bench_measures_all_witness:
  "\<exists>s' r. bench_command echo_env echo_session = (Ret (), s') \<and> last (se_out s') = Show (Report r) \<and> rp_samples r = 100"
proof -
  obtain s' where s': "bench_command echo_env echo_session = (Ret (), s')" using echo_bench_returns by blast
  from bench_measures_all [OF s' echo_session_world] s' show ?thesis by blast
qed

end
