(* ===== verification/Chat_Safety.thy ===== *)
theory Chat_Safety
  imports Io_Safety Chat_Properties
begin

text \<open>
  A chat session has no undefined behaviour, breaks no assertion of the pool and is not ended by
  \<open>std::terminate\<close>: it returns, throws what sending threw, or waits forever for an answer or for its
  receiver. The invariant takes the queue, the pool, the recorded samples and standard input
  together: every recorded sample has used up at least one character of input.
\<close>

section \<open>The invariant\<close>

text \<open>Beast's \<open>write\<close> returns or throws, the steady clock does not go below its epoch, and doubles are
  IEEE.\<close>

definition env_ok :: "'w chat_env \<Rightarrow> bool" where
  "env_ok env \<longleftrightarrow> (\<forall>d. no_crash (b_write (ce_api env) d)) \<and> (\<forall>n. 0 \<le> sint (ce_clock env n)) \<and> ce_rnd env = fl"

definition client_ok :: "'w chat_env \<Rightarrow> 'w session \<Rightarrow> bool" where
  "client_ok env s \<longleftrightarrow> client_inv (ce_os env) (ce_tag env) (se_client s)"

text \<open>With room for \<open>k\<close> more samples.\<close>

definition chat_ok :: "'w chat_env \<Rightarrow> nat \<Rightarrow> 'w session \<Rightarrow> bool" where
  "chat_ok env k s \<longleftrightarrow> client_ok env s \<and> length (samples_ns (se_stats s)) + k + input_left s \<le> 2 ^ 53"

lemma chat_ok_client: "chat_ok env k s \<Longrightarrow> client_ok env s"
  by (simp add: chat_ok_def)

lemma chat_ok_updates [simp]:
  "chat_ok env k (s\<lparr>se_out := x\<rparr>) = chat_ok env k s" "chat_ok env k (s\<lparr>se_now := n\<rparr>) = chat_ok env k s"
  "chat_ok env k (s\<lparr>se_world := w\<rparr>) = chat_ok env k s" "chat_ok env k (s\<lparr>se_spins := sp\<rparr>) = chat_ok env k s"
  "chat_ok env k (s\<lparr>se_steps := st\<rparr>) = chat_ok env k s"
  by (simp_all add: chat_ok_def client_ok_def input_left_def)

section \<open>The client\<close>

lemma receive_step_inv:
  assumes "client_inv os tag cl"
  shows "\<exists>cl'. receive_step api os tag cl = Inr cl' \<and> client_inv os tag cl'"
proof -
  from recv_step_ok [OF assms, of api] obtain ob cl' where
    "client_step api os tag Recv cl = Inr (ob, cl')" "client_inv os tag cl'" by (auto simp: step_ok_def)
  then show ?thesis by auto
qed

lemma receive_loop_inv:
  "client_inv os tag cl \<Longrightarrow> \<exists>cl'. receive_loop n api os tag cl = Inr cl' \<and> client_inv os tag cl'"
proof (induction n arbitrary: cl)
  case (Suc n)
  from receive_step_inv [OF Suc.prems] obtain cl1 where
    "receive_step api os tag cl = Inr cl1" "client_inv os tag cl1" by blast
  with Suc.IH [of cl1] show ?case by simp
qed simp

lemma try_receive_inv:
  assumes "client_inv os tag cl"
  shows "\<exists>m cl'. try_receive api cl = Inr (m, cl') \<and> client_inv os tag cl'"
  using try_receive_spec [of cl api] assms by (auto simp: client_inv_def)

lemma spin_receive_inv:
  "client_inv os tag cl \<Longrightarrow> spin_receive sched api os tag cl = Inr None \<or>
    (\<exists>m cl'. spin_receive sched api os tag cl = Inr (Some (m, cl')) \<and> client_inv os tag cl')"
proof (induction sched arbitrary: cl)
  case (Cons k sched)
  from receive_loop_inv [OF Cons.prems, of k api] obtain cl1 where
    l: "receive_loop k api os tag cl = Inr cl1" "client_inv os tag cl1" by blast
  from try_receive_inv [OF l(2), of api] obtain m cl2 where
    t: "try_receive api cl1 = Inr (m, cl2)" "client_inv os tag cl2" by blast
  show ?case
  proof (cases m)
    case None
    with l t Cons.IH [OF t(2)] show ?thesis by simp
  qed (use l t in simp)
qed simp

lemma send_inv:
  "client_inv os tag cl \<Longrightarrow> client_inv os tag (snd (send_text api msg cl))"
  "client_inv os tag cl \<Longrightarrow> client_inv os tag (snd (send_binary api d cl))"
  by (simp_all add: client_inv_def client_simps)

lemma close_inv:
  assumes "client_inv os tag cl"
  shows "client_close n api os tag cl = Inr None \<or>
    (\<exists>cl'. client_close n api os tag cl = Inr (Some cl') \<and> client_inv os tag cl' \<and> \<not> joinable (cl_receiver cl'))"
proof -
  have "client_inv os tag (close_stream api tag cl)" using assms by (simp add: client_inv_def client_simps)
  from receive_loop_inv [OF this, of n api] obtain cl1 where
    l: "receive_loop n api os tag (close_stream api tag cl) = Inr cl1" "client_inv os tag cl1" by blast
  show ?thesis
  proof (cases "join_receiver cl1")
    case (Some cl')
    with join_receiver_Some [OF Some] l show ?thesis by (simp add: client_close_def client_inv_def)
  qed (use l in \<open>simp add: client_close_def\<close>)
qed

section \<open>The operations\<close>

lemma safe_say [safe_rules]: "safe (chat_ok env k) (say t) (\<lambda>_. chat_ok env k) (client_ok env)"
  by (auto simp: safe_def say_def)

lemma safe_warn [safe_rules]: "safe (chat_ok env k) (warn t) (\<lambda>_. chat_ok env k) (client_ok env)"
  by (auto simp: safe_def warn_def)

lemma safe_now: "env_ok env \<Longrightarrow> safe (chat_ok env k) (now env) (\<lambda>t s. 0 \<le> sint t \<and> chat_ok env k s) (client_ok env)"
  by (auto simp: safe_def now_def env_ok_def)

text \<open>An operation on the client: it hangs, or it leaves a well-formed client and touches neither the
  samples nor standard input.\<close>

definition client_op :: "'w chat_env \<Rightarrow> 'w session \<Rightarrow> 'a outcome \<times> 'w session \<Rightarrow> bool" where
  "client_op env s rs \<longleftrightarrow> (\<exists>h. fst rs = Crash (Hangs h)) \<or>
     (\<forall>c. fst rs \<noteq> Crash c) \<and> client_ok env (snd rs) \<and> se_stats (snd rs) = se_stats s \<and> se_cin (snd rs) = se_cin s"

lemma safe_client_op:
  assumes "\<And>s. client_ok env s \<Longrightarrow> client_op env s (m s)"
  shows "safe (chat_ok env k) m (\<lambda>_. chat_ok env k) (client_ok env)"
  unfolding safe_def
proof (intro allI impI)
  fix s assume ok: "chat_ok env k s"
  with assms [of s] have "client_op env s (m s)" by (simp add: chat_ok_def)
  with ok show "case m s of (Ret a, s') \<Rightarrow> chat_ok env k s' | (Throw e, s') \<Rightarrow> client_ok env s' | (Crash c, s') \<Rightarrow> is_hang c"
    by (cases "m s"; cases "fst (m s)") (auto simp: client_op_def chat_ok_def input_left_def)
qed

lemma safe_send:
  assumes "env_ok env"
  shows "safe (chat_ok env k) (chat_send_text env msg) (\<lambda>_. chat_ok env k) (client_ok env)"
    and "safe (chat_ok env k) (chat_send_binary env d) (\<lambda>_. chat_ok env k) (client_ok env)"
proof -
  have "fst (send_text (ce_api env) msg cl) \<noteq> Crash e" "fst (send_binary (ce_api env) d cl) \<noteq> Crash e" for cl e
    using assms by (auto simp: env_ok_def no_crash_def send_text_def send_binary_def split: prod.splits)
  then have "client_op env s (chat_send_text env msg s)" "client_op env s (chat_send_binary env d s)" if "client_ok env s" for s
    using send_inv that by (auto simp: client_op_def client_ok_def chat_send_text_def chat_send_binary_def case_prod_beta)
  then show "safe (chat_ok env k) (chat_send_text env msg) (\<lambda>_. chat_ok env k) (client_ok env)"
    "safe (chat_ok env k) (chat_send_binary env d) (\<lambda>_. chat_ok env k) (client_ok env)"
    by (blast intro: safe_client_op)+
qed

lemma safe_spin: "safe (chat_ok env k) (chat_spin_receive env) (\<lambda>_. chat_ok env k) (client_ok env)"
proof (rule safe_client_op)
  fix s assume "client_ok env s"
  from spin_receive_inv [OF this [unfolded client_ok_def], of "case se_spins s of [] \<Rightarrow> [] | sc # _ \<Rightarrow> sc" "ce_api env"]
  show "client_op env s (chat_spin_receive env s)"
    by (auto simp: client_op_def client_ok_def chat_spin_receive_def Let_def)
qed

lemma safe_run: "safe (chat_ok env k) (let_receiver_run env) (\<lambda>_. chat_ok env k) (client_ok env)"
proof (rule safe_client_op)
  fix s assume "client_ok env s"
  from receive_loop_inv [OF this [unfolded client_ok_def], of "case se_steps s of [] \<Rightarrow> 0 | n # _ \<Rightarrow> n" "ce_api env"]
  show "client_op env s (let_receiver_run env s)"
    by (auto simp: client_op_def client_ok_def let_receiver_run_def Let_def)
qed

lemma safe_try_receive: "safe (chat_ok env k) (chat_try_receive env) (\<lambda>_. chat_ok env k) (client_ok env)"
proof (rule safe_client_op)
  fix s assume "client_ok env s"
  from try_receive_inv [OF this [unfolded client_ok_def], of "ce_api env"]
  show "client_op env s (chat_try_receive env s)" by (auto simp: client_op_def client_ok_def chat_try_receive_def)
qed

lemma safe_close: "safe (chat_ok env k) (chat_close env) (\<lambda>_. chat_ok env k) (client_ok env)"
proof (rule safe_client_op)
  fix s assume "client_ok env s"
  from close_inv [OF this [unfolded client_ok_def], of "ce_join_steps env" "ce_api env"]
  show "client_op env s (chat_close env s)" by (auto simp: client_op_def client_ok_def chat_close_def)
qed

text \<open>Two clock values differ by less than \<open>2 ^ 63\<close>.\<close>

lemma clock_difference:
  fixes t u :: i64
  assumes "0 \<le> sint t" and "0 \<le> sint u"
  shows "- (2 ^ 63) \<le> sint t - sint u" and "sint t - sint u < 2 ^ 63"
  using sint_lt [of t] sint_lt [of u] assms by simp_all

lemma safe_record_since:
  assumes "env_ok env" and "0 \<le> sint start"
  shows "safe (chat_ok env k) (record_since env start st)
    (\<lambda>st' s. length (samples_ns st') = Suc (length (samples_ns st)) \<and> chat_ok env k s) (client_ok env)"
  unfolding record_since_def
proof (rule safe_bind [OF safe_now [OF assms(1)]], rule safe_pure)
  fix t :: i64 assume "0 \<le> sint t"
  then have "record_tp t start st = Inr (record_ns (of_int (sint t - sint start)) st)"
    using clock_difference [OF _ assms(2)] by (simp add: record_tp_def)
  then show "safe (chat_ok env k) (lift (record_tp t start st))
      (\<lambda>st' s. length (samples_ns st') = Suc (length (samples_ns st)) \<and> chat_ok env k s) (client_ok env)"
    by (simp add: safe_def lift_def record_ns_def)
qed

lemma safe_record_main:
  assumes "env_ok env" and "0 \<le> sint start"
  shows "safe (chat_ok env (Suc k)) (record_main env start) (\<lambda>_. chat_ok env k) (client_ok env)"
  unfolding safe_def
proof (intro allI impI)
  fix s assume ok: "chat_ok env (Suc k) s"
  have "chat_ok env (Suc k) s1 \<Longrightarrow> se_stats s1 = se_stats s \<Longrightarrow> length (samples_ns st) = Suc (length (samples_ns (se_stats s))) \<Longrightarrow>
      chat_ok env k (s1\<lparr>se_stats := st\<rparr>)" for s1 st
    by (simp add: chat_ok_def client_ok_def input_left_def)
  moreover have "se_stats s1 = se_stats s" if "record_since env start (se_stats s) s = (r, s1)" for r s1
    using that by (auto simp: record_since_def bind_io_def now_def lift_def split: prod.splits)
  ultimately show "case record_main env start s of (Ret a, s') \<Rightarrow> chat_ok env k s' | (Throw e, s') \<Rightarrow> client_ok env s'
      | (Crash c, s') \<Rightarrow> is_hang c"
    using safeD [OF safe_record_since [OF assms, of "Suc k" "se_stats s"] ok]
    by (cases "record_since env start (se_stats s) s" rule: prod.exhaust; cases "fst (record_since env start (se_stats s) s)")
      (auto simp: record_main_def bind_io_def)
qed

lemma safe_show:
  assumes "env_ok env" and "length (samples_ns st) \<le> 2 ^ 53"
  shows "safe (chat_ok env k) (show_report env label st) (\<lambda>_. chat_ok env k) (client_ok env)"
proof -
  obtain r where "print_report fl label st = Inr r" using print_report_defined [OF assms(2)] by blast
  with assms(1) show ?thesis by (auto simp: safe_def show_report_def bind_io_def lift_def env_ok_def)
qed

lemma safe_rtt:
  assumes "0 \<le> sint t" and "0 \<le> sint start"
  shows "safe (chat_ok env k) (lift (rtt_us t start)) (\<lambda>_. chat_ok env k) (client_ok env)"
  using clock_difference [OF assms] by (auto simp: safe_def lift_def rtt_us_def Let_def)

lemma safe_exchange:
  assumes "env_ok env" and "safe (chat_ok env (Suc k)) send (\<lambda>_. chat_ok env (Suc k)) (client_ok env)"
  shows "safe (chat_ok env (Suc k)) (exchange env kind send) (\<lambda>_. chat_ok env k) (client_ok env)"
  unfolding exchange_def
  by (rule safe_bind [OF safe_now [OF assms(1)]], rule safe_pure, rule safe_bind [OF assms(2)], rule safe_bind [OF safe_spin],
      rule safe_bind [OF safe_record_main [OF assms(1)]], assumption,
      rule safe_bind [OF safe_now [OF assms(1)]], rule safe_pure, rule safe_bind [OF safe_rtt], assumption+, rule safe_say)

section \<open>The benchmark\<close>

lemma safe_bench_body:
  assumes "env_ok env"
  shows "safe (chat_ok env k) (bench_body env i st buf)
    (\<lambda>r s. (\<forall>st'. r = Some st' \<longrightarrow> length (samples_ns st') = Suc (length (samples_ns st))) \<and> chat_ok env k s) (client_ok env)"
proof -
  have c: "safe (chat_ok env k) (copy_to_block buf msg) (\<lambda>_. chat_ok env k) (client_ok env)" for msg
    by (auto simp: safe_def copy_to_block_def Let_def)
  show ?thesis
    unfolding bench_body_def
    by (rule safe_if, rule safe_bind [OF safe_warn], rule safe_return, simp, rule safe_bind [OF c],
        rule safe_bind [OF safe_now [OF assms]], rule safe_pure, rule safe_bind [OF safe_send(1) [OF assms]],
        rule safe_bind [OF safe_spin], rule safe_bind [OF safe_record_since [OF assms]], assumption, rule safe_return, simp)
qed

lemma client_ok_world [simp]: "client_ok env (s\<lparr>se_world := w\<rparr>) = client_ok env s"
  by (simp add: client_ok_def)

text \<open>The pool and the session together.\<close>

definition session_ok :: "'w chat_env \<Rightarrow> nat \<Rightarrow> 'w session \<Rightarrow> bool" where
  "session_ok env k s \<longleftrightarrow> pool_ok (se_world s) \<and> chat_ok env k s"

lemma safe_with_block:
  assumes body: "\<And>buf. safe (chat_ok env k) (body buf) (\<lambda>r s. p r \<and> chat_ok env k s) (client_ok env)"
    and pool: "\<And>buf s r s'. body buf s = (r, s') \<Longrightarrow> \<forall>e. r \<noteq> Crash e \<Longrightarrow> block_ok buf (se_world s) \<Longrightarrow>
      pool_same (se_world s) (se_world s')"
  shows "safe (session_ok env k) (with_block body) (\<lambda>r s. p r \<and> session_ok env k s) (client_ok env)"
  unfolding safe_def
proof (intro allI impI)
  fix s assume "session_ok env k s"
  then have inv: "pool_ok (se_world s)" and ok: "chat_ok env k s" by (simp_all add: session_ok_def)
  obtain buf w1 where n: "poolptr_new world_alloc 0 (se_world s) = (buf, w1)" and b: "block_ok buf w1"
    and d: "\<And>w2. pool_same w1 w2 \<Longrightarrow>
      \<exists>w3. poolptr_destroy (world_dealloc kPoolBlockSize kPoolNumBlocks) buf w2 = Inr w3 \<and> pool_same (se_world s) w3"
    using with_block_cases [OF inv] by blast
  have ok1: "chat_ok env k (s\<lparr>se_world := w1\<rparr>)" using ok by simp
  obtain r s1 where r: "body buf (s\<lparr>se_world := w1\<rparr>) = (r, s1)" by (cases "body buf (s\<lparr>se_world := w1\<rparr>)")
  show "case with_block body s of (Ret a, s') \<Rightarrow> p a \<and> session_ok env k s' | (Throw e, s') \<Rightarrow> client_ok env s'
      | (Crash c, s') \<Rightarrow> is_hang c"
  proof (cases "\<exists>c. r = Crash c")
    case True
    with safeD(3) [OF body ok1] r n show ?thesis by (auto simp: with_block_def)
  next
    case False
    with pool [OF r] b have "pool_same w1 (se_world s1)" by simp
    from d [OF this] obtain w3 where
      w3: "poolptr_destroy (world_dealloc kPoolBlockSize kPoolNumBlocks) buf (se_world s1) = Inr w3" "pool_same (se_world s) w3"
      by blast
    have "with_block body s = (r, s1\<lparr>se_world := w3\<rparr>)" using n r w3(1) False by (cases r) (simp_all add: with_block_def)
    with safeD(1,2) [OF body ok1] r w3(2) False show ?thesis
      by (cases r) (auto simp: session_ok_def pool_same_def)
  qed
qed

lemma safe_same:
  assumes "safe (chat_ok env k) m Q E" and "obeys same_world_input m"
  shows "safe (session_ok env k) m (\<lambda>a s. pool_ok (se_world s) \<and> Q a s) E"
proof (rule safeI)
  fix s a s' assume s: "session_ok env k s" and m: "m s = (Ret a, s')"
  then show "pool_ok (se_world s') \<and> Q a s'"
    using safeD(1) [OF assms(1) _ m] obeysD [OF assms(2) m] by (simp add: session_ok_def same_world_input_def)
qed (use safeD [OF assms(1)] in \<open>auto simp: session_ok_def\<close>)

lemma safe_same_ok:
  "safe (chat_ok env k) m (\<lambda>_. chat_ok env k') E \<Longrightarrow> obeys same_world_input m \<Longrightarrow>
   safe (session_ok env k) m (\<lambda>_. session_ok env k') E"
  using safe_same [of env k m "\<lambda>_. chat_ok env k'" E] by (simp add: session_ok_def [abs_def])

lemma safe_bench_loop:
  assumes "env_ok env"
  shows "safe (session_ok env k) (bench_loop env i n st)
    (\<lambda>st' s. length (samples_ns st') \<le> length (samples_ns st) + n \<and> session_ok env k s) (client_ok env)"
proof (induction n arbitrary: i st)
  case 0
  then show ?case by (auto intro: safe_return)
next
  case (Suc n)
  show ?case unfolding bench_loop.simps
  proof (rule safe_bind [OF safe_with_block [OF safe_bench_body [OF assms] bench_body_pool]], assumption+, rule safe_pure)
    fix r :: "latency_stats option" assume r: "\<forall>st'. r = Some st' \<longrightarrow> length (samples_ns st') = Suc (length (samples_ns st))"
    show "safe (session_ok env k) (case r of None \<Rightarrow> return_io st | Some st' \<Rightarrow> bench_loop env (Suc i) n st')
        (\<lambda>st' s. length (samples_ns st') \<le> length (samples_ns st) + Suc n \<and> session_ok env k s) (client_ok env)"
    proof (cases r)
      case (Some st1)
      show ?thesis using Suc.IH [of "Suc i" st1] r Some by (auto elim!: safe_conseq)
    qed (auto intro: safe_return)
  qed
qed

lemma safe_bench_command:
  assumes "env_ok env"
  shows "safe (session_ok env k) (bench_command env) (\<lambda>_. session_ok env k) (client_ok env)"
  unfolding bench_command_def
proof (rule safe_bind [OF safe_same_ok [OF safe_say same_say]],
    rule safe_bind [OF safe_bench_loop [OF assms]], rule safe_pure)
  fix st :: latency_stats assume "length (samples_ns st) \<le> length (samples_ns (stats_new (of_nat kBenchMessages))) + kBenchMessages"
  then have "length (samples_ns st) \<le> 2 ^ 53" by (simp add: stats_new_def kBenchMessages_def)
  from safe_same_ok [OF safe_show [OF assms this] same_show]
  show "safe (session_ok env k) (show_report env (''Benchmark Latency ('' @ nat_to_string kBenchMessages @ '' msgs)'') st)
      (\<lambda>_. session_ok env k) (client_ok env)" .
qed

section \<open>The commands and the loop\<close>

lemma session_ok_less: "session_ok env k s \<Longrightarrow> k' \<le> k \<Longrightarrow> session_ok env k' s"
  by (simp add: session_ok_def chat_ok_def)

lemma safe_read_line:
  "safe (session_ok env k) read_line (\<lambda>ok. session_ok env (if ok then Suc k else k)) (client_ok env)"
proof (rule safeI)
  fix s :: "'a session" and ok s' assume s: "session_ok env k s" and r: "read_line s = (Ret ok, s')"
  obtain line c where g: "getline (se_cin s) (se_input s) = (ok, line, c)" and s': "s' = s\<lparr>se_input := line, se_cin := c\<rparr>"
    using r by (auto simp: read_line_def split: prod.splits)
  have "input_left s' \<le> input_left s" using obeysD [OF input_read_line r] by (simp add: input_shrinks_def)
  moreover have "ok \<Longrightarrow> input_left s' < input_left s"
    using getline_consumes [of "se_cin s" "se_input s" line c] g s' by (simp add: input_left_def)
  ultimately show "session_ok env (if ok then Suc k else k) s'"
    using s s' by (auto simp: session_ok_def chat_ok_def client_ok_def)
qed (auto simp: read_line_def split: prod.splits)

lemma safe_get: "(\<And>s. P s \<Longrightarrow> safe (\<lambda>s'. s' = s) (k s) Q E) \<Longrightarrow> safe P (bind_io get_session k) Q E"
  by (auto simp: safe_def bind_io_def get_session_def)

lemma safe_message:
  assumes "env_ok env" and "\<And>s. safe (chat_ok env (Suc k)) (send s) (\<lambda>_. chat_ok env (Suc k)) (client_ok env)"
    and "\<And>s. obeys same_world_input (send s)"
  shows "safe (session_ok env k) (bind_io (say prompt) (\<lambda>_. bind_io read_line (\<lambda>ok.
        if \<not> ok then return_io False
        else bind_io get_session (\<lambda>s. bind_io (exchange env kind (send s)) (\<lambda>_. return_io True)))))
      (\<lambda>_. session_ok env k) (client_ok env)"
proof (rule safe_bind [OF safe_same_ok [OF safe_say same_say]], rule safe_bind [OF safe_read_line], rule safe_if)
  fix ok assume ok: "\<not> \<not> ok"
  show "safe (session_ok env (if ok then Suc k else k))
      (bind_io get_session (\<lambda>s. bind_io (exchange env kind (send s)) (\<lambda>_. return_io True))) (\<lambda>_. session_ok env k) (client_ok env)"
  proof (rule safe_get)
    fix s assume s: "session_ok env (if ok then Suc k else k) s"
    have "safe (session_ok env (Suc k)) (exchange env kind (send s)) (\<lambda>_. session_ok env k) (client_ok env)"
      by (rule safe_same_ok [OF safe_exchange [OF assms(1,2)] same_exchange [OF assms(3)]])
    then have "safe (session_ok env (Suc k)) (bind_io (exchange env kind (send s)) (\<lambda>_. return_io True)) (\<lambda>_. session_ok env k)
        (client_ok env)" by (rule safe_bind) (rule safe_return)
    then show "safe (\<lambda>s'. s' = s) (bind_io (exchange env kind (send s)) (\<lambda>_. return_io True)) (\<lambda>_. session_ok env k) (client_ok env)"
      by (rule safe_pre) (use s ok in simp)
  qed
qed (auto intro: safe_return)

lemma safe_show_session:
  assumes "env_ok env" and "session_ok env k s"
  shows "safe (\<lambda>s'. s' = s) (show_report env label (se_stats s)) (\<lambda>_. session_ok env k) (client_ok env)"
proof -
  have "length (samples_ns (se_stats s)) \<le> 2 ^ 53" using assms(2) by (simp add: session_ok_def chat_ok_def)
  from safe_same_ok [OF safe_show [OF assms(1) this] same_show] show ?thesis by (rule safe_pre) (use assms(2) in simp)
qed

lemma safe_command:
  assumes "env_ok env"
  shows "safe (session_ok env k) (chat_command env line) (\<lambda>_. session_ok env k) (client_ok env)"
proof -
  note say = safe_same_ok [OF safe_say same_say, of env k]
  have r: "safe (session_ok env k) (return_io True) (\<lambda>_. session_ok env k) (client_ok env)" by (rule safe_return)
  show ?thesis
    unfolding chat_command_def
  proof (intro safe_if)
    show "safe (session_ok env k) (bind_io get_session (\<lambda>s. bind_io (show_report env ''Round-Trip Latency'' (se_stats s))
        (\<lambda>_. return_io True))) (\<lambda>_. session_ok env k) (client_ok env)"
      by (rule safe_get, rule safe_bind [OF safe_show_session [OF assms]], assumption, rule r)
    show "safe (session_ok env k) (bind_io get_session (\<lambda>s. bind_io (say (pool_msg (w_pools (se_world s) 0)))
        (\<lambda>_. return_io True))) (\<lambda>_. session_ok env k) (client_ok env)"
      by (rule safe_get, rule safe_bind [OF say [THEN safe_pre]], simp, rule r)
  qed (rule safe_bind [OF say r] safe_bind [OF safe_bench_command [OF assms] r]
      safe_message [OF assms safe_send(1) [OF assms] same_send(1)] safe_message [OF assms safe_send(2) [OF assms] same_send(2)])+
qed

lemma safe_step:
  assumes "env_ok env"
  shows "safe (session_ok env 0) (chat_step env) (\<lambda>_. session_ok env 0) (client_ok env)"
proof -
  have line: "safe (session_ok env (Suc 0)) (chat_line env l) (\<lambda>_. session_ok env 0) (client_ok env)" for l
    unfolding chat_line_def
    by (intro safe_if safe_return)
      (auto intro: session_ok_less safe_conseq [OF safe_command [OF assms, of "Suc 0"]])
  have read: "safe (session_ok env 0) chat_read
      (\<lambda>r. case r of None \<Rightarrow> session_ok env 0 | Some l \<Rightarrow> session_ok env (Suc 0)) (client_ok env)"
    unfolding chat_read_def
    by (rule safe_bind [OF safe_same_ok [OF safe_say same_say]], rule safe_bind [OF safe_read_line], rule safe_get, rule safe_return)
      (auto split: if_splits)
  show ?thesis
    unfolding chat_step_def
  proof (rule safe_bind [OF safe_same_ok [OF safe_run same_run]], rule safe_get, rule safe_if)
    fix s :: "'a session" assume s: "session_ok env 0 s"
    show "safe (\<lambda>s'. s' = s) (return_io False) (\<lambda>_. session_ok env 0) (client_ok env)" by (rule safe_return) (use s in simp)
    have "safe (session_ok env 0) (bind_io chat_read (\<lambda>r. case r of None \<Rightarrow> return_io False | Some l \<Rightarrow> chat_line env l))
        (\<lambda>_. session_ok env 0) (client_ok env)"
      by (rule safe_bind [OF read]) (auto intro: safe_return line split: option.split)
    then show "safe (\<lambda>s'. s' = s) (bind_io chat_read (\<lambda>r. case r of None \<Rightarrow> return_io False | Some l \<Rightarrow> chat_line env l))
        (\<lambda>_. session_ok env 0) (client_ok env)" by (rule safe_pre) (use s in simp)
  qed
qed

lemma safe_loop:
  assumes "env_ok env"
  shows "safe (session_ok env 0) (chat_loop env) (\<lambda>_. session_ok env 0) (client_ok env)"
  unfolding safe_def
proof (intro allI impI)
  fix s assume "session_ok env 0 s"
  then show "case chat_loop env s of (Ret a, s') \<Rightarrow> session_ok env 0 s' | (Throw e, s') \<Rightarrow> client_ok env s'
      | (Crash c, s') \<Rightarrow> is_hang c"
    using assms
  proof (induction env s rule: chat_loop.induct)
    case (1 env s)
    obtain r s1 where st: "chat_step env s = (r, s1)" by (cases "chat_step env s")
    note step = safeD [OF safe_step [OF 1(3)] 1(2)]
    show ?case
    proof (cases r)
      case (Ret b)
      with step(1) st have ok: "session_ok env 0 s1" by blast
      show ?thesis
      proof (cases b)
        case True
        with 1(1) [OF st [symmetric] Ret] ok 1(3) Ret st show ?thesis by (simp add: chat_loop.simps [of env s])
      qed (use Ret st ok in \<open>simp add: chat_loop.simps [of env s]\<close>)
    qed (use step(2,3) st in \<open>auto simp: chat_loop.simps [of env s]\<close>)
  qed
qed

section \<open>The session\<close>

lemma safe_greeting: "safe (chat_ok env k) (await_greeting env n) (\<lambda>_. chat_ok env k) (client_ok env)"
proof (induction n)
  case (Suc n)
  show ?case unfolding await_greeting.simps
    by (rule safe_bind [OF safe_try_receive]) (auto intro: safe_say safe_bind [OF safe_run Suc.IH] split: option.split)
qed (auto intro: safe_return)

lemma safe_new_pool:
  assumes "pool_geometry kPoolBlockSize kPoolNumBlocks (ce_storage env)"
  shows "safe (\<lambda>s. client_ok env s \<and> input_left s \<le> 2 ^ 53) (new_pool env) (\<lambda>_. session_ok env 0) (client_ok env)"
proof (rule safeI)
  fix s s' and u :: unit assume s: "client_ok env s \<and> input_left s \<le> 2 ^ 53" and n: "new_pool env s = (Ret u, s')"
  obtain m pl where p: "pool_new kPoolBlockSize kPoolNumBlocks (ce_storage env) (w_mem (se_world s)) = (m, pl)"
    by (cases "pool_new kPoolBlockSize kPoolNumBlocks (ce_storage env) (w_mem (se_world s))")
  let ?w = "\<lparr>w_mem = m, w_pools = (w_pools (se_world s))(0 := pl)\<rparr> :: pool_world"
  have "pool_new kPoolBlockSize kPoolNumBlocks (ce_storage env) (w_mem (se_world s)) = (w_mem ?w, w_pools ?w 0)" using p by simp
  from pool_new_world(1) [OF assms this] s n p show "session_ok env 0 s'"
    by (auto simp: new_pool_def session_ok_def chat_ok_def client_ok_def input_left_def stats_new_def)
qed (auto simp: new_pool_def split: prod.splits)

lemma safe_session:
  assumes "env_ok env" and "pool_geometry kPoolBlockSize kPoolNumBlocks (ce_storage env)"
  shows "safe (\<lambda>s. client_ok env s \<and> input_left s \<le> 2 ^ 53) (chat_session env) (\<lambda>_. client_ok env) (client_ok env)"
proof -
  note say = safe_same_ok [OF safe_say same_say, of env 0]
  have report: "safe (session_ok env 0) (bind_io get_session (\<lambda>s.
      bind_io (if 0 < stats_count (se_stats s) then show_report env ''Session Latency Summary'' (se_stats s) else return_io ())
        (\<lambda>_. chat_close env))) (\<lambda>_. client_ok env) (client_ok env)"
  proof (rule safe_get)
    fix s assume s: "session_ok env 0 s"
    have "safe (session_ok env 0) (chat_close env) (\<lambda>_. client_ok env) (client_ok env)"
      by (rule safe_conseq [OF safe_close]) (auto simp: session_ok_def chat_ok_client)
    then show "safe (\<lambda>s'. s' = s) (bind_io (if 0 < stats_count (se_stats s)
        then show_report env ''Session Latency Summary'' (se_stats s) else return_io ()) (\<lambda>_. chat_close env))
        (\<lambda>_. client_ok env) (client_ok env)"
      by (rule safe_bind [rotated]) (use s in \<open>auto intro: safe_show_session [OF assms(1)] safe_return\<close>)
  qed
  show ?thesis
    unfolding chat_session_def
    by (rule safe_bind [OF safe_new_pool [OF assms(2)]], rule safe_bind [OF say], rule safe_bind [OF say],
        rule safe_bind [OF safe_same_ok [OF safe_greeting same_greeting]], rule safe_bind [OF say],
        rule safe_bind [OF safe_loop [OF assms(1)]], rule report)
qed

section \<open>Properties\<close>

text \<open>C25: The session keeps its state well-formed and stays within the defined behaviour of C++. From a
  client with a well-formed queue and a receiver that can be pinned as configured, for either
  client class, whatever the server answers, the user types and the schedule of the receiver is,
  an interactive session that returns or throws leaves the client and the pool well-formed, and
  otherwise waits forever for the server, the user or the receiver; it never reads or writes out
  of range, overflows a signed integer, fails an assertion or terminates the program.\<close>

theorem chat_well_formed:
  assumes "env_ok env" and "pool_geometry kPoolBlockSize kPoolNumBlocks (ce_storage env)"
    and "client_inv (ce_os env) (ce_tag env) (se_client s)" and "length (cin_text (se_cin s)) \<le> 2 ^ 53"
  shows "case chat_session env s of
      (Crash e, s') \<Rightarrow> \<exists>what. e = Hangs what
    | (r, s') \<Rightarrow> client_inv (ce_os env) (ce_tag env) (se_client s') \<and>
        world_inv kPoolBlockSize kPoolNumBlocks 0 (se_world s')"
proof -
  have p: "client_ok env s \<and> input_left s \<le> 2 ^ 53" using assms(3,4) by (simp add: client_ok_def input_left_def)
  obtain r s' where c: "chat_session env s = (r, s')" by (cases "chat_session env s")
  note d = safeD [OF safe_session [OF assms(1,2)], OF p] and w = session_pool(1) [OF assms(2) c]
  show ?thesis
  proof (cases r)
    case (Crash e)
    with c d(3) have "is_hang e" by blast
    with Crash c show ?thesis by (cases e) simp_all
  qed (use c d(1,2) w in \<open>simp_all add: client_ok_def\<close>)
qed

text \<open>A session with a connected client, a line of input and a receiver that gets to run.\<close>

definition typed_session :: "read_result option list session" where
  "typed_session = demo_session\<lparr>se_client := snd (ws_connect replay_api (demo_client [Some (ReadOk ''hi'')])),
     se_cin := \<lparr>cin_text = ''pool'', cin_good = True\<rparr>, se_steps := [2, 3]\<rparr>"

theorem chat_well_formed_witness:
  "case chat_session (demo_chat_env\<lparr>ce_clock := \<lambda>_. 0\<rparr>) typed_session of
      (Crash e, s') \<Rightarrow> \<exists>what. e = Hangs what
    | (r, s') \<Rightarrow> client_inv linux_os ''ws'' (se_client s') \<and> world_inv kPoolBlockSize kPoolNumBlocks 0 (se_world s')"
proof -
  let ?cl = "snd (ws_connect replay_api (demo_client [Some (ReadOk ''hi'')]))"
  have e: "env_ok (demo_chat_env\<lparr>ce_clock := \<lambda>_. 0\<rparr>)"
    by (simp add: env_ok_def no_crash_def demo_chat_env_def replay_api_def)
  have "cl_queue ?cl = spsc_new kQueueCapacity message_default" "cl_config ?cl = client_config_default"
    using plain.fresh_contract [OF demo_client_simps(1,2), of replay_api "[Some (ReadOk ''hi'')]"]
    by (auto simp: connect_contract_def case_prod_unfold Let_def demo_client_simps plain.connect_keeps_config)
  then have i: "client_inv linux_os ''ws'' (se_client typed_session)"
    by (simp add: typed_session_def client_inv_def spsc_new_inv spsc_static_assert_def kQueueCapacity_def
        receiver_pin_def client_config_default_def)
  have env: "ce_os (demo_chat_env\<lparr>ce_clock := \<lambda>_. 0\<rparr>) = linux_os" "ce_tag (demo_chat_env\<lparr>ce_clock := \<lambda>_. 0\<rparr>) = ''ws''"
    "ce_storage (demo_chat_env\<lparr>ce_clock := \<lambda>_. 0\<rparr>) = 4096"
    by (simp_all add: demo_chat_env_def)
  have "length (cin_text (se_cin typed_session)) \<le> 2 ^ 53" by (simp add: typed_session_def)
  from chat_well_formed [OF e, of typed_session, unfolded env, OF demo_geometry i this] show ?thesis .
qed

end
