(* ===== verification/Program_Safety.thy ===== *)
theory Program_Safety
  imports Chat_Safety Program_Properties
begin

text \<open>
  The whole program without \<open>--reconnect\<close>, from the command line to its exit status: it exits with 0
  or 1, or waits forever. All components take part: the command line, the TLS context, the client
  with its queue and its receiver thread, the chat with its pool and its statistics.
\<close>

section \<open>Connecting and leaving\<close>

text \<open>Boost's part of connecting returns or throws.\<close>

definition net_ok :: "'w beast_api \<Rightarrow> bool" where
  "net_ok api \<longleftrightarrow> (\<forall>h p. no_crash (b_resolve api h p)) \<and> (\<forall>eps. no_crash (b_connect api eps)) \<and>
     (\<forall>opt. no_crash (b_set_option api opt)) \<and> no_crash (b_tls_handshake api) \<and>
     (\<forall>h t. no_crash (b_handshake api h t)) \<and> no_crash (b_spawn api)"

lemma establish_no_crash:
  assumes "net_ok api"
  shows "no_crash (ws_establish api h p)" and "no_crash (wss_establish api h p)"
proof -
  have "no_crash (sni_io api h)" by (auto simp: no_crash_def sni_io_def Let_def split: prod.splits if_splits)
  then show "no_crash (ws_establish api h p)" "no_crash (wss_establish api h p)"
    using assms unfolding ws_establish_def wss_establish_def net_ok_def by (auto intro!: no_crash_bind)
qed

lemma connect_no_crash:
  assumes "net_ok api" and "cl_receiver cl = NoThread"
  shows "fst ((if tag = ''wss'' then wss_connect else ws_connect) api cl) \<noteq> Crash e"
  using plain.fresh_no_crash [OF assms(2) establish_no_crash(1) [OF assms(1)]]
    tls.fresh_no_crash [OF assms(2) establish_no_crash(2) [OF assms(1)]] assms(1)
  by (simp add: net_ok_def)

lemma connect_keeps:
  assumes "cl_receiver cl = NoThread" and "\<not> is_running cl"
  shows "cl_queue (snd ((if tag = ''wss'' then wss_connect else ws_connect) api cl)) = cl_queue cl"
    and "cl_config (snd ((if tag = ''wss'' then wss_connect else ws_connect) api cl)) = cl_config cl"
proof -
  have "cl_queue (snd (con cl)) = cl_queue cl" if "connect_contract api est con cl" for est con
    using that by (simp add: connect_contract_def case_prod_unfold Let_def)
  with plain.fresh_contract [OF assms, of api] tls.fresh_contract [OF assms, of api]
  have "cl_queue (snd (ws_connect api cl)) = cl_queue cl" "cl_queue (snd (wss_connect api cl)) = cl_queue cl"
    by blast+
  then show "cl_queue (snd ((if tag = ''wss'' then wss_connect else ws_connect) api cl)) = cl_queue cl" by simp
  show "cl_config (snd ((if tag = ''wss'' then wss_connect else ws_connect) api cl)) = cl_config cl"
    by (simp add: plain.connect_keeps_config tls.connect_keeps_config)
qed

section \<open>Pinning\<close>

text \<open>The core asked for, or the last one of the machine, fits the affinity mask.\<close>

definition pin_fits :: "os_api \<Rightarrow> cli_args \<Rightarrow> bool" where
  "pin_fits os args \<longleftrightarrow> ca_pin_thread args \<longrightarrow>
     (if sint (ca_pin_core args) < 0 then unat (get_cpu_count os) \<le> max_cores os
      else sint (ca_pin_core args) < int (max_cores os))"

lemma pin_fits_core:
  assumes "pin_fits os args" and "ca_pin_thread args"
  shows "\<exists>core. receiver_core os (main_client_config args) = Inr core \<and> 0 \<le> sint core \<and> sint core < int (max_cores os)"
proof (cases "sint (ca_pin_core args) < 0")
  case True
  then have "sint (receiver_core_id (main_client_config args)) < 0" by (simp add: main_client_config_def)
  moreover have le: "unat (get_cpu_count os) \<le> max_cores os" using assms True by (simp add: pin_fits_def)
  ultimately obtain core where
    c: "receiver_core os (main_client_config args) = Inr core" "sint core = int (unat (get_cpu_count os)) - 1"
    using receiver_core_auto by blast
  define n where "n = unat (get_cpu_count os)"
  have "0 < n" "n \<le> max_cores os" "sint core = int n - 1" using le c get_cpu_count_pos [of os] by (simp_all add: n_def)
  then have "0 \<le> sint core" "sint core < int (max_cores os)" by auto
  with c(1) show ?thesis by blast
next
  case False
  with assms show ?thesis by (simp add: pin_fits_def receiver_core_def main_client_config_def)
qed

lemma pin_fits_pin:
  assumes "pin_fits os args"
  shows "\<exists>calls. receiver_pin os tag (main_client_config args) = Inr calls"
proof (cases "ca_pin_thread args")
  case True
  then have "pin_receiver_thread (main_client_config args)" by (simp add: main_client_config_def)
  with pin_fits_core [OF assms True] receiver_pin_core show ?thesis by blast
qed (simp add: receiver_pin_def main_client_config_def)

lemma pin_fits_msg:
  assumes "pin_fits os args" and "ca_pin_thread args"
  shows "\<exists>t. pin_msg os args = Inr t"
  using pin_fits_core [OF assms] by (auto simp: pin_msg_def receiver_core_def main_client_config_def Let_def split: if_splits)

section \<open>Runs\<close>

definition ends_well :: "i32 outcome \<Rightarrow> bool" where
  "ends_well r \<longleftrightarrow> r \<in> {Ret 0, Ret 1} \<or> (\<exists>h. r = Crash (Hangs h))"

text \<open>What the theorem asks of the machine: Boost, OpenSSL, the clock and the placement of the pool.\<close>

definition machine_ok :: "'w main_env \<Rightarrow> bool" where
  "machine_ok env \<longleftrightarrow> env_ok (me_chat env) \<and> net_ok (ce_api (me_chat env)) \<and>
     pool_geometry kPoolBlockSize kPoolNumBlocks (ce_storage (me_chat env)) \<and> length (cin_text (me_cin env)) \<le> 2 ^ 53 \<and>
     (\<forall>e. sa_context (me_ssl env) \<noteq> Crash e \<and> sa_set_verify_mode (me_ssl env) \<noteq> Crash e \<and>
       sa_set_default_paths (me_ssl env) \<noteq> Crash e)"

lemma main_try_ends:
  assumes "safe P body (\<lambda>_. client_ok ((me_chat env)\<lparr>ce_tag := tag\<rparr>)) (client_ok ((me_chat env)\<lparr>ce_tag := tag\<rparr>))" and "P s"
  shows "ends_well (fst (main_try env tag pre body s))"
proof (cases "body s")
  case (Pair r s1)
  have d: "destroy_client env tag s1 = None \<or> (\<exists>h. destroy_client env tag s1 = Some (Hangs h))"
    if "client_ok ((me_chat env)\<lparr>ce_tag := tag\<rparr>) s1"
    using close_inv [of "ce_os (me_chat env)" tag "se_client s1" "ce_join_steps (me_chat env)" "ce_api (me_chat env)"] that
    by (auto simp: destroy_client_def client_destroy_def client_ok_def Let_def)
  show ?thesis
  proof (cases r)
    case (Crash e)
    with safeD(3) [OF assms] Pair have "is_hang e" by blast
    then show ?thesis using Crash Pair by (cases e) (simp_all add: main_try_def ends_well_def)
  qed (use safeD(1,2) [OF assms] Pair d in \<open>auto simp: main_try_def ends_well_def\<close>)
qed

text \<open>The session before and after \<open>connect\<close>.\<close>

definition fresh :: "'w chat_env \<Rightarrow> 'w session \<Rightarrow> bool" where
  "fresh env s \<longleftrightarrow> client_ok env s \<and> cl_receiver (se_client s) = NoThread \<and> \<not> is_running (se_client s) \<and> input_left s \<le> 2 ^ 53"

lemma fresh_out [simp]: "fresh env (s\<lparr>se_out := x\<rparr>) = fresh env s"
  by (simp add: fresh_def client_ok_def input_left_def)

lemma safe_connect:
  assumes "net_ok (ce_api (me_chat env))"
  shows "safe (fresh ce) (client_connect env tag) (\<lambda>_ s. client_ok ce s \<and> input_left s \<le> 2 ^ 53) (client_ok ce)"
proof (rule safeI)
  let ?con = "(if tag = ''wss'' then wss_connect else ws_connect) (ce_api (me_chat env))"
  have k: "client_ok ce s' \<and> input_left s' \<le> 2 ^ 53" if "fresh ce s" "client_connect env tag s = (r, s')" for s r s'
  proof -
    from that(2) have s': "s' = s\<lparr>se_client := snd (?con (se_client s))\<rparr>"
      by (auto simp: client_connect_def split: prod.splits)
    from that(1) have "cl_receiver (se_client s) = NoThread" "\<not> is_running (se_client s)" by (simp_all add: fresh_def)
    note c = connect_keeps [OF this, of tag "ce_api (me_chat env)"]
    show ?thesis using that(1) unfolding s' by (simp add: fresh_def client_ok_def client_inv_def input_left_def c)
  qed
  show "client_ok ce s' \<and> input_left s' \<le> 2 ^ 53" if "fresh ce s" "client_connect env tag s = (Ret a, s')" for s s' and a :: unit
    using k [OF that] .
  show "client_ok ce s'" if "fresh ce s" "client_connect env tag s = (Throw e, s')" for s e s'
    using k [OF that] by simp
  show "is_hang c" if "fresh ce s" "client_connect env tag s = (Crash c, s')" for s c s'
  proof -
    from that(1) have "cl_receiver (se_client s) = NoThread" by (simp add: fresh_def)
    from connect_no_crash [OF assms this, of tag c] that(2) show ?thesis
      by (auto simp: client_connect_def split: prod.splits)
  qed
qed

lemma fresh_session:
  assumes "machine_ok env" and "pin_fits (ce_os (me_chat env)) args"
  shows "fresh ((me_chat env)\<lparr>ce_tag := tag\<rparr>) (main_session env tag' args)"
  using assms pin_fits_pin [OF assms(2), of tag]
  by (simp add: machine_ok_def fresh_def client_ok_def client_inv_def main_session_def wss_new_def client_new_def is_running_def
      input_left_def spsc_new_inv spsc_static_assert_def kQueueCapacity_def)

lemma safe_fresh_say: "safe (fresh ce) (say t) (\<lambda>_. fresh ce) (client_ok ce)"
  by (simp add: safe_def say_def)

lemma safe_connected_chat:
  assumes "machine_ok env"
  shows "safe (fresh ((me_chat env)\<lparr>ce_tag := tag\<rparr>))
    (bind_io (client_connect env tag) (\<lambda>_. chat_session ((me_chat env)\<lparr>ce_tag := tag\<rparr>)))
    (\<lambda>_. client_ok ((me_chat env)\<lparr>ce_tag := tag\<rparr>)) (client_ok ((me_chat env)\<lparr>ce_tag := tag\<rparr>))"
proof (rule safe_bind [OF safe_connect safe_session])
  show "net_ok (ce_api (me_chat env))" using assms by (simp add: machine_ok_def)
qed (use assms in \<open>simp_all add: machine_ok_def env_ok_def\<close>)

lemma main_plain_ends:
  assumes "machine_ok env" and "pin_fits (ce_os (me_chat env)) args"
  shows "ends_well (fst (main_plain env args))"
proof -
  let ?ce = "(me_chat env)\<lparr>ce_tag := ''ws''\<rparr>"
  have "safe (fresh ?ce) (if ca_pin_thread args then bind_io (lift (pin_msg (ce_os ?ce) args)) say else return_io ())
      (\<lambda>_. fresh ?ce) (client_ok ?ce)"
    using pin_fits_msg [OF assms(2)] by (auto simp: safe_def bind_io_def lift_def say_def return_io_def)
  then have "safe (fresh ?ce) (bind_io (say (connecting_msg args [])) (\<lambda>_.
      bind_io (if ca_pin_thread args then bind_io (lift (pin_msg (ce_os ?ce) args)) say else return_io ()) (\<lambda>_.
      bind_io (client_connect env ''ws'') (\<lambda>_. chat_session ?ce)))) (\<lambda>_. client_ok ?ce) (client_ok ?ce)"
    by (rule safe_bind [OF safe_fresh_say safe_bind]) (rule safe_connected_chat [OF assms(1)])
  from main_try_ends [OF this fresh_session [OF assms]] show ?thesis by (simp add: main_plain_def Let_def)
qed

lemma main_tls_ends:
  assumes "machine_ok env" and "pin_fits (ce_os (me_chat env)) args"
  shows "ends_well (fst (main_tls env args))"
proof -
  let ?ce = "(me_chat env)\<lparr>ce_tag := ''wss''\<rparr>" and ?s = "main_session env ''wss'' args"
  let ?body = "bind_io (say (connecting_msg args '' (TLS)'')) (\<lambda>_. bind_io (client_connect env ''wss'') (\<lambda>_. chat_session ?ce))"
  have body: "safe (fresh ?ce) ?body (\<lambda>_. client_ok ?ce) (client_ok ?ce)"
    by (rule safe_bind [OF safe_fresh_say safe_connected_chat [OF assms(1)]])
  have f: "fresh ?ce (?s\<lparr>se_out := x\<rparr>)" for x using fresh_session [OF assms] by simp
  obtain r c where t: "tls_setup (os_platform (ce_os ?ce)) (me_ssl env) = (r, c)"
    by (cases "tls_setup (os_platform (ce_os ?ce)) (me_ssl env)")
  have nc: "r \<noteq> Crash e" for e
    using tls_setup_no_crash [of "me_ssl env" "os_platform (ce_os ?ce)" e] assms(1) t by (simp add: machine_ok_def)
  show ?thesis
  proof (cases r)
    case (Ret printed)
    then show ?thesis using t main_try_ends [OF body f] by (simp add: main_tls_def Let_def)
  qed (use t nc in \<open>simp_all add: main_tls_def Let_def ends_well_def\<close>)
qed

section \<open>Properties\<close>



end
