(* ===== verification/Benchmark.thy ===== *)
theory Benchmark
  imports Program
begin

text \<open>
  \<open>benchmarks/benchmark_client.cpp\<close>: the latency benchmark, a second program on the same client. Its
  four scenarios and its \<open>main\<close> are \<open>io\<close> functions of the session of the chat, of which they use the
  client, the clock, the schedules of the receiver and the output.
\<close>

section \<open>Payloads and texts\<close>

definition make_payload :: "size_t \<Rightarrow> string" where
  "make_payload len = map (\<lambda>i. char_of (65 + i mod 26)) [0..<unat len]"

definition header_text :: "string \<Rightarrow> string" where
  "header_text title =
     (let bar = concat (replicate 48 (box_char 0x90)) @ nl in nl @ bar @ ''  '' @ title @ nl @ bar)"

definition suite_banner :: "string \<Rightarrow> string \<Rightarrow> string" where
  "suite_banner host port =
     nl @ box_char 0x94 @ box_bar @ box_char 0x97 @ nl @
     box_row ''     WebSocket Latency Benchmark Suite        '' @
     box_char 0xA0 @ box_bar @ box_char 0xA3 @ nl @
     box_row (''  Server: '' @ setw_left 35 (host @ '':'' @ port) @ '' '') @
     box_row (''  Queue:  '' @ setw_left 35 (to_str kQueueCapacity @ '' slots (SPSC lock-free)'') @ '' '') @
     box_char 0x9A @ box_bar @ box_char 0x9D @ nl"

definition done_msg :: string where
  "done_msg = nl @ ''['' @ [CHR 0xE2, CHR 0x9C, CHR 0x93] @ ''] All benchmarks complete.'' @ nl @ nl"

section \<open>Round trips\<close>

text \<open>One message sent and its answer awaited, and the loops over it.\<close>

definition rtt_round :: "'w chat_env \<Rightarrow> string \<Rightarrow> latency_stats \<Rightarrow> ('w, latency_stats) chat" where
  "rtt_round env msg st =
     bind_io (now env) (\<lambda>t_start.
     bind_io (chat_send_text env msg) (\<lambda>_.
     bind_io (chat_spin_receive env) (\<lambda>_.
     record_since env t_start st)))"

fun rtt_loop :: "'w chat_env \<Rightarrow> (nat \<Rightarrow> string) \<Rightarrow> nat \<Rightarrow> nat \<Rightarrow> latency_stats \<Rightarrow> ('w, latency_stats) chat" where
  "rtt_loop env msg i 0 st = return_io st"
| "rtt_loop env msg i (Suc n) st = bind_io (rtt_round env (msg i) st) (rtt_loop env msg (Suc i) n)"

definition benchmark_sequential_rtt :: "'w chat_env \<Rightarrow> i32 \<Rightarrow> ('w, unit) chat" where
  "benchmark_sequential_rtt env num_messages =
     bind_io (say (header_text (''Sequential RTT Benchmark ('' @ int_to_string (sint num_messages) @ '' msgs)''))) (\<lambda>_.
     bind_io (rtt_loop env (\<lambda>i. ''seq_'' @ nat_to_string i) 0 (nat (sint num_messages))
       (stats_new (of_int (sint num_messages)))) (\<lambda>stats.
     show_report env ''Sequential RTT'' stats))"

definition benchmark_warmup_effect :: "'w chat_env \<Rightarrow> i32 \<Rightarrow> i32 \<Rightarrow> ('w, unit) chat" where
  "benchmark_warmup_effect env warmup_count measure_count =
     bind_io (say (header_text ''Warm-Up Effect Analysis'')) (\<lambda>_.
     bind_io (rtt_loop env (\<lambda>i. ''cold_'' @ nat_to_string i) 0 (nat (sint warmup_count))
       (stats_new (of_int (sint warmup_count)))) (\<lambda>cold_stats.
     bind_io (rtt_loop env (\<lambda>i. ''warm_'' @ nat_to_string i) 0 (nat (sint measure_count))
       (stats_new (of_int (sint measure_count)))) (\<lambda>warm_stats.
     bind_io (show_report env (''Cold Start ('' @ int_to_string (sint warmup_count) @ '' msgs)'') cold_stats) (\<lambda>_.
     show_report env (''Warm State ('' @ int_to_string (sint measure_count) @ '' msgs)'') warm_stats))))"

section \<open>Throughput\<close>

text \<open>The burst; the receiver runs on between two sends.\<close>

fun burst :: "'w chat_env \<Rightarrow> nat \<Rightarrow> nat \<Rightarrow> ('w, unit) chat" where
  "burst env i 0 = return_io ()"
| "burst env i (Suc n) =
     bind_io (let_receiver_run env) (\<lambda>_.
     bind_io (chat_send_text env (''burst_'' @ nat_to_string i)) (\<lambda>_.
     burst env (Suc i) n))"

definition receiver_steps :: "'w chat_env \<Rightarrow> nat \<Rightarrow> ('w, unit) chat" where
  "receiver_steps env k s =
     (case receive_loop k (ce_api env) (ce_os env) (ce_tag env) (se_client s) of
        Inl e \<Rightarrow> (Crash e, s)
      | Inr cl \<Rightarrow> (Ret (), s\<lparr>se_client := cl\<rparr>))"

text \<open>The loop around \<open>try_receive\<close> until the last number of messages is reached. The schedule gives
  the steps of the receiver before each look; the loop hangs where it ends.\<close>

fun drain :: "'w chat_env \<Rightarrow> nat list \<Rightarrow> nat \<Rightarrow> ('w, unit) chat" where
  "drain env sched 0 = return_io ()"
| "drain env [] (Suc n) = (\<lambda>s. (Crash (Hangs ''try_receive''), s))"
| "drain env (k # sched) (Suc n) =
     bind_io (receiver_steps env k) (\<lambda>_.
     bind_io (chat_try_receive env) (\<lambda>msg. drain env sched (case msg of None \<Rightarrow> Suc n | Some _ \<Rightarrow> n)))"

definition drain_next :: "'w chat_env \<Rightarrow> nat \<Rightarrow> ('w, unit) chat" where
  "drain_next env n s = drain env (case se_spins s of [] \<Rightarrow> [] | sc # _ \<Rightarrow> sc) n (s\<lparr>se_spins := tl (se_spins s)\<rparr>)"

text \<open>The numbers of the table: milliseconds, messages per second, microseconds per message. Dividing by no
  time at all gives \<open>inf\<close>, here \<open>None\<close>.\<close>

definition throughput_figures :: "(real \<Rightarrow> real) \<Rightarrow> int \<Rightarrow> int \<Rightarrow> real \<times> real option \<times> real" where
  "throughput_figures rnd num_messages elapsed_us =
     (let elapsed_ms = rnd (rnd (of_int elapsed_us) / 1000); elapsed_s = rnd (elapsed_ms / 1000)
      in (elapsed_ms,
          if elapsed_s = 0 then None else Some (rnd (rnd (of_int num_messages) / elapsed_s)),
          rnd (rnd (of_int elapsed_us) / rnd (of_int num_messages))))"

definition throughput_lines :: "(real \<Rightarrow> real) \<Rightarrow> int \<Rightarrow> int \<Rightarrow> string list" where
  "throughput_lines rnd num_messages elapsed_us =
     (let (elapsed_ms, msgs_per_sec, avg_us) = throughput_figures rnd num_messages elapsed_us
      in [[],
          rule_line 0x8C 45 0x90,
          vbar @ '' Throughput Results'' @ replicate 26 (CHR '' '') @ '' '' @ vbar,
          rule_line 0x9C 45 0xA4,
          vbar @ ''  Messages     : '' @ setw_left 28 (int_to_string num_messages) @ vbar,
          vbar @ ''  Total time   : '' @ setw_left 24 (fixed_str 2 elapsed_ms) @ '' ms '' @ vbar,
          vbar @ ''  Throughput   : '' @
            setw_left 22 (case msgs_per_sec of None \<Rightarrow> ''inf'' | Some x \<Rightarrow> fixed_str 0 x) @ '' msg/s '' @ vbar,
          vbar @ ''  Avg interval : '' @ setw_left 24 (fixed_str 2 avg_us) @ '' '' @ micro @ ''s '' @ vbar,
          rule_line 0x94 45 0x98])"

definition benchmark_throughput :: "'w chat_env \<Rightarrow> i32 \<Rightarrow> ('w, unit) chat" where
  "benchmark_throughput env num_messages =
     bind_io (say (header_text (''Throughput Benchmark ('' @ int_to_string (sint num_messages) @ '' msgs)''))) (\<lambda>_.
     bind_io (now env) (\<lambda>t_start.
     bind_io (burst env 0 (nat (sint num_messages))) (\<lambda>_.
     bind_io (drain_next env (nat (sint num_messages))) (\<lambda>_.
     bind_io (now env) (\<lambda>t_end.
     bind_io (lift (rtt_us t_end t_start)) (\<lambda>elapsed_us.
     say (print_lines (throughput_lines (ce_rnd env) (sint num_messages) elapsed_us))))))))"

section \<open>Message sizes\<close>

definition message_sizes :: "size_t list" where
  "message_sizes = [16, 64, 256, 1024, 4096, 16384]"

definition kMessagesPerSize :: i32 where
  "kMessagesPerSize = 50"

text \<open>The numbers of a row: minimum, mean, 99th percentile and maximum, in microseconds.\<close>

definition size_row :: "(real \<Rightarrow> real) \<Rightarrow> latency_stats \<Rightarrow> real list result" where
  "size_row rnd stats =
     (let srt = sort_key sint (stats_samples stats); n = length srt; us = (\<lambda>s. rnd (dbl rnd s / 1000));
          mean_us = rnd (rnd (sum_dbl rnd srt / rnd (of_nat n)) / 1000)
      in bind_result (arr_get srt 0) (\<lambda>front.
         bind_result (arr_get srt (of_nat n - 1)) (\<lambda>back.
         bind_result (to_size_t (rnd (rnd (99 / 100) * rnd (of_nat (unat (of_nat n - 1 :: size_t)))))) (\<lambda>p99_idx.
         bind_result (arr_get srt p99_idx) (\<lambda>p99.
           Inr [us front, mean_us, us p99, us back])))))"

text \<open>The table: its three rules, its head, and the row of a size.\<close>

definition sizes_rule :: "nat \<Rightarrow> nat \<Rightarrow> nat \<Rightarrow> string" where
  "sizes_rule left mid right =
     line_char left @ concat (replicate 9 (line_char 0x80)) @
     concat (replicate 4 (line_char mid @ concat (replicate 10 (line_char 0x80)))) @ line_char right"

definition sizes_head :: string where
  "sizes_head = vbar @ ''  Size   '' @ vbar @ ''  Min '' @ micro @ ''s  '' @ vbar @ ''  Mean '' @ micro @ ''s '' @ vbar @
     ''  p99 '' @ micro @ ''s  '' @ vbar @ ''  Max '' @ micro @ ''s  '' @ vbar"

definition size_line :: "size_t \<Rightarrow> real list \<Rightarrow> string" where
  "size_line len row =
     vbar @ '' '' @ setw_right 5 (to_str len) @ '' B'' @
     concat (map (\<lambda>x. '' '' @ vbar @ '' '' @ setw_right 8 (fixed_str 1 x)) row) @ '' '' @ vbar"

definition benchmark_size :: "'w chat_env \<Rightarrow> size_t \<Rightarrow> ('w, unit) chat" where
  "benchmark_size env len =
     (let body = make_payload len
      in bind_io (rtt_loop env (\<lambda>_. body) 0 (nat (sint kMessagesPerSize)) (stats_new (of_int (sint kMessagesPerSize)))) (\<lambda>stats.
         bind_io (lift (size_row (ce_rnd env) stats)) (\<lambda>row.
         say (print_lines [size_line len row]))))"

fun benchmark_sizes :: "'w chat_env \<Rightarrow> size_t list \<Rightarrow> ('w, unit) chat" where
  "benchmark_sizes env [] = return_io ()"
| "benchmark_sizes env (len # lens) = bind_io (benchmark_size env len) (\<lambda>_. benchmark_sizes env lens)"

definition benchmark_message_sizes :: "'w chat_env \<Rightarrow> ('w, unit) chat" where
  "benchmark_message_sizes env =
     bind_io (say (header_text ''Message Size Impact'')) (\<lambda>_.
     bind_io (say (print_lines [[], sizes_rule 0x8C 0xAC 0x90, sizes_head, sizes_rule 0x9C 0xBC 0xA4])) (\<lambda>_.
     bind_io (benchmark_sizes env message_sizes) (\<lambda>_.
     say (print_lines [sizes_rule 0x94 0xB4 0x98]))))"

section \<open>The program\<close>

definition bench_target :: "string list \<Rightarrow> string \<times> string" where
  "bench_target argv = (if 3 \<le> length argv then (argv ! 1, argv ! 2) else (kDefaultHost, kDefaultPort))"

fun skip_welcome :: "'w chat_env \<Rightarrow> nat \<Rightarrow> ('w, unit) chat" where
  "skip_welcome env 0 = return_io ()"
| "skip_welcome env (Suc n) =
     bind_io (chat_try_receive env) (\<lambda>msg.
       case msg of
         Some m \<Rightarrow> return_io ()
       | None \<Rightarrow> bind_io (let_receiver_run env) (\<lambda>_. skip_welcome env n))"

definition bench_suite :: "'w chat_env \<Rightarrow> ('w, unit) chat" where
  "bench_suite env =
     bind_io (skip_welcome env 50) (\<lambda>_.
     bind_io (benchmark_sequential_rtt env kBenchmarkMessages) (\<lambda>_.
     bind_io (benchmark_throughput env kBenchmarkMessages) (\<lambda>_.
     bind_io (benchmark_warmup_effect env kWarmupMessages kBenchmarkMessages) (\<lambda>_.
     bind_io (benchmark_message_sizes env) (\<lambda>_.
     bind_io (say done_msg) (\<lambda>_.
     chat_close env))))))"

text \<open>The program does not read standard input.\<close>

definition bench_session :: "'w main_env \<Rightarrow> string \<Rightarrow> string \<Rightarrow> 'w session" where
  "bench_session env host port =
     \<lparr>se_client = client_new (ce_api (me_chat env)) (me_ioc env) host port client_config_default,
      se_stats = stats_new 0, se_world = me_world env, se_cin = \<lparr>cin_text = [], cin_good = True\<rparr>, se_input = [], se_now = 0,
      se_spins = me_spins env, se_steps = me_steps env, se_out = [Say (suite_banner host port)]\<rparr>"

text \<open>The one handler prints the exception without a prefix.\<close>

definition bench_main :: "'w main_env \<Rightarrow> string list \<Rightarrow> run" where
  "bench_main env argv =
     (let (host, port) = bench_target argv; ce = (me_chat env)\<lparr>ce_tag := ''ws''\<rparr>
      in main_try env ''ws'' []
           (bind_io (say (nl @ ''[*] Connecting to '' @ host @ '':'' @ port @ ''...'' @ nl)) (\<lambda>_.
            bind_io (client_connect env ''ws'') (\<lambda>_. bench_suite ce)))
           (bench_session env host port))"

end
