(* ===== verification/Benchmark_Properties.thy ===== *)
theory Benchmark_Properties
  imports Benchmark Program_Safety
begin

text \<open>
  What the latency benchmark measures and how it ends: the samples of its round trips, the bounds of
  its table of message sizes, when its throughput loop ends, and that the program exits with 0 or
  1 or waits forever.
\<close>

section \<open>No undefined behaviour\<close>

lemma safe_rtt_round:
  assumes "env_ok env"
  shows "safe (chat_ok env k) (rtt_round env msg st)
    (\<lambda>st' s. length (samples_ns st') = Suc (length (samples_ns st)) \<and> chat_ok env k s) (client_ok env)"
  unfolding rtt_round_def
  by (rule safe_bind [OF safe_now [OF assms]], rule safe_pure, rule safe_bind [OF safe_send(1) [OF assms]],
      rule safe_bind [OF safe_spin], rule safe_record_since [OF assms])

lemma safe_rtt_loop:
  assumes "env_ok env"
  shows "safe (chat_ok env k) (rtt_loop env msg i n st)
    (\<lambda>st' s. length (samples_ns st') = length (samples_ns st) + n \<and> chat_ok env k s) (client_ok env)"
proof (induction n arbitrary: i st)
  case (Suc n)
  show ?case unfolding rtt_loop.simps
  proof (rule safe_bind [OF safe_rtt_round [OF assms]], rule safe_pure)
    fix st' :: latency_stats assume "length (samples_ns st') = Suc (length (samples_ns st))"
    with Suc.IH [of "Suc i" st'] show "safe (chat_ok env k) (rtt_loop env msg (Suc i) n st')
      (\<lambda>st'' s. length (samples_ns st'') = length (samples_ns st) + Suc n \<and> chat_ok env k s) (client_ok env)" by simp
  qed
qed (auto intro: safe_return)

text \<open>A loop over messages followed by what is done with its samples.\<close>

lemma safe_rtt_then:
  assumes "env_ok env"
    and "\<And>st. length (samples_ns st) = n \<Longrightarrow> safe (chat_ok env k) (after st) (\<lambda>_. chat_ok env k) (client_ok env)"
  shows "safe (chat_ok env k) (bind_io (rtt_loop env msg i n (stats_new r)) after) (\<lambda>_. chat_ok env k) (client_ok env)"
  by (rule safe_bind [OF safe_rtt_loop [OF assms(1)]], rule safe_pure) (use assms(2) in \<open>simp add: stats_new_def\<close>)

lemma safe_sequential:
  assumes "env_ok env"
  shows "safe (chat_ok env k) (benchmark_sequential_rtt env n) (\<lambda>_. chat_ok env k) (client_ok env)"
proof -
  have "nat (sint n) \<le> 2 ^ 53" using sint_lt [of n] by simp
  then show ?thesis unfolding benchmark_sequential_rtt_def
    by (intro safe_bind [OF safe_say] safe_rtt_then [OF assms] safe_show [OF assms]) simp
qed

lemma safe_warmup:
  assumes "env_ok env"
  shows "safe (chat_ok env k) (benchmark_warmup_effect env n m) (\<lambda>_. chat_ok env k) (client_ok env)"
proof -
  have "nat (sint n) \<le> 2 ^ 53" "nat (sint m) \<le> 2 ^ 53" using sint_lt [of n] sint_lt [of m] by simp_all
  then show ?thesis unfolding benchmark_warmup_effect_def
    by (intro safe_bind [OF safe_say] safe_rtt_then [OF assms] safe_bind [OF safe_show [OF assms]] safe_show [OF assms]) simp_all
qed

lemma safe_burst:
  assumes "env_ok env"
  shows "safe (chat_ok env k) (burst env i n) (\<lambda>_. chat_ok env k) (client_ok env)"
  by (induction n arbitrary: i) (auto intro: safe_return safe_bind [OF safe_run] safe_bind [OF safe_send(1) [OF assms]])

lemma safe_receiver_steps: "safe (chat_ok env k) (receiver_steps env j) (\<lambda>_. chat_ok env k) (client_ok env)"
proof (rule safe_client_op)
  fix s assume "client_ok env s"
  from receive_loop_inv [OF this [unfolded client_ok_def], of j "ce_api env"]
  show "client_op env s (receiver_steps env j s)" by (auto simp: client_op_def client_ok_def receiver_steps_def)
qed

lemma safe_drain: "safe (chat_ok env k) (drain env sched n) (\<lambda>_. chat_ok env k) (client_ok env)"
proof (induction env sched n rule: drain.induct)
  case (3 env j sched n)
  then show ?case unfolding drain.simps
    by (intro safe_bind [OF safe_receiver_steps] safe_bind [OF safe_try_receive]) simp
qed (auto simp: safe_def return_io_def)

lemma safe_drain_next: "safe (chat_ok env k) (drain_next env n) (\<lambda>_. chat_ok env k) (client_ok env)"
  unfolding safe_def drain_next_def
proof (intro allI impI)
  fix s assume "chat_ok env k s"
  then have "chat_ok env k (s\<lparr>se_spins := tl (se_spins s)\<rparr>)" by simp
  then show "case drain env (case se_spins s of [] \<Rightarrow> [] | sc # x \<Rightarrow> sc) n (s\<lparr>se_spins := tl (se_spins s)\<rparr>) of
      (Ret a, s') \<Rightarrow> chat_ok env k s' | (Throw e, s') \<Rightarrow> client_ok env s' | (Crash c, s') \<Rightarrow> is_hang c"
    by (rule safe_drain [unfolded safe_def, THEN spec, THEN mp])
qed

lemma safe_throughput:
  assumes "env_ok env"
  shows "safe (chat_ok env k) (benchmark_throughput env n) (\<lambda>_. chat_ok env k) (client_ok env)"
  unfolding benchmark_throughput_def
  by (rule safe_bind [OF safe_say], rule safe_bind [OF safe_now [OF assms]], rule safe_pure,
      rule safe_bind [OF safe_burst [OF assms]], rule safe_bind [OF safe_drain_next],
      rule safe_bind [OF safe_now [OF assms]], rule safe_pure, rule safe_bind [OF safe_rtt], assumption+, rule safe_say)

section \<open>The table of message sizes\<close>

lemma unat_last_index:
  assumes "0 < n" and "n \<le> 2 ^ 53"
  shows "unat (of_nat n - 1 :: size_t) = n - 1"
proof -
  have "(of_nat n - 1 :: size_t) = of_nat (n - 1)" using assms(1) by simp
  then show ?thesis using assms by (simp only: unat_of_nat) simp
qed

context rounding
begin

text \<open>The row is computed without undefined behaviour, and its percentile is the sample at some rank that is in range.\<close>

lemma size_row_value:
  assumes "samples_ns st \<noteq> []" and "length (samples_ns st) \<le> 2 ^ 53"
  shows "\<exists>k. k < length (samples_ns st) \<and>
    of_nat k \<le> rnd (rnd (99 / 100) * of_nat (length (samples_ns st) - 1)) \<and>
    size_row rnd st = Inr [rnd (dbl rnd (hd (sort_key sint (samples_ns st))) / 1000),
      rnd (rnd (sum_dbl rnd (sort_key sint (samples_ns st)) / of_nat (length (samples_ns st))) / 1000),
      rnd (dbl rnd (sort_key sint (samples_ns st) ! k) / 1000),
      rnd (dbl rnd (last (sort_key sint (samples_ns st))) / 1000)]"
proof -
  define srt n where "srt = sort_key sint (samples_ns st)" and "n = length srt"
  have n: "0 < n" "n \<le> 2 ^ 53" "n = length (samples_ns st)" using assms by (simp_all add: n_def srt_def)
  let ?r = "rnd (rnd (99 / 100) * of_nat (n - 1))"
  have n1: "n - 1 \<le> 2 ^ 53" using n(2) by simp
  have "0 \<le> ?r \<and> ?r \<le> of_nat (n - 1)" by (rule rnd_scaled_count) (use n1 in simp_all)
  with to_size_t_count [OF _ _ n1, of ?r] obtain k where
    k: "to_size_t ?r = Inr k" "unat k = nat \<lfloor>?r\<rfloor>" "unat k \<le> n - 1" by blast
  have r0: "0 \<le> ?r" using \<open>0 \<le> ?r \<and> ?r \<le> of_nat (n - 1)\<close> ..
  have kr: "real (unat k) \<le> ?r" unfolding k(2) using r0 by linarith
  have ne: "srt \<noteq> []" using n(1) by (auto simp: n_def)
  have kn: "unat k < length srt" using k(3) n(1) unfolding n_def by linarith
  have idx: "rnd (of_nat (unat (of_nat n - 1 :: size_t))) = of_nat (n - 1)"
    unfolding unat_last_index [OF n(1,2)] by (rule rnd_nat [OF n1])
  have "arr_get srt 0 = Inr (hd srt)" "arr_get srt (of_nat n - 1) = Inr (last srt)" "arr_get srt k = Inr (srt ! unat k)"
    using n kn ne by (simp_all add: arr_get_def unat_last_index hd_conv_nth last_conv_nth flip: n_def)
  then have "size_row rnd st = Inr [rnd (dbl rnd (hd srt) / 1000), rnd (rnd (sum_dbl rnd srt / of_nat n) / 1000),
      rnd (dbl rnd (srt ! unat k) / 1000), rnd (dbl rnd (last srt) / 1000)]"
    unfolding size_row_def stats_samples_def Let_def srt_def [symmetric] n_def [symmetric] idx rnd_nat [OF n(2)]
    using k(1) by simp
  with kn kr show ?thesis by (auto simp: n(3) srt_def simp del: of_nat_diff)
qed

end

section \<open>The program\<close>

lemma safe_size:
  assumes "env_ok env"
  shows "safe (chat_ok env k) (benchmark_size env len) (\<lambda>_. chat_ok env k) (client_ok env)"
  unfolding benchmark_size_def Let_def
proof (rule safe_rtt_then [OF assms])
  fix st :: latency_stats assume "length (samples_ns st) = nat (sint kMessagesPerSize)"
  then have n: "length (samples_ns st) = 50" by (simp add: kMessagesPerSize_def)
  then have "samples_ns st \<noteq> []" "length (samples_ns st) \<le> 2 ^ 53" by auto
  from ieee.size_row_value [OF this] obtain row where "size_row fl st = Inr row" by blast
  then show "safe (chat_ok env k) (bind_io (lift (size_row (ce_rnd env) st)) (\<lambda>row. say (print_lines [size_line len row])))
      (\<lambda>_. chat_ok env k) (client_ok env)"
    using assms by (auto simp: safe_def bind_io_def lift_def say_def env_ok_def)
qed

lemma safe_sizes:
  assumes "env_ok env"
  shows "safe (chat_ok env k) (benchmark_sizes env lens) (\<lambda>_. chat_ok env k) (client_ok env)"
  by (induction lens) (auto intro: safe_return safe_bind [OF safe_size [OF assms]])

lemma safe_message_sizes:
  assumes "env_ok env"
  shows "safe (chat_ok env k) (benchmark_message_sizes env) (\<lambda>_. chat_ok env k) (client_ok env)"
  unfolding benchmark_message_sizes_def
  by (intro safe_bind [OF safe_say] safe_bind [OF safe_sizes [OF assms]] safe_say)

lemma safe_welcome: "safe (chat_ok env k) (skip_welcome env n) (\<lambda>_. chat_ok env k) (client_ok env)"
proof (induction n)
  case (Suc n)
  show ?case unfolding skip_welcome.simps
    by (rule safe_bind [OF safe_try_receive]) (auto intro: safe_return safe_bind [OF safe_run Suc.IH] split: option.split)
qed (auto intro: safe_return)

lemma safe_suite:
  assumes "env_ok env"
  shows "safe (chat_ok env k) (bench_suite env) (\<lambda>_. client_ok env) (client_ok env)"
proof -
  have "safe (chat_ok env k) (chat_close env) (\<lambda>_. client_ok env) (client_ok env)"
    by (rule safe_conseq [OF safe_close]) (auto simp: chat_ok_client)
  then show ?thesis
    unfolding bench_suite_def
    by (intro safe_bind [OF safe_welcome] safe_bind [OF safe_sequential [OF assms]] safe_bind [OF safe_throughput [OF assms]]
        safe_bind [OF safe_warmup [OF assms]] safe_bind [OF safe_message_sizes [OF assms]] safe_bind [OF safe_say])
qed

text \<open>Before and after \<open>connect\<close> there are no samples and no input to count.\<close>

definition unmeasured :: "'w session \<Rightarrow> bool" where
  "unmeasured s \<longleftrightarrow> samples_ns (se_stats s) = [] \<and> cin_text (se_cin s) = []"

lemma safe_connect_chat_ok:
  assumes "net_ok (ce_api (me_chat env))"
  shows "safe (\<lambda>s. fresh ce s \<and> unmeasured s) (client_connect env tag) (\<lambda>_. chat_ok ce 0) (client_ok ce)"
proof (rule safeI)
  note d = safeD [OF safe_connect [OF assms, of ce tag]]
  show "chat_ok ce 0 s'" if "fresh ce s \<and> unmeasured s" "client_connect env tag s = (Ret a, s')" for s s' and a :: unit
  proof -
    from that(2) have "se_stats s' = se_stats s" "se_cin s' = se_cin s" by (auto simp: client_connect_def split: prod.splits)
    with that d(1) show ?thesis by (auto simp: chat_ok_def unmeasured_def input_left_def)
  qed
  show "client_ok ce s'" if "fresh ce s \<and> unmeasured s" "client_connect env tag s = (Throw e, s')" for s e s'
    using that d(2) by blast
  show "is_hang c" if "fresh ce s \<and> unmeasured s" "client_connect env tag s = (Crash c, s')" for s c s'
    using that d(3) by blast
qed

section \<open>The throughput loop\<close>

text \<open>A look at the queue when the receiver has ended.\<close>

lemma drain_look:
  assumes "receiver_gone (se_client s)" and "spsc_inv kQueueCapacity (cl_queue (se_client s))"
  shows "\<exists>s'. drain env (k # sched) (Suc n) s = drain env sched (case queued (se_client s) of [] \<Rightarrow> Suc n | _ # _ \<Rightarrow> n) s' \<and>
    receiver_gone (se_client s') \<and> spsc_inv kQueueCapacity (cl_queue (se_client s')) \<and>
    queued (se_client s') = tl (queued (se_client s))"
proof -
  from try_receive_spec [OF assms(2), of "ce_api env"] obtain q where
    q: "try_receive (ce_api env) (se_client s) =
        Inr (case queued (se_client s) of [] \<Rightarrow> None | m # _ \<Rightarrow> Some m, (se_client s)\<lparr>cl_queue := q\<rparr>)"
      "spsc_inv kQueueCapacity q" "spsc_list kQueueCapacity q = tl (queued (se_client s))" by blast
  let ?s = "s\<lparr>se_client := (se_client s)\<lparr>cl_queue := q\<rparr>\<rparr>"
  have "drain env (k # sched) (Suc n) s = drain env sched (case queued (se_client s) of [] \<Rightarrow> Suc n | _ # _ \<Rightarrow> n) ?s"
    using q(1) by (cases "queued (se_client s)")
      (simp_all add: bind_io_def receiver_steps_def chat_try_receive_def receive_loop_gone [OF assms(1)])
  with q(2,3) assms(1) show ?thesis by (intro exI [of _ ?s]) (simp add: receiver_gone_def)
qed

lemma drain_starves:
  assumes "receiver_gone (se_client s)" and "spsc_inv kQueueCapacity (cl_queue (se_client s))"
    and "length (queued (se_client s)) < n"
  shows "fst (drain env sched n s) = Crash (Hangs ''try_receive'')"
  using assms
proof (induction sched arbitrary: n s)
  case Nil
  then show ?case by (cases n) simp_all
next
  case (Cons k sched)
  then obtain n' where n: "n = Suc n'" by (cases n) simp_all
  from drain_look [OF Cons.prems(1,2), of env k sched n'] obtain s' where
    s': "drain env (k # sched) n s = drain env sched (case queued (se_client s) of [] \<Rightarrow> n | _ # _ \<Rightarrow> n') s'"
      "receiver_gone (se_client s')" "spsc_inv kQueueCapacity (cl_queue (se_client s'))"
      "queued (se_client s') = tl (queued (se_client s))" unfolding n by blast
  from Cons.IH [OF s'(2,3), of "case queued (se_client s) of [] \<Rightarrow> n | _ # _ \<Rightarrow> n'"] s'(1,4) Cons.prems(3) n show ?case
    by (cases "queued (se_client s)") simp_all
qed

lemma drain_fed:
  assumes "receiver_gone (se_client s)" and "spsc_inv kQueueCapacity (cl_queue (se_client s))"
    and "n \<le> length (queued (se_client s))" and "n \<le> length sched"
  shows "fst (drain env sched n s) = Ret ()"
  using assms
proof (induction n arbitrary: sched s)
  case 0
  then show ?case by (simp add: return_io_def)
next
  case (Suc n)
  then obtain k sched' m ms where c: "sched = k # sched'" "queued (se_client s) = m # ms"
    by (cases sched; cases "queued (se_client s)") simp_all
  from drain_look [OF Suc.prems(1,2), of env k sched' n] obtain s' where
    s': "drain env sched (Suc n) s = drain env sched' n s'"
      "receiver_gone (se_client s')" "spsc_inv kQueueCapacity (cl_queue (se_client s'))" "queued (se_client s') = ms"
    by (auto simp: c)
  from Suc.IH [OF s'(2,3), of sched'] s'(1,4) c Suc.prems(3,4) show ?case by simp
qed

section \<open>What the round trips measure\<close>

text \<open>The time between two consecutive clock readings.\<close>

definition lap :: "'w chat_env \<Rightarrow> nat \<Rightarrow> i64" where
  "lap env k = of_int (sint (ce_clock env (Suc k)) - sint (ce_clock env k))"

definition laps :: "'w chat_env \<Rightarrow> nat \<Rightarrow> nat \<Rightarrow> i64 list" where
  "laps env k n = map (\<lambda>j. lap env (k + 2 * j)) [0..<n]"

lemma laps_Suc: "laps env k (Suc n) = lap env k # laps env (k + 2) n"
  by (simp add: laps_def upt_conv_Cons map_Suc_upt [symmetric] comp_def del: upt_Suc)

lemma rtt_round_sample:
  assumes "rtt_round env msg st s = (Ret st', s')"
  shows "samples_ns st' = samples_ns st @ [lap env (se_now s)]" and "se_now s' = se_now s + 2" and "se_out s' = se_out s"
proof -
  from assms obtain s1 m s2 where
    r: "chat_send_text env msg (s\<lparr>se_now := Suc (se_now s)\<rparr>) = (Ret (), s1)" "chat_spin_receive env s1 = (Ret m, s2)"
      "record_since env (ce_clock env (se_now s)) st s2 = (Ret st', s')"
    by (auto simp: rtt_round_def bind_io_Ret_iff now_def)
  have s1: "se_now s1 = Suc (se_now s)" "se_out s1 = se_out s"
    using r(1) by (auto simp: chat_send_text_def split: prod.splits)
  have "se_now s2 = se_now s1 \<and> se_out s2 = se_out s1"
    using r(2) by (auto simp: chat_spin_receive_def Let_def elim: spin_outcome.elims)
  with s1 have s2: "se_now s2 = Suc (se_now s)" "se_out s2 = se_out s" by simp_all
  from r(3) have "record_tp (ce_clock env (se_now s2)) (ce_clock env (se_now s)) st = Inr st'"
    and s': "s' = s2\<lparr>se_now := Suc (se_now s2)\<rparr>"
    by (auto simp: record_since_def bind_io_Ret_iff now_def lift_def elim: of_result.elims)
  then show "samples_ns st' = samples_ns st @ [lap env (se_now s)]"
    by (auto simp: record_tp_def Let_def record_ns_def lap_def s2 split: if_splits)
  show "se_now s' = se_now s + 2" "se_out s' = se_out s" by (simp_all add: s' s2)
qed

lemma rtt_loop_samples:
  "rtt_loop env msg i n st s = (Ret st', s') \<Longrightarrow>
    samples_ns st' = samples_ns st @ laps env (se_now s) n \<and> se_now s' = se_now s + 2 * n \<and> se_out s' = se_out s"
proof (induction n arbitrary: i st s)
  case 0
  then show ?case by (simp add: return_io_def laps_def)
next
  case (Suc n)
  from Suc.prems obtain st1 s1 where
    r: "rtt_round env (msg i) st s = (Ret st1, s1)" "rtt_loop env msg (Suc i) n st1 s1 = (Ret st', s')"
    by (auto simp: bind_io_Ret_iff)
  from Suc.IH [OF r(2)] rtt_round_sample [OF r(1)] show ?case by (simp add: laps_Suc)
qed

text \<open>With a server that answers at once every loop ends.\<close>

lemma echo_round:
  assumes "echo_client (se_client s)" and "se_spins s = replicate (Suc k) [3]"
  shows "\<exists>st' s'. rtt_round echo_env msg st s = (Ret st', s') \<and> echo_client (se_client s') \<and> se_spins s' = replicate k [3]"
proof -
  from echo_spin [OF assms(1)] obtain m cl' where
    sp: "spin_receive [3] echo_api linux_os ''ws'' (se_client s) = Inr (Some (m, cl'))" "echo_client cl'" by blast
  have snd: "send_text echo_api msg cl = (Ret (), cl)" for msg cl
    by (simp add: send_text_def echo_api_def)
  show ?thesis
    using assms(2) sp
    by (simp add: rtt_round_def bind_io_def now_def chat_send_text_def chat_spin_receive_def snd echo_env_def
        record_since_def record_tp_def lift_def return_io_def del: spin_receive.simps)
qed

lemma echo_rtt_loop:
  "echo_client (se_client s) \<Longrightarrow> se_spins s = replicate n [3] \<Longrightarrow> \<exists>st' s'. rtt_loop echo_env msg i n st s = (Ret st', s')"
proof (induction n arbitrary: i st s)
  case (Suc n)
  from echo_round [OF Suc.prems, of "msg i" st] obtain st1 s1 where
    "rtt_round echo_env (msg i) st s = (Ret st1, s1)" "echo_client (se_client s1)" "se_spins s1 = replicate n [3]" by blast
  with Suc.IH [of s1 "Suc i" st1] show ?case by (simp add: bind_io_def)
qed (simp add: return_io_def)

section \<open>Properties\<close>

text \<open>C33: Whatever the command line, the server and the schedule of the receiver, the benchmark program
  exits with status 0 or 1, or waits forever for an answer: none of its four scenarios has
  undefined behaviour, and it is not ended by \<open>std::terminate\<close>.\<close>

theorem bench_ends_well:
  assumes "env_ok (me_chat env)" and "net_ok (ce_api (me_chat env))"
  shows "ends_well (fst (bench_main env argv))"
proof -
  obtain host port where t: "bench_target argv = (host, port)" by (cases "bench_target argv")
  let ?ce = "(me_chat env)\<lparr>ce_tag := ''ws''\<rparr>"
  have ce: "env_ok ?ce" using assms(1) by (simp add: env_ok_def)
  have "safe (\<lambda>s. fresh ?ce s \<and> unmeasured s)
      (bind_io (say (nl @ ''[*] Connecting to '' @ host @ '':'' @ port @ ''...'' @ nl)) (\<lambda>_.
       bind_io (client_connect env ''ws'') (\<lambda>_. bench_suite ?ce))) (\<lambda>_. client_ok ?ce) (client_ok ?ce)"
    by (rule safe_bind [OF _ safe_bind [OF safe_connect_chat_ok [OF assms(2)] safe_suite [OF ce]]])
      (simp add: safe_def say_def unmeasured_def)
  moreover have "fresh ?ce (bench_session env host port) \<and> unmeasured (bench_session env host port)"
    by (simp add: fresh_def unmeasured_def client_ok_def client_inv_def bench_session_def client_new_def is_running_def
        input_left_def spsc_new_inv spsc_static_assert_def kQueueCapacity_def stats_new_def client_config_default_def receiver_pin_def)
  ultimately show ?thesis using main_try_ends t by (simp add: bench_main_def Let_def)
qed

theorem bench_ends_well_witness:
  "ends_well (fst (bench_main down_env [''benchmark_client'', ''localhost'', ''8765'']))"
  by (rule bench_ends_well) (simp_all add: env_ok_def net_ok_def no_crash_def down_env_def down_api_def)

text \<open>The sequential benchmark measures what it says: when it returns, it has printed one report, on
  exactly as many samples as messages were asked for, and the sample of message \<open>i\<close> is the time
  between the clock reading before it was sent and the reading after its answer was received.\<close>

theorem sequential_rtt_samples:
  assumes "benchmark_sequential_rtt env num s = (Ret (), s')"
  shows "\<exists>r. print_report (ce_rnd env) ''Sequential RTT'' \<lparr>samples_ns = laps env (se_now s) (nat (sint num))\<rparr> = Inr r \<and>
    se_out s' = se_out s @
      [Say (header_text (''Sequential RTT Benchmark ('' @ int_to_string (sint num) @ '' msgs)'')), Show r]"
proof -
  let ?h = "Say (header_text (''Sequential RTT Benchmark ('' @ int_to_string (sint num) @ '' msgs)''))"
  from assms obtain st s2 where
    r: "rtt_loop env (\<lambda>i. ''seq_'' @ nat_to_string i) 0 (nat (sint num)) (stats_new (of_int (sint num)))
        (s\<lparr>se_out := se_out s @ [?h]\<rparr>) = (Ret st, s2)"
      "show_report env ''Sequential RTT'' st s2 = (Ret (), s')"
    by (auto simp: benchmark_sequential_rtt_def bind_io_Ret_iff say_def)
  from rtt_loop_samples [OF r(1)] have st: "samples_ns st = laps env (se_now s) (nat (sint num))"
    and o: "se_out s2 = se_out s @ [?h]" by (simp_all add: stats_new_def)
  have "st = \<lparr>samples_ns = laps env (se_now s) (nat (sint num))\<rparr>" using st by simp
  moreover from r(2) obtain rep where "print_report (ce_rnd env) ''Sequential RTT'' st = Inr rep"
    "s' = s2\<lparr>se_out := se_out s2 @ [Show rep]\<rparr>"
    by (auto simp: show_report_def bind_io_Ret_iff lift_def elim: of_result.elims)
  ultimately show ?thesis using o by auto
qed

theorem sequential_rtt_samples_witness:
  "\<exists>s' r. benchmark_sequential_rtt echo_env kBenchmarkMessages echo_session = (Ret (), s') \<and>
    print_report fl ''Sequential RTT'' \<lparr>samples_ns = laps echo_env 0 100\<rparr> = Inr r \<and> last (se_out s') = Show r"
proof -
  have n: "nat (sint kBenchmarkMessages) = 100" by (simp add: kBenchmarkMessages_def)
  have e: "echo_client (se_client echo_session)" "se_spins echo_session = replicate 100 [3]" "se_now echo_session = 0"
    "ce_rnd echo_env = fl"
    using echo_session_ready by (simp_all add: echo_ready_def echo_session_def echo_env_def)
  define h where "h = header_text (''Sequential RTT Benchmark ('' @ int_to_string (sint kBenchmarkMessages) @ '' msgs)'')"
  define s1 where "s1 = echo_session\<lparr>se_out := se_out echo_session @ [Say h]\<rparr>"
  have "echo_client (se_client s1)" "se_spins s1 = replicate 100 [3]" using e(1,2) by (simp_all add: s1_def)
  from echo_rtt_loop [OF this] obtain st s2 where
    l: "rtt_loop echo_env (\<lambda>i. ''seq_'' @ nat_to_string i) 0 100 (stats_new (of_int (sint kBenchmarkMessages))) s1 = (Ret st, s2)"
    by blast
  have "length (samples_ns st) \<le> 2 ^ 53" using rtt_loop_samples [OF l] by (simp add: laps_def stats_new_def)
  from print_report_defined [OF this] obtain r where "print_report fl ''Sequential RTT'' st = Inr r" by blast
  with l have "\<exists>s'. benchmark_sequential_rtt echo_env kBenchmarkMessages echo_session = (Ret (), s')"
    unfolding benchmark_sequential_rtt_def n h_def [symmetric]
    by (simp add: bind_io_def say_def show_report_def lift_def e(4) flip: s1_def)
  then obtain s' where s': "benchmark_sequential_rtt echo_env kBenchmarkMessages echo_session = (Ret (), s')" ..
  from sequential_rtt_samples [OF s'] s' show ?thesis unfolding n e(3,4) by auto
qed

text \<open>The table of message sizes. With IEEE rounding every row of up to \<open>2 ^ 53\<close> samples is computed
  with its percentile taken at an index in range, and minimum, p99 and maximum are in order. In
  exact arithmetic the mean lies between minimum and maximum, and the p99 of the table, which
  truncates its rank, is at most the p99 that \<open>print_report\<close> interpolates from the same samples.\<close>

theorem size_row_bounds:
  assumes "samples_ns st \<noteq> []" and "length (samples_ns st) \<le> 2 ^ 53"
  shows "(\<exists>mn mean p99 mx. size_row fl st = Inr [mn, mean, p99, mx] \<and> mn \<le> p99 \<and> p99 \<le> mx) \<and>
    (\<exists>mn mean p99 mx v. size_row (\<lambda>x. x) st = Inr [mn, mean, p99, mx] \<and> mn \<le> mean \<and> mean \<le> mx \<and>
      percentile (\<lambda>x. x) (sort_key sint (samples_ns st)) 99 = Inr v \<and> p99 \<le> v / 1000)"
proof (intro conjI)
  define srt where "srt = sort_key sint (samples_ns st)"
  have len: "length srt = length (samples_ns st)" by (simp add: srt_def)
  with assms(1) have ne: "srt \<noteq> []" by auto
  have int: "sorted (map sint srt)" using sorted_sort_key [of sint "samples_ns st"] by (simp add: srt_def)
  have at: "sint (hd srt) \<le> sint (srt ! k) \<and> sint (srt ! k) \<le> sint (last srt)" if "k < length srt" for k
    using that sorted_nth_mono [OF int, of 0 k] sorted_nth_mono [OF int, of k "length srt - 1"] ne
    by (simp add: hd_conv_nth last_conv_nth)
  have mono: "fl (dbl fl a / 1000) \<le> fl (dbl fl b / 1000)" if "sint a \<le> sint b" for a b
    unfolding dbl_def using that by (intro fl_mono divide_right_mono) (simp_all del: of_int_sint)
  from ieee.size_row_value [OF assms] obtain k where k: "k < length srt" and
    r: "size_row fl st = Inr [fl (dbl fl (hd srt) / 1000), fl (fl (sum_dbl fl srt / of_nat (length srt)) / 1000),
      fl (dbl fl (srt ! k) / 1000), fl (dbl fl (last srt) / 1000)]"
    unfolding srt_def [symmetric] len [symmetric] by blast
  show "\<exists>mn mean p99 mx. size_row fl st = Inr [mn, mean, p99, mx] \<and> mn \<le> p99 \<and> p99 \<le> mx"
    using r mono at [OF k] by blast
  let ?ys = "map (of_int \<circ> sint) srt :: real list" and ?r = "99 / 100 * of_nat (length srt - 1) :: real"
  have ys: "sorted ?ys" "?ys \<noteq> []" using int ne by (simp_all add: sorted_wrt_map comp_def del: of_int_sint)
  from exact.size_row_value [OF assms] obtain k where k: "k < length srt" "of_nat k \<le> ?r" and
    r: "size_row (\<lambda>x. x) st = Inr [dbl (\<lambda>x. x) (hd srt) / 1000, sum_dbl (\<lambda>x. x) srt / of_nat (length srt) / 1000,
      dbl (\<lambda>x. x) (srt ! k) / 1000, dbl (\<lambda>x. x) (last srt) / 1000]"
    unfolding srt_def [symmetric] len [symmetric] by blast
  have pc: "percentile (\<lambda>x. x) srt 99 = Inr (at_rank ?ys ?r)"
    using percentile_exact [OF ne _ _ assms(2) [folded len], of 99] by simp
  have "?ys ! k \<le> at_rank ?ys ?r" by (rule at_rank_bracket(1) [OF ys(1)]) (use k in simp_all)
  then have p99: "dbl (\<lambda>x. x) (srt ! k) \<le> at_rank ?ys ?r" using k(1) by (simp add: dbl_def)
  have mean: "dbl (\<lambda>x. x) (hd srt) \<le> sum_dbl (\<lambda>x. x) srt / of_nat (length srt)"
    "sum_dbl (\<lambda>x. x) srt / of_nat (length srt) \<le> dbl (\<lambda>x. x) (last srt)"
    using sum_list_between [OF ys] ne by (simp_all add: sum_dbl_exact dbl_def hd_map last_map field_simps)
  have th: "(0 :: real) \<le> 1000" by simp
  show "\<exists>mn mean p99 mx v. size_row (\<lambda>x. x) st = Inr [mn, mean, p99, mx] \<and> mn \<le> mean \<and> mean \<le> mx \<and>
      percentile (\<lambda>x. x) (sort_key sint (samples_ns st)) 99 = Inr v \<and> p99 \<le> v / 1000"
    unfolding srt_def [symmetric] r pc
    using mean [THEN divide_right_mono [OF _ th]] p99 [THEN divide_right_mono [OF _ th]] by blast
qed

theorem size_row_bounds_witness:
  "\<exists>mn mean p99 mx. size_row fl \<lparr>samples_ns = [7000, 2000, 4000]\<rparr> = Inr [mn, mean, p99, mx] \<and> mn \<le> p99 \<and> p99 \<le> mx"
  using size_row_bounds [of "\<lparr>samples_ns = [7000, 2000, 4000]\<rparr>"] by simp

text \<open>C34: The throughput loop looks only at the queue. When the receiver thread has ended, because the
  server has closed the connection or an error occurred, the loop ends exactly when the queue
  still holds as many messages as it waits for; with fewer it polls forever, under every schedule.\<close>

theorem drain_ends_iff:
  assumes "receiver_gone (se_client s)" and "spsc_inv kQueueCapacity (cl_queue (se_client s))" and "n \<le> length sched"
  shows "fst (drain env sched n s) =
    (if n \<le> length (queued (se_client s)) then Ret () else Crash (Hangs ''try_receive''))"
  using drain_starves [OF assms(1,2)] drain_fed [OF assms(1,2) _ assms(3)] by auto

theorem drain_ends_iff_witness:
  "fst (drain demo_chat_env [0, 4, 1] 1
      (demo_session\<lparr>se_client := (demo_client [])\<lparr>cl_receiver := Running R_Done\<rparr>\<rparr>)) = Crash (Hangs ''try_receive'')"
proof -
  let ?s = "demo_session\<lparr>se_client := (demo_client [])\<lparr>cl_receiver := Running R_Done\<rparr>\<rparr>"
  have "spsc_inv kQueueCapacity (cl_queue (se_client ?s))"
    using demo_inv [of linux_os "''ws''" "[]"] by (simp add: client_inv_def)
  from drain_ends_iff [OF _ this, of 1 "[0, 4, 1]" demo_chat_env] show ?thesis
    by (simp add: receiver_gone_def queued_demo)
qed

end
