(* ===== verification/Box_Layout.thy ===== *)
theory Box_Layout
  imports Benchmark
begin

text \<open>
  The widths, in columns of a terminal, of the other boxes the programs draw: the system information, the
  banner of the benchmark and its two tables. A row that is wider or narrower than the frame has its
  right border out of line.
\<close>

section \<open>Rows of literals\<close>

lemma columns_box_char: "128 \<le> n \<Longrightarrow> n < 192 \<Longrightarrow> columns (box_char n) = 1"
  by (simp add: box_char_def columns_Cons continues_def take_bit_eq_mod)

lemma columns_bar: "columns box_bar = 46"
  by (simp add: box_bar_def columns_concat_replicate columns_box_char)

lemma length_to_str: "length (to_str n) \<le> 20"
  using samples_fit [of n] by (simp add: to_str_def)

lemma to_str_ascii [simp]: "ascii (to_str n)"
  by (simp add: to_str_def)

lemma columns_pad [simp]: "columns (pad n) = unat n"
  by (simp add: pad_def)

lemma unat_sz: "length s < 2 ^ 64 \<Longrightarrow> unat (sz s) = length s"
  by (simp add: sz_def unat_of_nat take_bit_nat_eq_self)

text \<open>A number and the spaces after it fill the field it was given.\<close>

lemma padded_number:
  assumes "ascii s" and "length s \<le> w" and "w < 2 ^ 64"
  shows "columns s + unat (of_nat w - sz s) = w"
proof -
  have "unat (sz s) = length s" "unat (of_nat w :: size_t) = w" using assms by (simp_all add: unat_sz unat_of_nat take_bit_nat_eq_self)
  moreover from this assms(2) have "sz s \<le> of_nat w" by (simp add: word_le_nat_alt)
  ultimately have "unat (of_nat w - sz s) = w - length s" by (simp add: unat_sub)
  with assms show ?thesis by (simp add: columns_ascii)
qed

section \<open>The system information\<close>

text \<open>Between its two bars the frame is 46 columns wide. The title is one column short, and so is the row
  of the pool; the other rows fit.\<close>

theorem system_box_columns:
  "columns box_bar = 46 \<and> columns title_row = 45 \<and> columns (cpu_row os) = 46 \<and> columns queue_row = 46 \<and>
   columns buffer_row = 46 \<and> columns pool_row = 45"
proof -
  have cpu: "columns (cpu_row os) = 46"
  proof -
    let ?n = "nat_to_string (unat (get_cpu_count os))"
    have "unat (get_cpu_count os) < 2 ^ 32" using unsigned_less [of "get_cpu_count os"] by simp
    then have "length ?n \<le> 28" by (intro length_nat_to_string) simp_all
    with padded_number [of ?n 28] show ?thesis
      by (simp add: cpu_row_def Let_def columns_Cons continues_def)
  qed
  have queue: "columns queue_row = 46"
    using padded_number [of "to_str kQueueCapacity" 28] length_to_str [of kQueueCapacity]
    by (simp add: queue_row_def Let_def columns_Cons continues_def)
  have buffer: "columns buffer_row = 46"
    using padded_number [of "to_str (kReadBufferSize div 1024)" 25] length_to_str [of "kReadBufferSize div 1024"]
    by (simp add: buffer_row_def Let_def columns_Cons continues_def)
  have "length (to_str kPoolNumBlocks) = 3" "length (to_str kPoolBlockSize) = 4"
    by (simp_all add: to_str_def kPoolNumBlocks_def kPoolBlockSize_def nat_to_string.simps)
  then have pool: "columns pool_row = 45"
    by (simp add: pool_row_def Let_def columns_Cons continues_def columns_ascii sz_def)
  have "columns title_row = 45" by (simp add: title_row_def columns_Cons continues_def)
  with cpu queue buffer pool show ?thesis by (simp add: columns_bar)
qed

section \<open>The tables of the benchmark\<close>

text \<open>In the table of the throughput the title and the row of the throughput are one column too wide.\<close>

theorem throughput_columns:
  assumes "throughput_figures rnd num us = (ms, per_sec, avg)" and "\<bar>ms\<bar> \<le> 10 ^ 19" and "\<bar>avg\<bar> \<le> 10 ^ 19"
    and "\<forall>x. per_sec = Some x \<longrightarrow> \<bar>x\<bar> \<le> 10 ^ 20" and "0 \<le> num" and "num < 10 ^ 28"
  shows "map columns (throughput_lines rnd num us) = [0, 47, 48, 47, 47, 47, 48, 47, 47]"
proof -
  have fits: "columns (setw_left w s) = w" if "ascii s" "length s \<le> w" for w s
    using that by (rule columns_setw_ascii)
  have "columns (setw_left 24 (fixed_str 2 x)) = 24" if "\<bar>x\<bar> \<le> 10 ^ 19" for x
    using length_fixed_str [OF that, of 2] by (intro fits) simp_all
  moreover have "columns (setw_left 28 (int_to_string num)) = 28"
    using length_nat_to_string [of 28 "nat num"] assms(5,6)
    by (intro fits) (simp_all add: int_to_string_def nat_less_iff)
  moreover have "columns (setw_left 22 (case per_sec of None \<Rightarrow> ''inf'' | Some x \<Rightarrow> fixed_str 0 x)) = 22"
    using assms(4) length_fixed_str [of _ 20 0] by (intro fits) (auto split: option.split)
  ultimately show ?thesis
    using assms(1-3) by (simp add: throughput_lines_def columns_rule columns_Cons continues_def)
qed

theorem throughput_columns_witness:
  "map columns (throughput_lines (\<lambda>x. x) 100 2000) = [0, 47, 48, 47, 47, 47, 48, 47, 47]"
  by (rule throughput_columns [of _ _ _ 2 "Some 50000" 20]) (simp_all add: throughput_figures_def)

text \<open>The table of message sizes is in line.\<close>

theorem size_table_columns:
  assumes "len \<in> set message_sizes" and "length row = 4" and "\<forall>x \<in> set row. \<bar>x\<bar> \<le> 10 ^ 4"
  shows "columns (size_line len row) = 55 \<and> columns sizes_head = 55 \<and>
    columns (sizes_rule 0x8C 0xAC 0x90) = 55 \<and> columns (sizes_rule 0x9C 0xBC 0xA4) = 55 \<and>
    columns (sizes_rule 0x94 0xB4 0x98) = 55"
proof -
  have cell: "columns (setw_right 8 (fixed_str 1 x)) = 8" if "x \<in> set row" for x
    using length_fixed_str [of x 4 1] assms(3) that by (intro columns_setw_ascii) simp_all
  have "columns (concat (map (\<lambda>x. '' '' @ vbar @ '' '' @ setw_right 8 (fixed_str 1 x)) xs)) = 11 * length xs"
    if "set xs \<subseteq> set row" for xs
    using that by (induction xs) (auto simp: cell [simplified] columns_Cons continues_def)
  from this [OF order_refl] have "columns (concat (map (\<lambda>x. '' '' @ vbar @ '' '' @ setw_right 8 (fixed_str 1 x)) row)) = 44"
    using assms(2) by simp
  moreover have "columns (setw_right 5 (to_str len)) = 5"
  proof (rule columns_setw_ascii)
    have "unat len < 10 ^ 5" using assms(1) by (auto simp: message_sizes_def)
    then show "length (to_str len) \<le> 5" unfolding to_str_def by (intro length_nat_to_string) simp_all
  qed simp
  ultimately show ?thesis
    by (simp add: size_line_def sizes_head_def sizes_rule_def columns_concat_replicate columns_line_char columns_Cons
        continues_def)
qed

theorem size_table_columns_witness:
  "columns (size_line 1024 [1, 2, 3, 4]) = 55"
  using size_table_columns [of 1024 "[1, 2, 3, 4]"] by (simp add: message_sizes_def)

end
