(* ===== verification/Unit_Tests.thy ===== *)
theory Unit_Tests
  imports Spsc_Concurrent Pool_Ptr Report_Layout
begin

text \<open>
  The unit tests of the queue and of the statistics under \<open>tests/\<close>, run on the model: every test is the
  sequence of operations and assertions of the source, and the theorems say that the test programs
  find nothing wrong. The test with two threads is proved for every interleaving.
\<close>

section \<open>The test harness\<close>

text \<open>A failing assertion throws; what it would print is not looked at. A test that throws counts as failed, one that
  returns as passed, and the exit status is 1 when a test failed.\<close>

definition ASSERT_TRUE :: "bool \<Rightarrow> ('s, unit) io" where
  "ASSERT_TRUE b s = (if b then Ret () else Throw ''assertion'', s)"

definition run_op :: "('s \<Rightarrow> ('a \<times> 's) result) \<Rightarrow> ('s, 'a) io" where
  "run_op f s = (case f s of Inl e \<Rightarrow> (Crash e, s) | Inr (a, s') \<Rightarrow> (Ret a, s'))"

definition update_op :: "('s \<Rightarrow> 's) \<Rightarrow> ('s, unit) io" where
  "update_op f s = (Ret (), f s)"

definition look :: "('s \<Rightarrow> 'a) \<Rightarrow> ('s, 'a) io" where
  "look f s = (Ret (f s), s)"

fun for_loop :: "nat \<Rightarrow> nat \<Rightarrow> (nat \<Rightarrow> ('s, unit) io) \<Rightarrow> ('s, unit) io" where
  "for_loop i 0 body = return_io ()"
| "for_loop i (Suc n) body = bind_io (body i) (\<lambda>_. for_loop (Suc i) n body)"

fun tally :: "unit outcome list \<Rightarrow> nat \<times> nat \<Rightarrow> (nat \<times> nat) result" where
  "tally [] (passed, failed) = Inr (passed, failed)"
| "tally (Ret _ # ts) (passed, failed) = tally ts (Suc passed, failed)"
| "tally (Throw _ # ts) (passed, failed) = tally ts (passed, Suc failed)"
| "tally (Crash e # ts) (passed, failed) = Inl e"

definition test_main :: "unit outcome list \<Rightarrow> i32 result" where
  "test_main tests = bind_result (tally tests (0, 0)) (\<lambda>(passed, failed). Inr (if 0 < failed then 1 else 0))"

section \<open>The ring buffer\<close>

definition push :: "size_t \<Rightarrow> 'a \<Rightarrow> ('a spsc, bool) io" where
  "push C x = run_op (try_push C x)"

definition pop :: "size_t \<Rightarrow> ('a \<Rightarrow> 'a) \<Rightarrow> ('a spsc, 'a option) io" where
  "pop C moved = run_op (try_pop C moved)"

text \<open>The two assertions after a pop: there is a value, and it is the expected one.\<close>

definition expect_pop :: "size_t \<Rightarrow> ('a \<Rightarrow> 'a) \<Rightarrow> 'a \<Rightarrow> ('a spsc, unit) io" where
  "expect_pop C moved x =
     bind_io (pop C moved) (\<lambda>result.
     bind_io (ASSERT_TRUE (result \<noteq> None)) (\<lambda>_.
     ASSERT_TRUE (result = Some x)))"

definition expect_push :: "size_t \<Rightarrow> 'a \<Rightarrow> ('a spsc, unit) io" where
  "expect_push C x = bind_io (push C x) ASSERT_TRUE"

definition expect_empty :: "('a spsc, unit) io" where
  "expect_empty = bind_io (look spsc_empty) ASSERT_TRUE"

definition on_queue :: "size_t \<Rightarrow> 'a \<Rightarrow> ('a spsc, unit) io \<Rightarrow> unit outcome" where
  "on_queue C dflt test = fst (test (spsc_new C dflt))"

definition int_move :: "i32 \<Rightarrow> i32" where
  "int_move x = x"

definition test_empty_queue_returns_nullopt :: "unit outcome" where
  "test_empty_queue_returns_nullopt = on_queue 4 0
     (bind_io (pop 4 int_move) (\<lambda>result.
      bind_io (ASSERT_TRUE (result = None)) (\<lambda>_. expect_empty)))"

definition test_push_pop_single_element :: "unit outcome" where
  "test_push_pop_single_element = on_queue 4 0
     (bind_io (expect_push 4 42) (\<lambda>_.
      bind_io (expect_pop 4 int_move 42) (\<lambda>_. expect_empty)))"

definition test_push_pop_multiple_elements :: "unit outcome" where
  "test_push_pop_multiple_elements = on_queue 8 0
     (bind_io (for_loop 0 7 (\<lambda>i. expect_push 8 (of_nat i))) (\<lambda>_.
      bind_io (for_loop 0 7 (\<lambda>i. expect_pop 8 int_move (of_nat i))) (\<lambda>_. expect_empty)))"

definition test_queue_full_returns_false :: "unit outcome" where
  "test_queue_full_returns_false = on_queue 4 (0 :: i32)
     (bind_io (expect_push 4 1) (\<lambda>_. bind_io (expect_push 4 2) (\<lambda>_. bind_io (expect_push 4 3) (\<lambda>_.
      bind_io (push 4 4) (\<lambda>b. ASSERT_TRUE (\<not> b))))))"

definition test_fifo_order_preserved :: "unit outcome" where
  "test_fifo_order_preserved = on_queue 16 0
     (bind_io (for_loop 0 15 (\<lambda>i. bind_io (push 16 (of_nat i * 10)) (\<lambda>_. return_io ()))) (\<lambda>_.
      for_loop 0 15 (\<lambda>i. expect_pop 16 int_move (of_nat i * 10))))"

definition test_wrap_around_produces_correct_order :: "unit outcome" where
  "test_wrap_around_produces_correct_order = on_queue 4 0
     (for_loop 0 10 (\<lambda>cycle.
        bind_io (for_loop 0 3 (\<lambda>i. expect_push 4 (of_nat (cycle * 100 + i)))) (\<lambda>_.
        for_loop 0 3 (\<lambda>i. expect_pop 4 int_move (of_nat (cycle * 100 + i))))))"

definition test_capacity_returns_correct_value :: "unit outcome" where
  "test_capacity_returns_correct_value = on_queue 64 (0 :: i32)
     (bind_io (look (spsc_capacity 64)) (\<lambda>c. ASSERT_TRUE (c = 64)))"

definition expect_size :: "size_t \<Rightarrow> (i32 spsc, unit) io" where
  "expect_size n = bind_io (look (size_approx 8)) (\<lambda>k. ASSERT_TRUE (k = n))"

definition test_size_approx_tracks_correctly :: "unit outcome" where
  "test_size_approx_tracks_correctly = on_queue 8 0
     (bind_io (expect_size 0) (\<lambda>_. bind_io (push 8 1) (\<lambda>_.
      bind_io (expect_size 1) (\<lambda>_. bind_io (push 8 2) (\<lambda>_.
      bind_io (expect_size 2) (\<lambda>_. bind_io (pop 8 int_move) (\<lambda>_. expect_size 1)))))))"

text \<open>What a move leaves in a string is up to the library.\<close>

definition test_move_semantics_work :: "(string \<Rightarrow> string) \<Rightarrow> unit outcome" where
  "test_move_semantics_work moved = on_queue 4 []
     (bind_io (expect_push 4 ''hello world'') (\<lambda>_. expect_pop 4 moved ''hello world''))"

lemmas harness_defs = on_queue_def ASSERT_TRUE_def run_op_def update_op_def look_def push_def pop_def expect_pop_def expect_push_def
  expect_empty_def int_move_def bind_io_def return_io_def

text \<open>The test with two threads. The producer offers 0, 1, 2 and so on, each until it is accepted; apart from that
  every interleaving of the accesses is allowed.\<close>

definition kNumMessages :: nat where
  "kNumMessages = 100000"

definition offers_next :: "i32 ra_state \<Rightarrow> i32 ra_state \<Rightarrow> bool" where
  "offers_next s s' \<longleftrightarrow> (\<forall>x t. ppc s = PIdle \<and> ppc s' = PLoaded x t \<longrightarrow>
     x = of_nat (length (pushed s)) \<and> length (pushed s) < kNumMessages)"

inductive test_concurrent_producer_consumer :: "i32 ra_state \<Rightarrow> bool" where
  test_begin: "test_concurrent_producer_consumer (ra_init 1024 0)"
| test_step: "test_concurrent_producer_consumer s \<Longrightarrow> ra_step 1024 int_move s s' \<Longrightarrow> offers_next s s' \<Longrightarrow>
    test_concurrent_producer_consumer s'"

text \<open>The assertions of the consumer on the values it has received.\<close>

definition received_ok :: "i32 list \<Rightarrow> bool" where
  "received_ok vals \<longleftrightarrow> (\<forall>expected < length vals. vals ! expected = of_nat expected) \<and>
     (length vals = kNumMessages \<longrightarrow>
       sum_list (map sint vals) = (int kNumMessages - 1) * int kNumMessages div 2)"

section \<open>The queue tests pass\<close>

lemma move_test: "test_move_semantics_work moved = Ret ()"
  by (simp add: test_move_semantics_work_def harness_defs try_push_def try_pop_def spsc_new_def kMask_def arr_get_def
      arr_set_def Let_def)

lemma queue_tests_evaluate:
  "test_empty_queue_returns_nullopt = Ret ()" "test_push_pop_single_element = Ret ()"
  "test_push_pop_multiple_elements = Ret ()" "test_queue_full_returns_false = Ret ()"
  "test_fifo_order_preserved = Ret ()" "test_wrap_around_produces_correct_order = Ret ()"
  "test_capacity_returns_correct_value = Ret ()" "test_size_approx_tracks_correctly = Ret ()"
  by code_simp+

definition queue_tests :: "(string \<Rightarrow> string) \<Rightarrow> unit outcome list" where
  "queue_tests moved =
     [test_empty_queue_returns_nullopt, test_push_pop_single_element, test_push_pop_multiple_elements,
      test_queue_full_returns_false, test_fifo_order_preserved, test_wrap_around_produces_correct_order,
      test_capacity_returns_correct_value, test_size_approx_tracks_correctly, test_move_semantics_work moved]"

text \<open>The program of the queue tests exits with status 0, whatever a move leaves behind in a string.\<close>

theorem queue_tests_pass: "test_main (queue_tests moved) = Inr 0"
  by (simp add: queue_tests_def queue_tests_evaluate move_test test_main_def)

lemma test_reachable: "test_concurrent_producer_consumer s \<Longrightarrow> ra_reachable 1024 0 int_move s"
  by (induction rule: test_concurrent_producer_consumer.induct) (auto intro: ra_reachable.intros)

text \<open>What the producer is about to publish.\<close>

fun in_hand :: "'a producer_pc \<Rightarrow> 'a option" where
  "in_hand PIdle = None"
| "in_hand (PLoaded x t) = Some x"
| "in_hand (PChecked x t n) = Some x"
| "in_hand (PWritten x t n) = Some x"

definition counting :: "i32 ra_state \<Rightarrow> bool" where
  "counting s \<longleftrightarrow> pushed s = map of_nat [0..<length (pushed s)] \<and> length (pushed s) \<le> kNumMessages \<and>
     (\<forall>x. in_hand (ppc s) = Some x \<longrightarrow> x = of_nat (length (pushed s)) \<and> length (pushed s) < kNumMessages)"

lemma counting_step:
  assumes "ra_step 1024 int_move s s'" and "offers_next s s'" and "counting s"
  shows "counting s'"
  using assms by (cases rule: ra_step.cases) (auto simp: counting_def offers_next_def)

lemma counting_begin: "counting (ra_init 1024 0)"
  by (simp add: counting_def ra_init_def)

lemma test_counting: "test_concurrent_producer_consumer s \<Longrightarrow> counting s"
  by (induction rule: test_concurrent_producer_consumer.induct) (auto intro: counting_step counting_begin)

lemma sum_upto: "2 * (\<Sum>i\<leftarrow>[0..<n]. int i) = (int n - 1) * int n"
  by (induction n) (auto simp: algebra_simps)

text \<open>In every interleaving the consumer's assertions hold: it receives 0, 1, 2 and so on, and when it has received
  all messages their sum is right.\<close>

theorem concurrent_test_passes:
  assumes "test_concurrent_producer_consumer s"
  shows "received_ok (popped s)"
proof -
  have "spsc_static_assert 1024" by (simp add: spsc_static_assert_def)
  from ra_reachable_inv [OF test_reachable [OF assms] this]
  have t: "popped s = take (length (popped s)) (pushed s)" by (simp add: ra_inv_def ra_slots_def)
  have len: "length (popped s) \<le> length (pushed s)" using arg_cong [OF t, of length] by simp
  from test_counting [OF assms] have p: "pushed s = map of_nat [0..<length (pushed s)]"
    and le: "length (pushed s) \<le> kNumMessages" by (simp_all add: counting_def)
  have "take (length (popped s)) (pushed s) = map of_nat [0..<length (popped s)]"
    using len by (subst p) (simp add: take_map take_upt)
  with t have q: "popped s = map of_nat [0..<length (popped s)]" by simp
  then have vals: "popped s ! i = of_nat i" if "i < length (popped s)" for i
    using that by (metis add_0 nth_map nth_upt length_upt diff_zero)
  have "map sint (popped s) = map int [0..<length (popped s)]"
  proof (rule nth_equalityI)
    fix i assume "i < length (map sint (popped s))"
    then have i: "i < length (popped s)" by simp
    with len le have "i < 2 ^ 31" by (simp add: kNumMessages_def)
    with i show "map sint (popped s) ! i = map int [0..<length (popped s)] ! i"
      by (simp add: vals sint_of_nat_i32 del: of_int_sint)
  qed simp
  then have "sum_list (map sint (popped s)) = (int (length (popped s)) - 1) * int (length (popped s)) div 2"
    using sum_upto [of "length (popped s)"] by presburger
  then show ?thesis using vals by (simp add: received_ok_def del: of_int_sint)
qed

theorem concurrent_test_passes_witness:
  "received_ok (popped (ra_init 1024 0))"
  by (rule concurrent_test_passes [OF test_begin])

section \<open>The statistics\<close>

definition stats_size :: "size_t \<Rightarrow> (latency_stats, unit) io" where
  "stats_size n = bind_io (look stats_count) (\<lambda>c. ASSERT_TRUE (c = n))"

definition sample_is :: "nat \<Rightarrow> i64 \<Rightarrow> (latency_stats, unit) io" where
  "sample_is i ns = bind_io (look stats_samples) (\<lambda>xs. ASSERT_TRUE (xs ! i = ns))"

definition record_sample :: "i64 \<Rightarrow> (latency_stats, unit) io" where
  "record_sample ns = update_op (record_ns ns)"

definition report :: "string \<Rightarrow> (latency_stats, unit) io" where
  "report label = run_op (\<lambda>st. bind_result (print_report fl label st) (\<lambda>r. Inr ((), st)))"

definition on_stats :: "size_t \<Rightarrow> (latency_stats, unit) io \<Rightarrow> unit outcome" where
  "on_stats n test = fst (test (stats_new n))"

definition test_initial_count_is_zero :: "unit outcome" where
  "test_initial_count_is_zero = on_stats 10000 (stats_size 0)"

definition test_record_ns_increments_count :: "unit outcome" where
  "test_record_ns_increments_count = on_stats 10000
     (bind_io (record_sample 1000) (\<lambda>_. bind_io (record_sample 2000) (\<lambda>_. bind_io (record_sample 3000) (\<lambda>_. stats_size 3))))"

text \<open>The two readings of the clock are arguments.\<close>

definition test_record_with_timepoint :: "i64 \<Rightarrow> i64 \<Rightarrow> unit outcome" where
  "test_record_with_timepoint start end_tp = on_stats 10000
     (bind_io (run_op (\<lambda>st. bind_result (record_tp end_tp start st) (\<lambda>st'. Inr ((), st')))) (\<lambda>_.
      bind_io (stats_size 1) (\<lambda>_. bind_io (look stats_samples) (\<lambda>xs. ASSERT_TRUE (0 < sint (xs ! 0))))))"

definition test_reset_clears_samples :: "unit outcome" where
  "test_reset_clears_samples = on_stats 10000
     (bind_io (record_sample 1000) (\<lambda>_. bind_io (record_sample 2000) (\<lambda>_. bind_io (stats_size 2) (\<lambda>_.
      bind_io (update_op stats_reset) (\<lambda>_. stats_size 0)))))"

definition test_samples_preserve_order :: "unit outcome" where
  "test_samples_preserve_order = on_stats 10000
     (bind_io (record_sample 100) (\<lambda>_. bind_io (record_sample 200) (\<lambda>_. bind_io (record_sample 300) (\<lambda>_.
      bind_io (sample_is 0 100) (\<lambda>_. bind_io (sample_is 1 200) (\<lambda>_. sample_is 2 300))))))"

definition test_report_does_not_crash_when_empty :: "unit outcome" where
  "test_report_does_not_crash_when_empty = on_stats 10000 (report ''Empty Test'')"

definition test_report_single_sample :: "unit outcome" where
  "test_report_single_sample = on_stats 10000
     (bind_io (record_sample 500000) (\<lambda>_. bind_io (report ''Single Sample'') (\<lambda>_. stats_size 1)))"

definition test_known_distribution :: "unit outcome" where
  "test_known_distribution = on_stats 100
     (bind_io (for_loop 1 100 (\<lambda>i. record_sample (of_nat (i * 1000)))) (\<lambda>_.
      bind_io (stats_size 100) (\<lambda>_. bind_io (sample_is 0 1000) (\<lambda>_. sample_is 99 100000))))"

definition test_pre_allocation_works :: "unit outcome" where
  "test_pre_allocation_works = on_stats 50000
     (bind_io (for_loop 0 50000 (\<lambda>i. record_sample (of_nat i))) (\<lambda>_. stats_size 50000))"

definition test_now_is_monotonic :: "i64 \<Rightarrow> i64 \<Rightarrow> unit outcome" where
  "test_now_is_monotonic t1 t2 = fst (ASSERT_TRUE (sint t1 \<le> sint t2) ())"

definition stats_tests :: "i64 \<Rightarrow> i64 \<Rightarrow> i64 \<Rightarrow> i64 \<Rightarrow> unit outcome list" where
  "stats_tests start end_tp t1 t2 =
     [test_initial_count_is_zero, test_record_ns_increments_count, test_record_with_timepoint start end_tp,
      test_reset_clears_samples, test_samples_preserve_order, test_report_does_not_crash_when_empty,
      test_report_single_sample, test_known_distribution, test_pre_allocation_works, test_now_is_monotonic t1 t2]"

section \<open>The statistics tests pass\<close>

lemma record_loop:
  "for_loop i n (\<lambda>i. record_sample (f i)) st = (Ret (), \<lparr>samples_ns = samples_ns st @ map f [i..<i + n]\<rparr>)"
proof (induction n arbitrary: i st)
  case (Suc n)
  have "[i..<i + Suc n] = i # [Suc i..<Suc i + n]" by (simp add: upt_conv_Cons)
  with Suc show ?case by (simp add: bind_io_def record_sample_def update_op_def record_ns_def)
qed (simp add: return_io_def)

lemma report_returns:
  assumes "length (samples_ns st) \<le> 2 ^ 53"
  shows "report label st = (Ret (), st)"
  using print_report_defined [OF assms, of label] by (auto simp: report_def run_op_def)

lemmas stats_defs = on_stats_def stats_size_def sample_is_def record_sample_def ASSERT_TRUE_def update_op_def look_def
  bind_io_def return_io_def stats_new_def record_ns_def stats_count_def stats_samples_def stats_reset_def

lemma stats_tests_evaluate:
  "test_initial_count_is_zero = Ret ()" "test_record_ns_increments_count = Ret ()" "test_reset_clears_samples = Ret ()"
  "test_samples_preserve_order = Ret ()" "test_report_does_not_crash_when_empty = Ret ()"
  "test_report_single_sample = Ret ()"
  by (simp_all add: test_initial_count_is_zero_def test_record_ns_increments_count_def test_reset_clears_samples_def
      test_samples_preserve_order_def test_report_does_not_crash_when_empty_def test_report_single_sample_def stats_defs
      report_returns)

lemma stats_loops_evaluate: "test_known_distribution = Ret ()" "test_pre_allocation_works = Ret ()"
  by (simp_all add: test_known_distribution_def test_pre_allocation_works_def on_stats_def bind_io_def record_loop
      stats_size_def sample_is_def ASSERT_TRUE_def look_def stats_count_def stats_samples_def stats_new_def nth_append
      del: for_loop.simps upt_Suc)

lemma timepoint_test:
  assumes "0 \<le> sint start" and "sint start < sint end_tp"
  shows "test_record_with_timepoint start end_tp = Ret ()"
proof -
  let ?d = "sint end_tp - sint start"
  have d: "0 < ?d" "?d < 2 ^ 63" using assms sint_lt [of end_tp] by simp_all
  then have "sint (of_int ?d :: i64) = ?d"
    by (simp add: sint_sbintrunc' signed_take_bit_int_eq_self del: of_int_diff)
  with d show ?thesis
    by (simp add: test_record_with_timepoint_def stats_defs run_op_def record_tp_def Let_def del: of_int_diff)
qed

text \<open>The program of the statistics tests exits with status 0, provided that the clock does not run backwards
  and has moved on between the two readings of the third test. The second proviso is the test's own: with a clock that has not
  ticked in between, the test fails although the code is right.\<close>

theorem stats_tests_pass:
  assumes "0 \<le> sint start" and "sint start < sint end_tp" and "sint t1 \<le> sint t2"
  shows "test_main (stats_tests start end_tp t1 t2) = Inr 0"
  using assms
  by (simp add: stats_tests_def stats_tests_evaluate stats_loops_evaluate timepoint_test test_now_is_monotonic_def
      ASSERT_TRUE_def test_main_def)

theorem stats_tests_pass_witness: "test_main (stats_tests 5 9 10 10) = Inr 0"
  by (rule stats_tests_pass) simp_all

text \<open>A clock that has not ticked makes the third test fail.\<close>

lemma timepoint_test_coarse_clock: "test_record_with_timepoint 7 7 = Throw ''assertion''"
  by (simp add: test_record_with_timepoint_def stats_defs run_op_def record_tp_def)

end
