(* ===== verification/Pool_Tests.thy ===== *)
theory Pool_Tests
  imports Unit_Tests WebSocket_Client
begin

text \<open>
  \<open>tests/test_memory_pool.cpp\<close> on the model. Every test passes wherever the storage of its pool is
  allocated and whatever the memory holds before.
\<close>

section \<open>Operations of the tests\<close>

definition take_block :: "(pool_world, ptr) io" where
  "take_block w = (let (p, w') = world_alloc 0 w in (Ret p, w'))"

definition give_block :: "size_t \<Rightarrow> size_t \<Rightarrow> ptr \<Rightarrow> (pool_world, unit) io" where
  "give_block BS NB p = run_op (\<lambda>w. bind_result (world_dealloc BS NB 0 p w) (\<lambda>w'. Inr ((), w')))"

definition free_is :: "size_t \<Rightarrow> (pool_world, unit) io" where
  "free_is n = bind_io (look (\<lambda>w. free_count (w_pools w 0))) (\<lambda>k. ASSERT_TRUE (k = n))"

text \<open>Filling the vector of pointers, and freeing what is in it.\<close>

fun take_blocks :: "nat \<Rightarrow> (pool_world, ptr list) io" where
  "take_blocks 0 = return_io []"
| "take_blocks (Suc n) =
     bind_io take_block (\<lambda>p. bind_io (ASSERT_TRUE (p \<noteq> nullptr)) (\<lambda>_.
     bind_io (take_blocks n) (\<lambda>ps. return_io (p # ps))))"

definition take_unchecked :: "nat \<Rightarrow> (pool_world, ptr list) io" where
  "take_unchecked n w = (let (ps, w') = alloc_n (world_alloc 0) n w in (Ret ps, w'))"

fun give_blocks :: "size_t \<Rightarrow> size_t \<Rightarrow> ptr list \<Rightarrow> (pool_world, unit) io" where
  "give_blocks BS NB [] = return_io ()"
| "give_blocks BS NB (p # ps) = bind_io (give_block BS NB p) (\<lambda>_. give_blocks BS NB ps)"

definition take_none :: "(pool_world, unit) io" where
  "take_none = bind_io take_block (\<lambda>p. ASSERT_TRUE (p = nullptr))"

text \<open>A \<open>PoolPtr\<close> is made, and destroyed at the end of its scope.\<close>

definition new_ptr :: "(pool_world, pool_ptr) io" where
  "new_ptr w = (let (pp, w') = poolptr_new world_alloc 0 w in (Ret pp, w'))"

definition destroy_ptr :: "size_t \<Rightarrow> size_t \<Rightarrow> pool_ptr \<Rightarrow> (pool_world, unit) io" where
  "destroy_ptr BS NB pp = run_op (\<lambda>w. bind_result (poolptr_destroy (world_dealloc BS NB) pp w) (\<lambda>w'. Inr ((), w')))"

definition copy_bytes :: "ptr \<Rightarrow> byte list \<Rightarrow> (pool_world, unit) io" where
  "copy_bytes p bs = update_op (\<lambda>w. w\<lparr>w_mem := write_bytes (w_mem w) p bs\<rparr>)"

definition on_pool :: "size_t \<Rightarrow> size_t \<Rightarrow> ptr \<Rightarrow> mem \<Rightarrow> (pool_world, unit) io \<Rightarrow> unit outcome" where
  "on_pool BS NB st m test = (let (m', pl) = pool_new BS NB st m in fst (test \<lparr>w_mem = m', w_pools = (\<lambda>_. pl)\<rparr>))"

section \<open>The tests\<close>

definition test_initial_state :: "ptr \<Rightarrow> mem \<Rightarrow> unit outcome" where
  "test_initial_state st m = on_pool 64 16 st m
     (bind_io (free_is 16) (\<lambda>_. bind_io (ASSERT_TRUE (pool_capacity 16 = 16)) (\<lambda>_. ASSERT_TRUE (block_size 64 = 64))))"

definition test_allocate_returns_non_null :: "ptr \<Rightarrow> mem \<Rightarrow> unit outcome" where
  "test_allocate_returns_non_null st m = on_pool 64 4 st m
     (bind_io take_block (\<lambda>p. bind_io (ASSERT_TRUE (p \<noteq> nullptr)) (\<lambda>_. bind_io (free_is 3) (\<lambda>_. give_block 64 4 p))))"

definition test_deallocate_restores_count :: "ptr \<Rightarrow> mem \<Rightarrow> unit outcome" where
  "test_deallocate_restores_count st m = on_pool 64 4 st m
     (bind_io take_block (\<lambda>p. bind_io (free_is 3) (\<lambda>_. bind_io (give_block 64 4 p) (\<lambda>_. free_is 4))))"

definition exhaust_refill :: "size_t \<Rightarrow> size_t \<Rightarrow> (pool_world, unit) io" where
  "exhaust_refill BS NB =
     bind_io (take_blocks (unat NB)) (\<lambda>ptrs. bind_io (free_is 0) (\<lambda>_. bind_io take_none (\<lambda>_.
     bind_io (give_blocks BS NB ptrs) (\<lambda>_. free_is NB))))"

definition test_exhaust_pool :: "ptr \<Rightarrow> mem \<Rightarrow> unit outcome" where
  "test_exhaust_pool st m = on_pool 64 4 st m (exhaust_refill 64 4)"

definition test_unique_pointers :: "ptr \<Rightarrow> mem \<Rightarrow> unit outcome" where
  "test_unique_pointers st m = on_pool 64 8 st m
     (bind_io (take_unchecked 8) (\<lambda>ptrs. bind_io (ASSERT_TRUE (distinct ptrs)) (\<lambda>_. give_blocks 64 8 ptrs)))"

definition test_ownership_check :: "ptr \<Rightarrow> ptr \<Rightarrow> mem \<Rightarrow> unit outcome" where
  "test_ownership_check stack_var st m = on_pool 64 4 st m
     (bind_io take_block (\<lambda>p. bind_io (look (\<lambda>w. owns 64 4 (w_pools w 0))) (\<lambda>own.
      bind_io (ASSERT_TRUE (own p)) (\<lambda>_. bind_io (ASSERT_TRUE (\<not> own stack_var)) (\<lambda>_. give_block 64 4 p)))))"

text \<open>\<open>strcmp\<close> gives 0 when the bytes are those of the text and the final zero.\<close>

definition test_data :: "byte list" where
  "test_data = string_bytes ''Hello, memory pool!'' @ [0]"

definition test_write_to_block :: "ptr \<Rightarrow> mem \<Rightarrow> unit outcome" where
  "test_write_to_block st m = on_pool 256 4 st m
     (bind_io take_block (\<lambda>p. bind_io (copy_bytes p test_data) (\<lambda>_.
      bind_io (look (\<lambda>w. read_bytes (w_mem w) p (length test_data))) (\<lambda>bs.
      bind_io (ASSERT_TRUE (bs = test_data)) (\<lambda>_. give_block 256 4 p)))))"

definition test_pool_ptr_raii :: "ptr \<Rightarrow> mem \<Rightarrow> unit outcome" where
  "test_pool_ptr_raii st m = on_pool 64 4 st m
     (bind_io new_ptr (\<lambda>pp. bind_io (ASSERT_TRUE (poolptr_bool pp)) (\<lambda>_. bind_io (free_is 3) (\<lambda>_.
      bind_io (destroy_ptr 64 4 pp) (\<lambda>_. free_is 4)))))"

definition test_pool_ptr_move :: "ptr \<Rightarrow> mem \<Rightarrow> unit outcome" where
  "test_pool_ptr_move st m = on_pool 64 4 st m
     (bind_io new_ptr (\<lambda>pp. bind_io (free_is 3) (\<lambda>_.
      let ptrs = poolptr_move 2 1 (\<lambda>_. pp)
      in bind_io (free_is 3) (\<lambda>_. bind_io (ASSERT_TRUE (\<not> poolptr_bool (ptrs 1))) (\<lambda>_.
         bind_io (ASSERT_TRUE (poolptr_bool (ptrs 2))) (\<lambda>_.
         bind_io (destroy_ptr 64 4 (ptrs 2)) (\<lambda>_. destroy_ptr 64 4 (ptrs 1))))))))"

definition test_pool_ptr_release :: "ptr \<Rightarrow> mem \<Rightarrow> unit outcome" where
  "test_pool_ptr_release st m = on_pool 64 4 st m
     (bind_io new_ptr (\<lambda>pp.
      let (raw, pp') = poolptr_release pp
      in bind_io (ASSERT_TRUE (raw \<noteq> nullptr)) (\<lambda>_. bind_io (destroy_ptr 64 4 pp') (\<lambda>_.
         bind_io (free_is 3) (\<lambda>_. bind_io (give_block 64 4 raw) (\<lambda>_. free_is 4))))))"

definition test_full_cycle_exhaust_refill :: "ptr \<Rightarrow> mem \<Rightarrow> unit outcome" where
  "test_full_cycle_exhaust_refill st m = on_pool 128 8 st m (for_loop 0 5 (\<lambda>_. exhaust_refill 128 8))"

definition test_null_deallocate_is_safe :: "ptr \<Rightarrow> mem \<Rightarrow> unit outcome" where
  "test_null_deallocate_is_safe st m = on_pool 64 4 st m (bind_io (give_block 64 4 nullptr) (\<lambda>_. free_is 4))"

definition pool_tests :: "ptr \<Rightarrow> ptr \<Rightarrow> mem \<Rightarrow> unit outcome list" where
  "pool_tests stack_var st m =
     [test_initial_state st m, test_allocate_returns_non_null st m, test_deallocate_restores_count st m,
      test_exhaust_pool st m, test_unique_pointers st m, test_ownership_check stack_var st m,
      test_write_to_block st m, test_pool_ptr_raii st m, test_pool_ptr_move st m, test_pool_ptr_release st m,
      test_full_cycle_exhaust_refill st m, test_null_deallocate_is_safe st m]"

section \<open>Triples\<close>

text \<open>From states with \<open>P\<close> the operation returns, in a state with \<open>Q\<close> of the result.\<close>

definition ends :: "('s \<Rightarrow> bool) \<Rightarrow> ('s, 'a) io \<Rightarrow> ('a \<Rightarrow> 's \<Rightarrow> bool) \<Rightarrow> bool" where
  "ends P m Q \<longleftrightarrow> (\<forall>s. P s \<longrightarrow> (\<exists>a s'. m s = (Ret a, s') \<and> Q a s'))"

lemma ends_bind: "ends P m Q \<Longrightarrow> (\<And>a. ends (Q a) (k a) R) \<Longrightarrow> ends P (bind_io m k) R"
  by (fastforce simp: ends_def bind_io_def)

text \<open>An operation with a known result, before the rest.\<close>

lemma ends_then: "ends P m (\<lambda>a s. a = x \<and> Q s) \<Longrightarrow> ends Q (k x) R \<Longrightarrow> ends P (bind_io m k) R"
  by (fastforce simp: ends_def bind_io_def)

lemma ends_return: "ends P (return_io x) (\<lambda>a s. a = x \<and> P s)"
  by (simp add: ends_def return_io_def)

lemma ends_assert: "b \<Longrightarrow> ends P (ASSERT_TRUE b) (\<lambda>a s. a = () \<and> P s)"
  by (simp add: ends_def ASSERT_TRUE_def)

lemma ends_conseq: "ends P m Q \<Longrightarrow> (\<And>a s. Q a s \<Longrightarrow> Q' a s) \<Longrightarrow> ends P m Q'"
  by (fastforce simp: ends_def)

lemma ends_loop: "(\<And>i. ends P (body i) (\<lambda>_. P)) \<Longrightarrow> ends P (for_loop i n body) (\<lambda>_. P)"
proof (induction n arbitrary: i)
  case (Suc n)
  show ?case unfolding for_loop.simps by (rule ends_bind [OF Suc.prems Suc.IH [OF Suc.prems]])
qed (simp add: ends_def return_io_def)

section \<open>A pool and its free blocks\<close>

definition pool_at :: "size_t \<Rightarrow> size_t \<Rightarrow> ptr \<Rightarrow> ptr list \<Rightarrow> pool_world \<Rightarrow> bool" where
  "pool_at BS NB st fs w \<longleftrightarrow> pool_inv BS NB (w_mem w) (w_pools w 0) \<and> pool_free (w_mem w) (w_pools w 0) = fs \<and>
     pl_storage (w_pools w 0) = st"

lemma ends_take:
  "ends (pool_at BS NB st (p # fs)) take_block (\<lambda>a w. a = p \<and> pool_at BS NB st fs w)"
  unfolding ends_def
proof (intro allI impI)
  fix w assume "pool_at BS NB st (p # fs) w"
  then show "\<exists>a w'. take_block w = (Ret a, w') \<and> a = p \<and> pool_at BS NB st fs w'"
    using allocate_some [of BS NB "w_mem w" "w_pools w 0" p fs]
    by (auto simp: pool_at_def take_block_def world_alloc_def)
qed

lemma ends_take_none: "ends (pool_at BS NB st []) take_none (\<lambda>a w. a = () \<and> pool_at BS NB st [] w)"
  using allocate_none [of BS NB] by (auto simp: ends_def take_none_def bind_io_def take_block_def world_alloc_def pool_at_def
      ASSERT_TRUE_def)

lemma ends_give:
  assumes "p \<in> set (pool_blocks BS NB st)" and "p \<notin> set fs"
  shows "ends (pool_at BS NB st fs) (give_block BS NB p) (\<lambda>a w. a = () \<and> pool_at BS NB st (p # fs) w)"
  unfolding ends_def
proof (intro allI impI)
  fix w assume "pool_at BS NB st fs w"
  then show "\<exists>a w'. give_block BS NB p w = (Ret a, w') \<and> a = () \<and> pool_at BS NB st (p # fs) w'"
    using deallocate_block [of BS NB "w_mem w" "w_pools w 0" p] assms
    by (auto simp: pool_at_def give_block_def run_op_def world_dealloc_def)
qed

lemma ends_give_null: "ends P (give_block BS NB nullptr) (\<lambda>a w. a = () \<and> P w)"
  by (auto simp: ends_def give_block_def run_op_def world_dealloc_def deallocate_def)

lemma ends_free:
  assumes "length fs = unat n"
  shows "ends (pool_at BS NB st fs) (free_is n) (\<lambda>a w. a = () \<and> pool_at BS NB st fs w)"
proof -
  have "free_count (w_pools w 0) = n" if "pool_at BS NB st fs w" for w
    using that assms length_pool_free [of "w_mem w" "w_pools w 0"]
    by (auto simp: pool_at_def free_count_def word_unat_eq_iff simp del: length_pool_free)
  then show ?thesis by (simp add: ends_def free_is_def bind_io_def look_def ASSERT_TRUE_def)
qed

lemma ends_take_blocks:
  "nullptr \<notin> set ps \<Longrightarrow>
    ends (pool_at BS NB st (ps @ fs)) (take_blocks (length ps)) (\<lambda>a w. a = ps \<and> pool_at BS NB st fs w)"
proof (induction ps)
  case (Cons p ps)
  then show ?case
    by (auto intro!: ends_then [OF ends_take] ends_then [OF ends_assert] ends_then [OF Cons.IH] ends_return)
qed (simp add: ends_return)

lemma ends_take_unchecked:
  "ends (pool_at BS NB st (ps @ fs)) (take_unchecked (length ps)) (\<lambda>a w. a = ps \<and> pool_at BS NB st fs w)"
  unfolding ends_def
proof (intro allI impI)
  fix w assume "pool_at BS NB st (ps @ fs) w"
  then show "\<exists>a w'. take_unchecked (length ps) w = (Ret a, w') \<and> a = ps \<and> pool_at BS NB st fs w'"
  proof (induction ps arbitrary: w)
    case (Cons p ps)
    then have "pool_at BS NB st (p # ps @ fs) w" by simp
    with ends_take [of BS NB st p "ps @ fs"] obtain w1 where t: "take_block w = (Ret p, w1)"
      and w1': "pool_at BS NB st (ps @ fs) w1" unfolding ends_def by blast
    then have w1: "world_alloc 0 w = (p, w1)" "pool_at BS NB st (ps @ fs) w1"
      by (auto simp: take_block_def split: prod.splits)
    from Cons.IH [OF w1(2)] w1(1) show ?case by (auto simp: take_unchecked_def split: prod.splits)
  qed (simp add: take_unchecked_def)
qed

lemma ends_give_blocks:
  "set ps \<subseteq> set (pool_blocks BS NB st) \<Longrightarrow> distinct (ps @ fs) \<Longrightarrow>
    ends (pool_at BS NB st fs) (give_blocks BS NB ps) (\<lambda>a w. a = () \<and> pool_at BS NB st (rev ps @ fs) w)"
proof (induction ps arbitrary: fs)
  case (Cons p ps)
  then show ?case
    using Cons.IH [of "p # fs"] by (auto intro!: ends_then [OF ends_give])
qed (simp add: ends_def return_io_def)

lemma ends_new:
  "ends (pool_at BS NB st (p # fs)) new_ptr (\<lambda>a w. a = \<lparr>pp_pool = 0, pp_ptr = p\<rparr> \<and> pool_at BS NB st fs w)"
  unfolding ends_def
proof (intro allI impI)
  fix w assume "pool_at BS NB st (p # fs) w"
  then show "\<exists>a w'. new_ptr w = (Ret a, w') \<and> a = \<lparr>pp_pool = 0, pp_ptr = p\<rparr> \<and> pool_at BS NB st fs w'"
    using allocate_some [of BS NB "w_mem w" "w_pools w 0" p fs]
    by (auto simp: pool_at_def new_ptr_def poolptr_new_def world_alloc_def)
qed

lemma destroy_ptr_block:
  "p \<noteq> nullptr \<Longrightarrow> destroy_ptr BS NB \<lparr>pp_pool = 0, pp_ptr = p\<rparr> = give_block BS NB p"
  by (simp add: destroy_ptr_def give_block_def poolptr_destroy_def)

lemma ends_destroy_null: "ends P (destroy_ptr BS NB \<lparr>pp_pool = k, pp_ptr = nullptr\<rparr>) (\<lambda>a w. a = () \<and> P w)"
  by (simp add: ends_def destroy_ptr_def poolptr_destroy_def run_op_def)

section \<open>The tests pass\<close>

lemma blocks_facts:
  assumes "pool_geometry BS NB st"
  shows "distinct (pool_blocks BS NB st)" and "nullptr \<notin> set (pool_blocks BS NB st)"
    and "length (pool_blocks BS NB st) = unat NB"
  using distinct_pool_blocks [OF assms] block_at_neq_null [OF assms] by (auto simp: pool_blocks_def)

text \<open>A test passes if it ends from a pool with all its blocks free.\<close>

lemma on_pool_passes:
  assumes "pool_geometry BS NB st" and "ends (pool_at BS NB st (pool_blocks BS NB st)) test (\<lambda>_ _. True)"
  shows "on_pool BS NB st m test = Ret ()"
proof -
  obtain m' pl where n: "pool_new BS NB st m = (m', pl)" by (cases "pool_new BS NB st m")
  from pool_new_inv [OF assms(1) n] have "pool_at BS NB st (pool_blocks BS NB st) \<lparr>w_mem = m', w_pools = (\<lambda>_. pl)\<rparr>"
    by (simp add: pool_at_def)
  with assms(2) obtain a w where "test \<lparr>w_mem = m', w_pools = (\<lambda>_. pl)\<rparr> = (Ret a, w)" unfolding ends_def by blast
  with n show ?thesis by (simp add: on_pool_def)
qed

text \<open>The same with the first block at hand.\<close>

lemma on_pool_first:
  assumes geo: "pool_geometry BS NB st" and pos: "NB \<noteq> 0"
    and test: "\<And>b bs. \<lbrakk>pool_blocks BS NB st = b # bs; b \<notin> set bs; b \<noteq> nullptr; Suc (length bs) = unat NB\<rbrakk> \<Longrightarrow>
      ends (pool_at BS NB st (b # bs)) test (\<lambda>_ _. True)"
  shows "on_pool BS NB st m test = Ret ()"
proof (rule on_pool_passes [OF geo])
  note f = blocks_facts [OF geo]
  from f(3) pos obtain b bs where b: "pool_blocks BS NB st = b # bs"
    by (cases "pool_blocks BS NB st") (auto simp: unat_eq_0)
  with f test show "ends (pool_at BS NB st (pool_blocks BS NB st)) test (\<lambda>_ _. True)" by auto
qed

text \<open>One cycle leaves all blocks free, in the opposite order.\<close>

definition all_free :: "size_t \<Rightarrow> size_t \<Rightarrow> ptr \<Rightarrow> pool_world \<Rightarrow> bool" where
  "all_free BS NB st w \<longleftrightarrow> (\<exists>fs. pool_at BS NB st fs w \<and> set fs = set (pool_blocks BS NB st) \<and> distinct fs)"

lemma ends_exhaust_refill:
  assumes geo: "pool_geometry BS NB st"
  shows "ends (all_free BS NB st) (exhaust_refill BS NB) (\<lambda>_. all_free BS NB st)"
proof -
  note f = blocks_facts [OF geo]
  have cycle: "ends (pool_at BS NB st fs) (exhaust_refill BS NB) (\<lambda>_. all_free BS NB st)"
    if fs: "set fs = set (pool_blocks BS NB st)" "distinct fs" for fs
  proof -
    have len: "length fs = unat NB" using fs f by (metis distinct_card)
    have refilled: "all_free BS NB st w" if "pool_at BS NB st (rev fs) w" for w
      unfolding all_free_def by (rule exI [of _ "rev fs"]) (use that fs in simp)
    have "length (rev fs) = unat NB" by (simp add: len)
    then have "ends (pool_at BS NB st (rev fs)) (free_is NB) (\<lambda>_. all_free BS NB st)"
      by (rule ends_conseq [OF ends_free]) (simp add: refilled)
    moreover have "ends (pool_at BS NB st []) (give_blocks BS NB fs) (\<lambda>a w. a = () \<and> pool_at BS NB st (rev fs) w)"
      using ends_give_blocks [of fs BS NB st "[]"] fs by simp
    ultimately have give: "ends (pool_at BS NB st []) (bind_io (give_blocks BS NB fs) (\<lambda>_. free_is NB)) (\<lambda>_. all_free BS NB st)"
      by (intro ends_then)
    have "ends (pool_at BS NB st []) (free_is 0) (\<lambda>a w. a = () \<and> pool_at BS NB st [] w)" by (rule ends_free) simp
    from ends_then [OF this ends_then [OF ends_take_none give]]
    have rest: "ends (pool_at BS NB st []) (bind_io (free_is 0) (\<lambda>_. bind_io take_none (\<lambda>_.
        bind_io (give_blocks BS NB fs) (\<lambda>_. free_is NB)))) (\<lambda>_. all_free BS NB st)" .
    have "ends (pool_at BS NB st fs) (take_blocks (unat NB)) (\<lambda>a w. a = fs \<and> pool_at BS NB st [] w)"
      using ends_take_blocks [of fs BS NB st "[]"] fs f(2) len by simp
    then show ?thesis unfolding exhaust_refill_def by (rule ends_then) (rule rest)
  qed
  show ?thesis unfolding ends_def
  proof (intro allI impI)
    fix w assume "all_free BS NB st w"
    then obtain fs where "pool_at BS NB st fs w" "set fs = set (pool_blocks BS NB st)" "distinct fs"
      by (auto simp: all_free_def)
    with cycle show "\<exists>a w'. exhaust_refill BS NB w = (Ret a, w') \<and> all_free BS NB st w'"
      unfolding ends_def by blast
  qed
qed

lemma all_free_new: "pool_geometry BS NB st \<Longrightarrow> pool_at BS NB st (pool_blocks BS NB st) w \<Longrightarrow> all_free BS NB st w"
  using blocks_facts(1) by (auto simp: all_free_def)

lemma ends_any: "ends P m Q \<Longrightarrow> ends P m (\<lambda>_ _. True)"
  by (rule ends_conseq) simp_all

lemma passes_refill:
  assumes "pool_geometry BS NB st" and "ends (all_free BS NB st) test Q"
  shows "on_pool BS NB st m test = Ret ()"
proof (rule on_pool_passes [OF assms(1)])
  show "ends (pool_at BS NB st (pool_blocks BS NB st)) test (\<lambda>_ _. True)"
    using assms(2) all_free_new [OF assms(1)] unfolding ends_def by blast
qed

lemma refill_tests:
  "pool_geometry 64 4 st \<Longrightarrow> test_exhaust_pool st m = Ret ()"
  "pool_geometry 128 8 st \<Longrightarrow> test_full_cycle_exhaust_refill st m = Ret ()"
  unfolding test_exhaust_pool_def test_full_cycle_exhaust_refill_def
  by (rule passes_refill, assumption, rule ends_exhaust_refill, assumption)
    (rule passes_refill, assumption, rule ends_loop, rule ends_exhaust_refill, assumption)

lemma first_owned: "pool_blocks BS NB st = b # bs \<Longrightarrow> b \<in> set (pool_blocks BS NB st)"
  by simp

text \<open>The tests that use one block of a pool of four.\<close>

lemma block_tests:
  assumes geo: "pool_geometry 64 4 st"
  shows "test_allocate_returns_non_null st m = Ret ()" and "test_deallocate_restores_count st m = Ret ()"
    and "test_pool_ptr_raii st m = Ret ()" and "test_pool_ptr_move st m = Ret ()"
    and "test_pool_ptr_release st m = Ret ()" and "test_null_deallocate_is_safe st m = Ret ()"
proof -
  note [simp] = destroy_ptr_block poolptr_bool_def poolptr_release_def poolptr_move_def Let_def
  note free = ends_then [OF ends_free]
  note give = ends_then [OF ends_give [OF first_owned]]
  show "test_allocate_returns_non_null st m = Ret ()"
    unfolding test_allocate_returns_non_null_def
    by (rule on_pool_first [OF geo])
      (auto intro!: ends_then [OF ends_take] ends_then [OF ends_assert] free ends_any [OF ends_give [OF first_owned]])
  show "test_deallocate_restores_count st m = Ret ()"
    unfolding test_deallocate_restores_count_def
    by (rule on_pool_first [OF geo]) (auto intro!: ends_then [OF ends_take] free give ends_any [OF ends_free])
  show "test_pool_ptr_raii st m = Ret ()"
    unfolding test_pool_ptr_raii_def
    by (rule on_pool_first [OF geo])
      (auto intro!: ends_then [OF ends_new] ends_then [OF ends_assert] free give ends_any [OF ends_free])
  show "test_pool_ptr_move st m = Ret ()"
    unfolding test_pool_ptr_move_def
    by (rule on_pool_first [OF geo])
      (auto intro!: ends_then [OF ends_new] ends_then [OF ends_assert] free give ends_any [OF ends_destroy_null])
  show "test_pool_ptr_release st m = Ret ()"
    unfolding test_pool_ptr_release_def
    by (rule on_pool_first [OF geo])
      (auto intro!: ends_then [OF ends_new] ends_then [OF ends_assert] ends_then [OF ends_destroy_null] free give
        ends_any [OF ends_free])
  show "test_null_deallocate_is_safe st m = Ret ()"
    unfolding test_null_deallocate_is_safe_def
    by (rule on_pool_first [OF geo]) (auto intro!: ends_then [OF ends_give_null] ends_any [OF ends_free])
qed

lemma ends_look: "(\<And>s. P s \<Longrightarrow> ends (\<lambda>s'. s' = s) (k (f s)) R) \<Longrightarrow> ends P (bind_io (look f) k) R"
  by (fastforce simp: ends_def bind_io_def look_def)

lemma ends_at: "ends P m Q \<Longrightarrow> P s \<Longrightarrow> ends (\<lambda>s'. s' = s) m Q"
  by (simp add: ends_def)

lemma initial_test:
  assumes geo: "pool_geometry 64 16 st"
  shows "test_initial_state st m = Ret ()"
  unfolding test_initial_state_def
proof (rule on_pool_passes [OF geo])
  have "length (pool_blocks 64 16 st) = unat (16 :: size_t)" by (rule blocks_facts(3) [OF geo])
  then show "ends (pool_at 64 16 st (pool_blocks 64 16 st)) (bind_io (free_is 16) (\<lambda>_.
      bind_io (ASSERT_TRUE (pool_capacity 16 = 16)) (\<lambda>_. ASSERT_TRUE (block_size 64 = 64)))) (\<lambda>_ _. True)"
    by (intro ends_then [OF ends_free] ends_then [OF ends_assert] ends_any [OF ends_assert])
      (simp_all add: pool_capacity_def block_size_def)
qed

lemma unique_test:
  assumes geo: "pool_geometry 64 8 st"
  shows "test_unique_pointers st m = Ret ()"
  unfolding test_unique_pointers_def
proof (rule on_pool_passes [OF geo])
  note f = blocks_facts [OF geo]
  let ?fs = "pool_blocks 64 8 st"
  have "ends (pool_at 64 8 st ?fs) (take_unchecked 8) (\<lambda>a w. a = ?fs \<and> pool_at 64 8 st [] w)"
    using ends_take_unchecked [of 64 8 st ?fs "[]"] f(3) by simp
  then show "ends (pool_at 64 8 st ?fs) (bind_io (take_unchecked 8) (\<lambda>ptrs.
      bind_io (ASSERT_TRUE (distinct ptrs)) (\<lambda>_. give_blocks 64 8 ptrs))) (\<lambda>_ _. True)"
    by (rule ends_then) (use f(1) in \<open>auto intro!: ends_then [OF ends_assert] ends_any [OF ends_give_blocks]\<close>)
qed

lemma ownership_test:
  assumes geo: "pool_geometry 64 4 st" and stack: "\<not> (st \<le> v \<and> v < st + kAlignedBlockSize 64 * 4)"
  shows "test_ownership_check v st m = Ret ()"
  unfolding test_ownership_check_def
proof (rule on_pool_first [OF geo])
  fix b bs assume b: "pool_blocks 64 4 st = b # bs" "b \<notin> set bs"
  have o: "owns 64 4 (w_pools w 0) b" "\<not> owns 64 4 (w_pools w 0) v" if "pool_at 64 4 st bs w" for w
    using that stack pool_blocks_owned [of 64 4 "w_pools w 0" b] geo b(1) by (auto simp: pool_at_def owns_def)
  show "ends (pool_at 64 4 st (b # bs)) (bind_io take_block (\<lambda>p. bind_io (look (\<lambda>w. owns 64 4 (w_pools w 0))) (\<lambda>own.
      bind_io (ASSERT_TRUE (own p)) (\<lambda>_. bind_io (ASSERT_TRUE (\<not> own v)) (\<lambda>_. give_block 64 4 p))))) (\<lambda>_ _. True)"
    by (rule ends_then [OF ends_take], rule ends_look, rule ends_at [of "pool_at 64 4 st bs"])
      (use b o in \<open>auto intro!: ends_then [OF ends_assert] ends_any [OF ends_give]\<close>)
qed simp

lemma write_test:
  assumes geo: "pool_geometry 256 4 st"
  shows "test_write_to_block st m = Ret ()"
  unfolding test_write_to_block_def
proof (rule on_pool_first [OF geo])
  fix b bs assume b: "pool_blocks 256 4 st = b # bs" "b \<notin> set bs"
  have len: "length test_data = 20" by (simp add: test_data_def string_bytes_def)
  have K: "unat (kAlignedBlockSize 256) = 256" by (simp add: kAlignedBlockSize_def max_align_def)
  have w: "ends (pool_at 256 4 st bs) (copy_bytes b test_data)
      (\<lambda>a w. a = () \<and> pool_at 256 4 st bs w \<and> read_bytes (w_mem w) b (length test_data) = test_data)"
    unfolding ends_def
  proof (intro allI impI)
    fix w assume "pool_at 256 4 st bs w"
    then show "\<exists>a w'. copy_bytes b test_data w = (Ret a, w') \<and> a = () \<and> pool_at 256 4 st bs w' \<and>
        read_bytes (w_mem w') b (length test_data) = test_data"
      using pool_inv_write [of 256 4 "w_mem w" "w_pools w 0" b test_data] b len K
        read_write_same [of test_data "w_mem w" b]
      by (auto simp: pool_at_def copy_bytes_def update_op_def)
  qed
  show "ends (pool_at 256 4 st (b # bs)) (bind_io take_block (\<lambda>p. bind_io (copy_bytes p test_data) (\<lambda>_.
      bind_io (look (\<lambda>w. read_bytes (w_mem w) p (length test_data))) (\<lambda>bs.
      bind_io (ASSERT_TRUE (bs = test_data)) (\<lambda>_. give_block 256 4 p))))) (\<lambda>_ _. True)"
    by (rule ends_then [OF ends_take], rule ends_then [OF w], rule ends_look, rule ends_at [of "pool_at 256 4 st bs"])
      (use b in \<open>auto intro!: ends_then [OF ends_assert] ends_any [OF ends_give]\<close>)
qed simp

text \<open>The program of the pool tests exits with status 0, wherever the four kinds of pool are allocated, as long as
  the variable on the stack is not inside the pool.\<close>

theorem pool_tests_pass:
  assumes "pool_geometry 64 4 st" and "pool_geometry 64 8 st" and "pool_geometry 64 16 st"
    and "pool_geometry 256 4 st" and "pool_geometry 128 8 st"
    and "\<not> (st \<le> stack_var \<and> stack_var < st + kAlignedBlockSize 64 * 4)"
  shows "test_main (pool_tests stack_var st m) = Inr 0"
  by (simp add: pool_tests_def test_main_def initial_test [OF assms(3)] block_tests [OF assms(1)]
      refill_tests(1) [OF assms(1)] refill_tests(2) [OF assms(5)] unique_test [OF assms(2)]
      ownership_test [OF assms(1,6)] write_test [OF assms(4)])

theorem pool_tests_pass_witness: "test_main (pool_tests 8 4096 (\<lambda>_. 255)) = Inr 0"
  by (rule pool_tests_pass)
    (simp_all add: pool_geometry_def pool_static_assert_def sizeof_ptr_def kAlignedBlockSize_def max_align_def)

end
