(* ===== verification/Echo_Server.thy ===== *)
theory Echo_Server
  imports Chat_Properties
begin

text \<open>
  \<open>src/websocket_server.py\<close>, the echo server of the repository, and a session against it. The handler
  \<open>echo\<close> and the banner of \<open>main\<close> are modelled; the Python library that calls the handler is a
  parameter. The server is one more implementation of the stream the client talks to, and the
  lemmas follow a message from the keyboard through the client, the server, the receiver thread and
  the queue back to the screen.
\<close>

section \<open>The server\<close>

text \<open>A message on its way: whether it is a text message, and its bytes. Of the library: the object the
  handler gets for a message that arrives, if the library accepts it (a text message is
  UTF-8); the message it sends for an object; and what Python's \<open>print\<close> writes for one.\<close>

type_synonym frame = "bool \<times> byte list"

record 'p ws_library =
  l_recv :: "frame \<Rightarrow> 'p option"
  l_send :: "'p \<Rightarrow> frame"
  l_format :: "'p \<Rightarrow> string"

text \<open>The connection as the client and the server see it: the kind of message the client writes, the
  messages on their way back, whether the last one read was text, whether the connection is
  open, and what the server printed.\<close>

record mirror =
  mi_text :: bool
  mi_back :: "frame list"
  mi_got :: bool
  mi_open :: bool
  mi_log :: string

definition server_main :: mirror where
  "server_main = \<lparr>mi_text = True, mi_back = [], mi_got = True, mi_open = True,
     mi_log = ''WebSocket echo server running at ws://localhost:8765'' @ nl\<rparr>"

text \<open>The body of the loop over the messages, and the library around it: a message it does not accept
  ends the connection, and the loop.\<close>

definition echo :: "'p ws_library \<Rightarrow> 'p \<Rightarrow> mirror \<Rightarrow> mirror" where
  "echo lib message w =
     w\<lparr>mi_log := mi_log w @ ''Received: '' @ l_format lib message @ nl,
       mi_back := mi_back w @ [l_send lib message]\<rparr>"

definition server_gets :: "'p ws_library \<Rightarrow> frame \<Rightarrow> mirror \<Rightarrow> mirror" where
  "server_gets lib f w =
     (case l_recv lib f of None \<Rightarrow> w\<lparr>mi_open := False\<rparr> | Some message \<Rightarrow> echo lib message w)"

definition bytes_string :: "byte list \<Rightarrow> string" where
  "bytes_string = map (\<lambda>b. char_of (unat b))"

text \<open>The stream of a client whose peer is the server.\<close>

definition mirror_read :: "mirror \<Rightarrow> read_result option \<times> mirror" where
  "mirror_read w =
     (case mi_back w of
        f # fs \<Rightarrow> (Some (ReadOk (bytes_string (snd f))), w\<lparr>mi_back := fs, mi_got := fst f\<rparr>)
      | [] \<Rightarrow> (if mi_open w then None else Some ReadClosed, w))"

definition mirror_api :: "'p ws_library \<Rightarrow> mirror beast_api" where
  "mirror_api lib =
    \<lparr>b_stream = (\<lambda>w. w), b_resolve = (\<lambda>h p w. (Ret [(''127.0.0.1'', 8765)], w)),
     b_connect = (\<lambda>eps w. (Ret (''127.0.0.1'', 8765), w)),
     b_set_option = (\<lambda>opt w. (Ret (), w)), b_set_sni = (\<lambda>h w. (True, w)), b_ssl_error = (\<lambda>w. ('''', w)),
     b_tls_handshake = (\<lambda>w. (Throw ''wrong version number'', w)), b_handshake = (\<lambda>h t w. (Ret (), w)),
     b_spawn = (\<lambda>w. (Ret (), w)), b_text = (\<lambda>on w. w\<lparr>mi_text := on\<rparr>), b_binary = (\<lambda>on w. w\<lparr>mi_text := \<not> on\<rparr>),
     b_write = (\<lambda>d w. if mi_open w then (Ret (), server_gets lib (mi_text w, d) w) else (Throw ''closed'', w)),
     b_is_open = mi_open, b_close = (\<lambda>w. (None, w\<lparr>mi_open := False\<rparr>)),
     b_read = mirror_read, b_got_text = mi_got, b_moved = (\<lambda>m. m\<lparr>payload := ''''\<rparr>)\<rparr>"

lemma mirror_api_simps:
  "b_text (mirror_api lib) on w = w\<lparr>mi_text := on\<rparr>" "b_binary (mirror_api lib) on w = w\<lparr>mi_text := \<not> on\<rparr>"
  "b_write (mirror_api lib) d w =
     (if mi_open w then (Ret (), server_gets lib (mi_text w, d) w) else (Throw ''closed'', w))"
  "b_is_open (mirror_api lib) = mi_open" "b_close (mirror_api lib) w = (None, w\<lparr>mi_open := False\<rparr>)"
  "b_read (mirror_api lib) = mirror_read" "b_got_text (mirror_api lib) = mi_got"
  by (simp_all add: mirror_api_def)

lemma bytes_string_bytes [simp]: "bytes_string (string_bytes s) = s"
proof -
  have "char_of (unat (of_nat (of_char c) :: byte)) = c" for c :: char
    by (simp add: unat_of_nat)
  then show ?thesis by (simp add: bytes_string_def string_bytes_def o_def)
qed

section \<open>The way of a message\<close>

definition frame_message :: "frame \<Rightarrow> message" where
  "frame_message f = message_new (bytes_string (snd f)) (fst f)"

text \<open>All that was sent and not yet handed to the main thread, in order: in the queue, in the hands of
  the receiver, on the connection.\<close>

definition outstanding :: "mirror client \<Rightarrow> message list" where
  "outstanding cl = queued cl @ pending (cl_receiver cl) @ map frame_message (mi_back (cl_stream cl))"

text \<open>The steps the receiver needs at most to queue the next message; none when it has ended.\<close>

fun push_distance :: "receiver_pc thread \<Rightarrow> nat" where
  "push_distance (Running R_Start) = 4"
| "push_distance (Running R_Loop) = 3"
| "push_distance (Running R_Read) = 2"
| "push_distance (Running (R_Push m)) = 1"
| "push_distance _ = 0"

definition linked :: "os_api \<Rightarrow> string \<Rightarrow> mirror client \<Rightarrow> bool" where
  "linked os tag cl \<longleftrightarrow> client_inv os tag cl \<and> cl_running cl \<and> mi_open (cl_stream cl) \<and>
     0 < push_distance (cl_receiver cl) \<and> length (outstanding cl) \<le> 1023"

lemma push_distance_le: "push_distance t \<le> 4"
  by (cases t rule: push_distance.cases) simp_all

lemma linkedD:
  assumes "linked os tag cl"
  shows "spsc_inv kQueueCapacity (cl_queue cl)" "client_inv os tag cl" "cl_running cl" "mi_open (cl_stream cl)"
    "0 < push_distance (cl_receiver cl)" "length (outstanding cl) \<le> 1023"
  using assms by (auto simp: linked_def client_inv_def)

text \<open>What a step of the receiver does to the messages under way.\<close>

definition carries_on :: "os_api \<Rightarrow> string \<Rightarrow> nat \<Rightarrow> mirror client \<Rightarrow> mirror client \<Rightarrow> bool" where
  "carries_on os tag k cl cl' \<longleftrightarrow> linked os tag cl' \<and> outstanding cl' = outstanding cl \<and>
     (queued cl \<noteq> [] \<longrightarrow> queued cl' \<noteq> []) \<and>
     (outstanding cl \<noteq> [] \<longrightarrow> queued cl' = [] \<longrightarrow>
        push_distance (cl_receiver cl') + k \<le> push_distance (cl_receiver cl))"

lemma carries_on_same:
  assumes l: "linked os tag cl" and "cl_queue cl' = cl_queue cl" "cl_config cl' = cl_config cl"
    "cl_running cl' = cl_running cl" "mi_open (cl_stream cl') = mi_open (cl_stream cl)"
    "outstanding cl' = outstanding cl" "0 < push_distance (cl_receiver cl')"
    "outstanding cl \<noteq> [] \<longrightarrow> queued cl = [] \<longrightarrow> Suc (push_distance (cl_receiver cl')) \<le> push_distance (cl_receiver cl)"
  shows "carries_on os tag 1 cl cl'"
  using assms by (auto simp: carries_on_def linked_def client_inv_def)

lemma mirror_step:
  assumes l: "linked os tag cl"
  shows "\<exists>cl'. receive_step (mirror_api lib) os tag cl = Inr cl' \<and> carries_on os tag 1 cl cl'"
proof -
  obtain pc where pc: "cl_receiver cl = Running pc" "pc \<noteq> R_Exit" "pc \<noteq> R_Done"
    using linkedD(5) [OF l] by (cases "cl_receiver cl" rule: push_distance.cases) auto
  note step = receive_step_def pc(1)
  show ?thesis
  proof (cases pc)
    case R_Start
    from l obtain calls where "receiver_pin os tag (cl_config cl) = Inr calls" by (auto simp: linked_def client_inv_def)
    with R_Start have "receive_step (mirror_api lib) os tag cl = Inr (set_pc R_Loop (cl_print calls cl))"
      by (simp add: step)
    moreover have "carries_on os tag 1 cl (set_pc R_Loop (cl_print calls cl))"
      using R_Start pc(1) by (intro carries_on_same [OF l]) (simp_all add: client_simps outstanding_def)
    ultimately show ?thesis by blast
  next
    case R_Loop
    then have "receive_step (mirror_api lib) os tag cl = Inr (set_pc R_Read cl)"
      using linkedD(3) [OF l] by (simp add: step)
    moreover have "carries_on os tag 1 cl (set_pc R_Read cl)"
      using R_Loop pc(1) by (intro carries_on_same [OF l]) (simp_all add: client_simps outstanding_def)
    ultimately show ?thesis by blast
  next
    case R_Read
    show ?thesis
    proof (cases "mi_back (cl_stream cl)")
      case Nil
      then have "receive_step (mirror_api lib) os tag cl = Inr (cl\<lparr>cl_stream := cl_stream cl\<rparr>)"
        using linkedD(4) [OF l] R_Read by (simp add: step mirror_api_simps mirror_read_def)
      moreover have "carries_on os tag 1 cl cl"
        using R_Read pc(1) Nil by (intro carries_on_same [OF l]) (simp_all add: outstanding_def)
      ultimately show ?thesis by simp
    next
      case (Cons f fs)
      let ?w = "cl_stream cl\<lparr>mi_back := fs, mi_got := fst f\<rparr>"
      let ?cl = "set_pc (R_Push (frame_message f)) (cl\<lparr>cl_stream := ?w\<rparr>)"
      have "receive_step (mirror_api lib) os tag cl = Inr ?cl"
        using Cons R_Read by (simp add: step mirror_api_simps mirror_read_def frame_message_def)
      moreover have "carries_on os tag 1 cl ?cl"
        using R_Read pc(1) Cons by (intro carries_on_same [OF l]) (simp_all add: client_simps outstanding_def)
      ultimately show ?thesis by blast
    qed
  next
    case (R_Push m)
    from push_pc_step [OF linkedD(1) [OF l], of "mirror_api lib" os tag m] obtain cl' where
      p: "receive_at (mirror_api lib) os tag (R_Push m) cl = Inr cl'" "cl_receiver cl' = Running R_Loop"
        "cl_config cl' = cl_config cl" "cl_running cl' = cl_running cl" "spsc_inv kQueueCapacity (cl_queue cl')"
        "queued cl' = (if length (queued cl) < 1023 then queued cl @ [m] else queued cl)" by blast
    have st: "cl_stream cl' = cl_stream cl"
      using p(1) by (auto simp: client_simps bind_result_Inr_iff split: if_splits)
    have "length (queued cl) < 1023" using linkedD(6) [OF l] R_Push pc(1) by (simp add: outstanding_def)
    then have "carries_on os tag 1 cl cl'"
      using l p st R_Push pc(1) by (auto simp: carries_on_def linked_def client_inv_def outstanding_def)
    with p(1) R_Push show ?thesis by (auto simp: step simp del: receive_at.simps)
  qed (use pc in simp_all)
qed

lemma mirror_loop:
  "linked os tag cl \<Longrightarrow> \<exists>cl'. receive_loop k (mirror_api lib) os tag cl = Inr cl' \<and> carries_on os tag k cl cl'"
proof (induction k arbitrary: cl)
  case (Suc k)
  from mirror_step [OF Suc.prems, of lib] obtain cl1 where
    s: "receive_step (mirror_api lib) os tag cl = Inr cl1" "carries_on os tag 1 cl cl1" by blast
  then have "linked os tag cl1" by (simp add: carries_on_def)
  from Suc.IH [OF this] obtain cl' where
    r: "receive_loop k (mirror_api lib) os tag cl1 = Inr cl'" "carries_on os tag k cl1 cl'" by blast
  have "carries_on os tag (Suc k) cl cl'"
    using s(2) r(2) by (fastforce simp: carries_on_def)
  with s(1) r(1) show ?case by simp
qed (auto simp: carries_on_def)

text \<open>A poll loop that leaves the receiver as many steps as it needs returns the oldest message under
  way.\<close>

lemma mirror_poll:
  assumes l: "linked os tag cl" and q: "queued cl = m # ms"
  shows "\<exists>cl'. try_receive (mirror_api lib) cl = Inr (Some m, cl') \<and> linked os tag cl' \<and>
    outstanding cl' = tl (outstanding cl)"
proof -
  from try_receive_spec [OF linkedD(1) [OF l], of "mirror_api lib"] q obtain q' where
    t: "try_receive (mirror_api lib) cl = Inr (Some m, cl\<lparr>cl_queue := q'\<rparr>)"
      "spsc_inv kQueueCapacity q'" "spsc_list kQueueCapacity q' = ms" by auto
  have o: "outstanding (cl\<lparr>cl_queue := q'\<rparr>) = tl (outstanding cl)" using t(3) q by (simp add: outstanding_def)
  moreover have "length (tl (outstanding cl)) \<le> 1023" using linkedD(6) [OF l] by simp
  ultimately have "linked os tag (cl\<lparr>cl_queue := q'\<rparr>)"
    using l t(2) by (simp add: linked_def client_inv_def)
  with t(1) o show ?thesis by blast
qed

lemma mirror_spin:
  "linked os tag cl \<Longrightarrow> outstanding cl \<noteq> [] \<Longrightarrow> push_distance (cl_receiver cl) \<le> sum_list sched \<Longrightarrow>
   \<exists>cl'. spin_receive sched (mirror_api lib) os tag cl = Inr (Some (hd (outstanding cl), cl')) \<and>
     linked os tag cl' \<and> outstanding cl' = tl (outstanding cl)"
proof (induction sched arbitrary: cl)
  case Nil
  with linkedD(5) show ?case by fastforce
next
  case (Cons k sched)
  from mirror_loop [OF Cons.prems(1), of k lib] obtain cl1 where
    r: "receive_loop k (mirror_api lib) os tag cl = Inr cl1" and c: "carries_on os tag k cl cl1" by blast
  from c have l1: "linked os tag cl1" and o1: "outstanding cl1 = outstanding cl" by (simp_all add: carries_on_def)
  show ?case
  proof (cases "queued cl1")
    case (Cons m ms)
    then have "m = hd (outstanding cl1)" by (simp add: outstanding_def)
    then have "m = hd (outstanding cl)" by (simp add: o1)
    with mirror_poll [OF l1 Cons, of lib] r o1 show ?thesis by auto
  next
    case Nil
    from try_receive_spec [OF linkedD(1) [OF l1], of "mirror_api lib"] Nil obtain q' where
      t: "try_receive (mirror_api lib) cl1 = Inr (None, cl1\<lparr>cl_queue := q'\<rparr>)"
        "spsc_inv kQueueCapacity q'" "spsc_list kQueueCapacity q' = []" by auto
    let ?cl = "cl1\<lparr>cl_queue := q'\<rparr>"
    have "outstanding ?cl = outstanding cl1" using t(3) Nil by (simp add: outstanding_def)
    then have o: "outstanding ?cl = outstanding cl" by (simp add: o1)
    have l: "linked os tag ?cl" using l1 t(2) o o1 by (simp add: linked_def client_inv_def)
    have "push_distance (cl_receiver ?cl) \<le> sum_list sched"
      using c Nil Cons.prems(2,3) by (simp add: carries_on_def)
    from Cons.IH [OF l _ this] o Cons.prems(2) r t(1) show ?thesis by simp
  qed
qed

text \<open>A message the server accepts and mirrors comes back as it was.\<close>

definition mirrors :: "'p ws_library \<Rightarrow> bool" where
  "mirrors lib \<longleftrightarrow> (\<forall>f p. l_recv lib f = Some p \<longrightarrow> l_send lib p = f)"

text \<open>A turn of the user: a text or a binary message, and the line.\<close>

type_synonym turn = "bool \<times> string"

definition turn_frame :: "turn \<Rightarrow> frame" where
  "turn_frame t = (fst t, string_bytes (snd t))"

definition turn_message :: "turn \<Rightarrow> message" where
  "turn_message t = message_new (snd t) (fst t)"

definition accepts :: "'p ws_library \<Rightarrow> turn \<Rightarrow> bool" where
  "accepts lib t \<longleftrightarrow> l_recv lib (turn_frame t) \<noteq> None"

definition send_turn :: "'w chat_env \<Rightarrow> turn \<Rightarrow> ('w, unit) chat" where
  "send_turn env t = (if fst t then chat_send_text env (snd t) else chat_send_binary env (string_bytes (snd t)))"

lemma frame_message_turn [simp]: "frame_message (turn_frame t) = turn_message t"
  by (simp add: frame_message_def turn_frame_def turn_message_def)

lemma server_mirrors:
  assumes "mirrors lib" and "accepts lib t"
  shows "mi_back (server_gets lib (turn_frame t) w) = mi_back w @ [turn_frame t]"
    and "mi_open (server_gets lib (turn_frame t) w) = mi_open w"
proof -
  from assms(2) obtain p where p: "l_recv lib (turn_frame t) = Some p" by (auto simp: accepts_def)
  moreover from assms(1) p have "l_send lib p = turn_frame t" unfolding mirrors_def by blast
  ultimately show "mi_back (server_gets lib (turn_frame t) w) = mi_back w @ [turn_frame t]"
    and "mi_open (server_gets lib (turn_frame t) w) = mi_open w"
    by (simp_all add: server_gets_def echo_def)
qed

lemma send_turn_mirror:
  assumes m: "mirrors lib" "accepts lib t" and env: "ce_api env = mirror_api lib"
    and l: "linked os tag (se_client s)" and few: "length (outstanding (se_client s)) < 1023"
  shows "\<exists>cl. send_turn env t s = (Ret (), s\<lparr>se_client := cl\<rparr>) \<and> linked os tag cl \<and>
    outstanding cl = outstanding (se_client s) @ [turn_message t]"
proof -
  let ?w = "server_gets lib (turn_frame t) (cl_stream (se_client s)\<lparr>mi_text := fst t\<rparr>)"
  let ?cl = "se_client s\<lparr>cl_stream := ?w\<rparr>"
  have s: "send_turn env t s = (Ret (), s\<lparr>se_client := ?cl\<rparr>)"
    using linkedD(4) [OF l]
    by (simp add: send_turn_def chat_send_text_def chat_send_binary_def send_text_def send_binary_def env
        mirror_api_simps turn_frame_def)
  have o: "outstanding ?cl = outstanding (se_client s) @ [turn_message t]"
    by (simp add: outstanding_def server_mirrors [OF m])
  then have "linked os tag ?cl"
    using l few by (simp add: linked_def client_inv_def server_mirrors [OF m])
  with s o show ?thesis by blast
qed

section \<open>A turn of the session\<close>

text \<open>A clock that does not go back.\<close>

definition steady :: "(nat \<Rightarrow> i64) \<Rightarrow> bool" where
  "steady clk \<longleftrightarrow> 0 \<le> sint (clk 0) \<and> mono (\<lambda>n. sint (clk n))"

lemma steady_diff:
  assumes "steady clk" and "i \<le> j"
  shows "0 \<le> sint (clk j) - sint (clk i)" and "sint (clk j) - sint (clk i) < 2 ^ 63"
proof -
  have "sint (clk i) \<le> sint (clk j)" "0 \<le> sint (clk i)"
    using assms monoD [of "\<lambda>n. sint (clk n)" 0 i] monoD [of "\<lambda>n. sint (clk n)" i j] by (auto simp: steady_def)
  moreover have "sint (clk j) < 2 ^ 63" using sint_lt [of "clk j"] by simp
  ultimately show "0 \<le> sint (clk j) - sint (clk i)" "sint (clk j) - sint (clk i) < 2 ^ 63" by linarith+
qed

definition turn_kind :: "turn \<Rightarrow> string" where
  "turn_kind t = (if fst t then ''text'' else ''binary'')"

definition turn_prompt :: "turn \<Rightarrow> string" where
  "turn_prompt t = (if fst t then ''Message: '' else ''Data: '')"

text \<open>The microseconds between the first and the third look at the clock of a turn.\<close>

definition turn_rtt :: "(nat \<Rightarrow> i64) \<Rightarrow> nat \<Rightarrow> int" where
  "turn_rtt clk n = (sint (clk (n + 2)) - sint (clk n)) div 1000"

lemma mirror_exchange:
  assumes m: "mirrors lib" "accepts lib t" and env: "ce_api env = mirror_api lib" and clk: "steady (ce_clock env)"
    and l: "linked (ce_os env) (ce_tag env) (se_client s)" and few: "length (outstanding (se_client s)) < 1023"
    and sp: "se_spins s = sched # scheds" "4 \<le> sum_list sched"
  shows "\<exists>cl st. exchange env (turn_kind t) (send_turn env t) s =
      (Ret (), s\<lparr>se_client := cl, se_stats := st, se_spins := scheds, se_now := se_now s + 3,
         se_out := se_out s @ [Say (reply_msg (turn_kind t)
           (payload (hd (outstanding (se_client s) @ [turn_message t]))) (turn_rtt (ce_clock env) (se_now s)))]\<rparr>) \<and>
    linked (ce_os env) (ce_tag env) cl \<and> outstanding cl = tl (outstanding (se_client s) @ [turn_message t]) \<and>
    length (samples_ns st) = Suc (length (samples_ns (se_stats s)))"
proof -
  let ?clk = "ce_clock env" and ?n = "se_now s"
  let ?s1 = "s\<lparr>se_now := Suc ?n\<rparr>"
  have few1: "length (outstanding (se_client ?s1)) < 1023" and l1: "linked (ce_os env) (ce_tag env) (se_client ?s1)"
    using few l by simp_all
  from send_turn_mirror [OF m env l1 few1] obtain cl1 where
    snd: "send_turn env t ?s1 = (Ret (), ?s1\<lparr>se_client := cl1\<rparr>)" "linked (ce_os env) (ce_tag env) cl1"
      "outstanding cl1 = outstanding (se_client s) @ [turn_message t]" by auto
  have "push_distance (cl_receiver cl1) \<le> sum_list sched" using push_distance_le sp(2) by (rule le_trans)
  from mirror_spin [OF snd(2) _ this, of lib] snd(3) obtain cl where
    rcv: "spin_receive sched (mirror_api lib) (ce_os env) (ce_tag env) cl1 = Inr (Some (hd (outstanding cl1), cl))"
      "linked (ce_os env) (ce_tag env) cl" "outstanding cl = tl (outstanding cl1)" by auto
  have d1: "0 \<le> sint (?clk (Suc ?n)) - sint (?clk ?n)" "sint (?clk (Suc ?n)) - sint (?clk ?n) < 2 ^ 63"
    and d2: "0 \<le> sint (?clk (?n + 2)) - sint (?clk ?n)" "sint (?clk (?n + 2)) - sint (?clk ?n) < 2 ^ 63"
    by (intro steady_diff [OF clk]; simp)+
  let ?st = "record_ns (of_int (sint (?clk (Suc ?n)) - sint (?clk ?n))) (se_stats s)"
  have rec: "record_tp (?clk (Suc ?n)) (?clk ?n) st = Inr (record_ns (of_int (sint (?clk (Suc ?n)) - sint (?clk ?n))) st)" for st
    using d1 by (simp add: record_tp_def Let_def del: of_int_diff)
  have rtt: "rtt_us (?clk (Suc (Suc ?n))) (?clk ?n) = Inr (turn_rtt ?clk ?n)"
    using d2 by (simp add: rtt_us_def turn_rtt_def Let_def)
  have "length (samples_ns ?st) = Suc (length (samples_ns (se_stats s)))" by (simp add: record_ns_def)
  moreover have "exchange env (turn_kind t) (send_turn env t) s =
      (Ret (), s\<lparr>se_client := cl, se_stats := ?st, se_spins := scheds, se_now := ?n + 3,
         se_out := se_out s @ [Say (reply_msg (turn_kind t) (payload (hd (outstanding cl1))) (turn_rtt ?clk ?n))]\<rparr>)"
    using snd(1) rcv(1) sp(1)
    by (simp add: exchange_def bind_io_def now_def chat_spin_receive_def env record_main_def record_since_def
        lift_def rec rtt say_def del: spin_receive.simps)
  ultimately show ?thesis using rcv(2,3) snd(3) by auto
qed

text \<open>What the user types for a turn.\<close>

definition turn_input :: "turn \<Rightarrow> string" where
  "turn_input t = turn_kind t @ nl @ snd t @ nl"

lemma getline_line:
  assumes "CHR 0x0A \<notin> set line" and "cin_good c" and "cin_text c = line @ nl @ rest"
  shows "getline c old = (True, line, c\<lparr>cin_text := rest, cin_good := True\<rparr>)"
proof -
  have t: "cin_text c = line @ CHR 0x0A # rest" using assms(3) by (simp add: nl_def)
  have w: "takeWhile (\<lambda>x. x \<noteq> CHR 0x0A) (line @ CHR 0x0A # rest) = line"
    using assms(1) by (subst takeWhile_append2) auto
  have d: "dropWhile (\<lambda>x. x \<noteq> CHR 0x0A) (line @ CHR 0x0A # rest) = CHR 0x0A # rest"
    using assms(1) by (subst dropWhile_append2) auto
  show ?thesis using assms(2) by (simp add: getline_def t w d)
qed

lemma turn_kind_facts:
  "CHR 0x0A \<notin> set (turn_kind t)" "turn_kind t \<noteq> []" "turn_kind t \<noteq> ''/exit''"
  by (simp_all add: turn_kind_def)

text \<open>The two lines of a turn are read, the prompt is shown, and the exchange takes place.\<close>

lemma chat_line_turn:
  assumes "CHR 0x0A \<notin> set (snd t)" and "cin_good (se_cin s)" and "cin_text (se_cin s) = snd t @ nl @ rest"
    and "exchange env (turn_kind t) (send_turn env t)
      (s\<lparr>se_out := se_out s @ [Say (turn_prompt t)], se_input := snd t,
         se_cin := se_cin s\<lparr>cin_text := rest, cin_good := True\<rparr>\<rparr>) = (Ret (), s')"
  shows "chat_line env (turn_kind t) s = (Ret True, s')"
  using assms(4) getline_line [OF assms(1-3), of "se_input s"]
  by (cases "fst t")
    (simp_all add: chat_line_def chat_command_def turn_kind_def turn_prompt_def send_turn_def bind_io_def say_def
      read_line_def get_session_def return_io_def)

lemma chat_step_reads:
  assumes run: "let_receiver_run env s = (Ret (), s1)" and on: "is_running (se_client s1)"
    and "CHR 0x0A \<notin> set line" and "cin_good (se_cin s1)" and "cin_text (se_cin s1) = line @ nl @ rest"
    and "chat_line env line (s1\<lparr>se_out := se_out s1 @ [Say ''> ''], se_input := line,
      se_cin := se_cin s1\<lparr>cin_text := rest, cin_good := True\<rparr>\<rparr>) = (Ret b, s')"
  shows "chat_step env s = (Ret b, s')"
  using assms(1,2,6) getline_line [OF assms(3-5), of "se_input s1"]
  by (simp add: chat_step_def chat_read_def bind_io_def say_def read_line_def get_session_def return_io_def)

lemma mirror_run:
  assumes "ce_api env = mirror_api lib" and "linked (ce_os env) (ce_tag env) (se_client s)"
  shows "\<exists>cl. let_receiver_run env s = (Ret (), s\<lparr>se_client := cl, se_steps := tl (se_steps s)\<rparr>) \<and>
    linked (ce_os env) (ce_tag env) cl \<and> outstanding cl = outstanding (se_client s)"
  using mirror_loop [OF assms(2), of "case se_steps s of [] \<Rightarrow> 0 | n # _ \<Rightarrow> n" lib] assms(1)
  by (auto simp: let_receiver_run_def Let_def carries_on_def)

text \<open>What a session needs to go on: the client and the server are linked, with some messages
  under way, the input is the given turns and an end, and the receiver gets its steps.\<close>

definition talking :: "mirror chat_env \<Rightarrow> turn list \<Rightarrow> string \<Rightarrow> mirror session \<Rightarrow> bool" where
  "talking env ts fin s \<longleftrightarrow>
     linked (ce_os env) (ce_tag env) (se_client s) \<and> length (outstanding (se_client s)) < 1023 \<and>
     cin_good (se_cin s) \<and> cin_text (se_cin s) = concat (map turn_input ts) @ fin \<and>
     length ts \<le> length (se_spins s) \<and> (\<forall>sched \<in> set (se_spins s). 4 \<le> sum_list sched)"

lemma mirror_chat_step:
  assumes m: "mirrors lib" "accepts lib t" and env: "ce_api env = mirror_api lib" and clk: "steady (ce_clock env)"
    and line: "CHR 0x0A \<notin> set (snd t)" and s: "talking env (t # ts) fin s"
  shows "\<exists>s'. chat_step env s = (Ret True, s') \<and> talking env ts fin s' \<and>
    outstanding (se_client s') = tl (outstanding (se_client s) @ [turn_message t]) \<and> se_now s' = se_now s + 3 \<and>
    length (samples_ns (se_stats s')) = Suc (length (samples_ns (se_stats s))) \<and>
    se_out s' = se_out s @ [Say ''> '', Say (turn_prompt t), Say (reply_msg (turn_kind t)
      (payload (hd (outstanding (se_client s) @ [turn_message t]))) (turn_rtt (ce_clock env) (se_now s)))]"
proof -
  have l: "linked (ce_os env) (ce_tag env) (se_client s)" and few: "length (outstanding (se_client s)) < 1023"
    and good: "cin_good (se_cin s)"
    and inp: "cin_text (se_cin s) = turn_kind t @ nl @ (snd t @ nl @ (concat (map turn_input ts) @ fin))"
    using s by (simp_all add: talking_def turn_input_def)
  obtain sched scheds where sp: "se_spins s = sched # scheds" "4 \<le> sum_list sched"
    using s by (cases "se_spins s") (auto simp: talking_def)
  from mirror_run [OF env l] obtain cl0 where
    run: "let_receiver_run env s = (Ret (), s\<lparr>se_client := cl0, se_steps := tl (se_steps s)\<rparr>)"
    and l0: "linked (ce_os env) (ce_tag env) cl0" and o0: "outstanding cl0 = outstanding (se_client s)" by blast
  let ?s1 = "s\<lparr>se_client := cl0, se_steps := tl (se_steps s)\<rparr>"
  let ?rest = "snd t @ nl @ (concat (map turn_input ts) @ fin)"
  let ?s2 = "?s1\<lparr>se_out := se_out ?s1 @ [Say ''> ''], se_input := turn_kind t,
    se_cin := se_cin ?s1\<lparr>cin_text := ?rest, cin_good := True\<rparr>\<rparr>"
  let ?s3 = "?s2\<lparr>se_out := se_out ?s2 @ [Say (turn_prompt t)], se_input := snd t,
    se_cin := se_cin ?s2\<lparr>cin_text := concat (map turn_input ts) @ fin, cin_good := True\<rparr>\<rparr>"
  have "linked (ce_os env) (ce_tag env) (se_client ?s3)" "length (outstanding (se_client ?s3)) < 1023"
    "se_spins ?s3 = sched # scheds"
    using l0 o0 few sp by simp_all
  from mirror_exchange [OF m env clk this sp(2)] obtain cl st where
    ex: "exchange env (turn_kind t) (send_turn env t) ?s3 =
      (Ret (), ?s3\<lparr>se_client := cl, se_stats := st, se_spins := scheds, se_now := se_now ?s3 + 3,
         se_out := se_out ?s3 @ [Say (reply_msg (turn_kind t)
           (payload (hd (outstanding (se_client ?s3) @ [turn_message t]))) (turn_rtt (ce_clock env) (se_now ?s3)))]\<rparr>)"
    and res: "linked (ce_os env) (ce_tag env) cl" "outstanding cl = tl (outstanding (se_client ?s3) @ [turn_message t])"
      "length (samples_ns st) = Suc (length (samples_ns (se_stats ?s3)))" by blast
  let ?s4 = "?s3\<lparr>se_client := cl, se_stats := st, se_spins := scheds, se_now := se_now ?s3 + 3,
         se_out := se_out ?s3 @ [Say (reply_msg (turn_kind t)
           (payload (hd (outstanding (se_client ?s3) @ [turn_message t]))) (turn_rtt (ce_clock env) (se_now ?s3)))]\<rparr>"
  have "chat_line env (turn_kind t) ?s2 = (Ret True, ?s4)"
    by (rule chat_line_turn [OF line _ _ ex]) simp_all
  then have "chat_step env s = (Ret True, ?s4)"
    using linkedD(3) [OF l0] good inp
    by (intro chat_step_reads [OF run _ turn_kind_facts(1)]) (simp_all add: is_running_def)
  moreover have "talking env ts fin ?s4"
    using res(1,2) o0 few s sp by (auto simp: talking_def)
  ultimately show ?thesis using res o0 by (intro exI [of _ ?s4]) simp
qed

section \<open>The conversation\<close>

text \<open>What the turns print, with the replies that are under way when they begin.\<close>

fun dialogue :: "(nat \<Rightarrow> i64) \<Rightarrow> nat \<Rightarrow> message list \<Rightarrow> turn list \<Rightarrow> chat_out list" where
  "dialogue clk n ps [] = []"
| "dialogue clk n ps (t # ts) =
     [Say ''> '', Say (turn_prompt t),
      Say (reply_msg (turn_kind t) (payload (hd (ps @ [turn_message t]))) (turn_rtt clk n))] @
     dialogue clk (n + 3) (tl (ps @ [turn_message t])) ts"

lemma chat_loop_end:
  assumes env: "ce_api env = mirror_api lib" and fin: "fin = '''' \<or> fin = ''/exit'' @ nl" and s: "talking env [] fin s"
  shows "\<exists>s'. chat_loop env s = (Ret (), s') \<and> linked (ce_os env) (ce_tag env) (se_client s') \<and>
    outstanding (se_client s') = outstanding (se_client s) \<and> se_stats s' = se_stats s \<and>
    se_out s' = se_out s @ [Say ''> '']"
proof -
  have l: "linked (ce_os env) (ce_tag env) (se_client s)" and good: "cin_good (se_cin s)"
    and inp: "cin_text (se_cin s) = fin"
    using s by (simp_all add: talking_def)
  from mirror_run [OF env l] obtain cl0 where
    run: "let_receiver_run env s = (Ret (), s\<lparr>se_client := cl0, se_steps := tl (se_steps s)\<rparr>)"
    and l0: "linked (ce_os env) (ce_tag env) cl0" and o0: "outstanding cl0 = outstanding (se_client s)" by blast
  note on = linkedD(3) [OF l0]
  have "\<exists>c i. chat_step env s = (Ret False, s\<lparr>se_client := cl0, se_steps := tl (se_steps s),
      se_out := se_out s @ [Say ''> ''], se_input := i, se_cin := c\<rparr>)"
    using fin
  proof
    assume "fin = ''''"
    then show ?thesis
      using run on good inp
      by (intro exI [of _ "se_cin s\<lparr>cin_good := False\<rparr>"] exI [of _ "''''"])
        (simp add: chat_step_def chat_read_def bind_io_def say_def read_line_def get_session_def return_io_def
          is_running_def getline_def)
  next
    assume "fin = ''/exit'' @ nl"
    then have "getline (se_cin s) old = (True, ''/exit'', se_cin s\<lparr>cin_text := '''', cin_good := True\<rparr>)" for old
      using good inp by (intro getline_line) simp_all
    then show ?thesis
      using run on
      by (intro exI [of _ "se_cin s\<lparr>cin_text := '''', cin_good := True\<rparr>"] exI [of _ "''/exit''"])
        (simp add: chat_step_def chat_read_def bind_io_def say_def read_line_def get_session_def return_io_def
          is_running_def chat_line_def)
  qed
  then obtain c i where "chat_step env s = (Ret False, s\<lparr>se_client := cl0, se_steps := tl (se_steps s),
      se_out := se_out s @ [Say ''> ''], se_input := i, se_cin := c\<rparr>)" by blast
  with l0 o0 show ?thesis by (simp add: chat_loop.simps [of env s])
qed

lemma mirror_chat_loop:
  assumes m: "mirrors lib" and env: "ce_api env = mirror_api lib" and clk: "steady (ce_clock env)"
    and fin: "fin = '''' \<or> fin = ''/exit'' @ nl"
  shows "talking env ts fin s \<Longrightarrow> \<forall>t \<in> set ts. accepts lib t \<and> CHR 0x0A \<notin> set (snd t) \<Longrightarrow>
    \<exists>s'. chat_loop env s = (Ret (), s') \<and> linked (ce_os env) (ce_tag env) (se_client s') \<and>
      outstanding (se_client s') = drop (length ts) (outstanding (se_client s) @ map turn_message ts) \<and>
      length (samples_ns (se_stats s')) = length (samples_ns (se_stats s)) + length ts \<and>
      se_out s' = se_out s @ dialogue (ce_clock env) (se_now s) (outstanding (se_client s)) ts @ [Say ''> '']"
proof (induction ts arbitrary: s)
  case Nil
  from chat_loop_end [OF env fin Nil.prems(1)] show ?case by auto
next
  case (Cons t ts)
  from Cons.prems(2) have t: "accepts lib t" "CHR 0x0A \<notin> set (snd t)" by simp_all
  from mirror_chat_step [OF m t(1) env clk t(2) Cons.prems(1)] obtain s1 where
    st: "chat_step env s = (Ret True, s1)" "talking env ts fin s1"
      "outstanding (se_client s1) = tl (outstanding (se_client s) @ [turn_message t])" "se_now s1 = se_now s + 3"
      "length (samples_ns (se_stats s1)) = Suc (length (samples_ns (se_stats s)))"
      "se_out s1 = se_out s @ [Say ''> '', Say (turn_prompt t), Say (reply_msg (turn_kind t)
        (payload (hd (outstanding (se_client s) @ [turn_message t]))) (turn_rtt (ce_clock env) (se_now s)))]" by blast
  from Cons.IH [OF st(2)] Cons.prems(2) obtain s' where
    r: "chat_loop env s1 = (Ret (), s')" "linked (ce_os env) (ce_tag env) (se_client s')"
      "outstanding (se_client s') = drop (length ts) (outstanding (se_client s1) @ map turn_message ts)"
      "length (samples_ns (se_stats s')) = length (samples_ns (se_stats s1)) + length ts"
      "se_out s' = se_out s1 @ dialogue (ce_clock env) (se_now s1) (outstanding (se_client s1)) ts @ [Say ''> '']"
    by auto
  have "chat_loop env s = (Ret (), s')" using st(1) r(1) by (simp add: chat_loop.simps [of env s])
  moreover have "drop (length ts) (tl (outstanding (se_client s) @ [turn_message t]) @ map turn_message ts) =
      drop (length (t # ts)) (outstanding (se_client s) @ map turn_message (t # ts))"
    by (cases "outstanding (se_client s)") simp_all
  ultimately show ?case using r st by simp
qed

text \<open>When nothing is under way at first, each turn is answered with its own line.\<close>

fun transcript :: "(nat \<Rightarrow> i64) \<Rightarrow> nat \<Rightarrow> turn list \<Rightarrow> chat_out list" where
  "transcript clk n [] = []"
| "transcript clk n (t # ts) =
     [Say ''> '', Say (turn_prompt t), Say (reply_msg (turn_kind t) (snd t) (turn_rtt clk n))] @
     transcript clk (n + 3) ts"

lemma dialogue_transcript: "dialogue clk n [] ts = transcript clk n ts"
  by (induction ts arbitrary: n) (simp_all add: turn_message_def message_new_def)

section \<open>The whole session\<close>

lemma mirror_greeting:
  assumes env: "ce_api env = mirror_api lib"
  shows "talking env ts fin s \<Longrightarrow> outstanding (se_client s) = [] \<Longrightarrow>
    \<exists>s'. await_greeting env n s = (Ret (), s') \<and> talking env ts fin s' \<and> outstanding (se_client s') = [] \<and>
      se_now s' = se_now s \<and> se_stats s' = se_stats s \<and> se_out s' = se_out s"
proof (induction n arbitrary: s)
  case 0
  then show ?case by (simp add: return_io_def)
next
  case (Suc n)
  have l: "linked (ce_os env) (ce_tag env) (se_client s)" using Suc.prems(1) by (simp add: talking_def)
  have e: "queued (se_client s) = []" using Suc.prems(2) by (simp add: outstanding_def)
  from try_receive_spec [OF linkedD(1) [OF l], of "mirror_api lib"] e obtain q where
    t: "try_receive (mirror_api lib) (se_client s) = Inr (None, se_client s\<lparr>cl_queue := q\<rparr>)"
      "spsc_inv kQueueCapacity q" "spsc_list kQueueCapacity q = []" by auto
  let ?s1 = "s\<lparr>se_client := se_client s\<lparr>cl_queue := q\<rparr>\<rparr>"
  have o1: "outstanding (se_client ?s1) = []" using t(3) Suc.prems(2) by (simp add: outstanding_def)
  have l1: "linked (ce_os env) (ce_tag env) (se_client ?s1)"
    using l t(2) o1 by (simp add: linked_def client_inv_def)
  from mirror_run [OF env l1] obtain cl where
    run: "let_receiver_run env ?s1 = (Ret (), ?s1\<lparr>se_client := cl, se_steps := tl (se_steps ?s1)\<rparr>)"
    and cl: "linked (ce_os env) (ce_tag env) cl" "outstanding cl = []" using o1 by auto
  let ?s2 = "?s1\<lparr>se_client := cl, se_steps := tl (se_steps ?s1)\<rparr>"
  have "talking env ts fin ?s2" "outstanding (se_client ?s2) = []"
    using Suc.prems(1) cl by (simp_all add: talking_def)
  from Suc.IH [OF this] t(1) run show ?case
    by (simp add: bind_io_def chat_try_receive_def env)
qed

lemma mirror_close:
  assumes env: "ce_api env = mirror_api lib" and l: "linked (ce_os env) (ce_tag env) (se_client s)"
    and steps: "4 \<le> ce_join_steps env"
  shows "\<exists>cl. chat_close env s = (Ret (), s\<lparr>se_client := cl\<rparr>) \<and> \<not> is_running cl \<and> cl_receiver cl = NoThread"
proof -
  let ?cl = "close_stream (mirror_api lib) (ce_tag env) (se_client s)"
  have st: "cl_stream ?cl = cl_stream (se_client s)\<lparr>mi_open := False\<rparr>"
    using linkedD(4) [OF l] by (simp add: close_stream_def Let_def mirror_api_simps)
  have "read_returns (mirror_api lib) 0 (cl_stream ?cl)"
    by (simp add: st mirror_api_simps mirror_read_def split: list.split)
  with l have "winds_down (0 + 4) (mirror_api lib) (ce_os env) (ce_tag env) ?cl"
    by (intro winds_down_any) (auto simp: linked_def client_inv_def client_simps)
  from winds_down_more [OF this, of "ce_join_steps env - 4"] steps obtain cl1 where
    r: "receive_loop (ce_join_steps env) (mirror_api lib) (ce_os env) (ce_tag env) ?cl = Inr cl1"
      "receiver_gone cl1" "\<not> cl_running cl1"
    by (auto simp: winds_down_def)
  then obtain cl where j: "join_receiver cl1 = Some cl"
    by (auto simp: receiver_gone_def join_receiver.simps)
  have "chat_close env s = (Ret (), s\<lparr>se_client := cl\<rparr>)"
    using r(1) j by (simp add: chat_close_def client_close_def env)
  with join_receiver_Some [OF j] r(3) show ?thesis by (auto simp: is_running_def)
qed

text \<open>The client that has just connected to the server.\<close>

lemma mirror_connect:
  assumes "receiver_pin os tag config = Inr calls"
  shows "\<exists>cl. ws_connect (mirror_api lib) (client_new (mirror_api lib) server_main host port config) = (Ret (), cl) \<and>
    linked os tag cl \<and> outstanding cl = []"
proof -
  let ?cl = "client_new (mirror_api lib) server_main host port config"
  let ?cl1 = "(cl_print [Cout (logline ''ws'' (''Connected to '' @ host @ '':'' @ port))]
    (?cl\<lparr>cl_running := True\<rparr>))\<lparr>cl_receiver := Running R_Start\<rparr>"
  have c: "ws_connect (mirror_api lib) ?cl = (Ret (), ?cl1)"
    by (simp add: ws_connect_def ws_establish_def bind_io_def client_new_def mirror_api_def start_receiver_def
        cl_print_def)
  have q: "cl_queue ?cl1 = spsc_new kQueueCapacity message_default"
    by (simp add: client_simps client_new_def)
  have st: "cl_stream ?cl1 = server_main" by (simp add: client_simps client_new_def mirror_api_def)
  have o: "outstanding ?cl1 = []"
    unfolding outstanding_def q st
    by (simp add: spsc_new_list spsc_static_assert_def kQueueCapacity_def server_main_def)
  have "spsc_inv kQueueCapacity (cl_queue ?cl1)"
    unfolding q by (simp add: spsc_new_inv spsc_static_assert_def kQueueCapacity_def)
  moreover have "cl_config ?cl1 = config" "cl_running ?cl1" by (simp_all add: client_simps client_new_def)
  ultimately have "linked os tag ?cl1"
    using assms o unfolding linked_def client_inv_def st by (simp add: server_main_def)
  with c o show ?thesis by blast
qed

text \<open>The summary at the end: none when nothing was sent.\<close>

definition summarises :: "nat \<Rightarrow> chat_out list \<Rightarrow> bool" where
  "summarises n reports \<longleftrightarrow>
     (if n = 0 then reports = [] else \<exists>rp. reports = [Show (Report rp)] \<and> rp_samples rp = of_nat n)"

lemma summary_shown:
  assumes n: "length (samples_ns (se_stats s)) = n" "n \<le> 2 ^ 53" and rnd: "ce_rnd env = fl"
  shows "\<exists>reports. (if 0 < stats_count (se_stats s) then show_report env label (se_stats s) else return_io ()) s =
      (Ret (), s\<lparr>se_out := se_out s @ reports\<rparr>) \<and> summarises n reports"
proof (cases "n = 0")
  case True
  then have "\<not> 0 < stats_count (se_stats s)" using n(1) by (simp add: stats_count_def)
  then show ?thesis using True by (simp add: return_io_def summarises_def)
next
  case False
  have "unat (of_nat n :: 64 word) = n" using n(2) by (simp add: unat_of_nat)
  then have pos: "0 < stats_count (se_stats s)" using False n(1) by (simp add: stats_count_def word_less_nat_alt)
  from print_report_defined [of "se_stats s" label] n obtain r where r: "print_report fl label (se_stats s) = Inr r" by auto
  with False n(1) obtain rp where rp: "r = Report rp" "rp_samples rp = of_nat n"
    by (auto simp: print_report_def Let_def split: if_splits)
  have "show_report env label (se_stats s) s = (Ret (), s\<lparr>se_out := se_out s @ [Show r]\<rparr>)"
    by (simp add: show_report_def bind_io_def lift_def rnd r)
  with pos False rp show ?thesis by (auto simp: summarises_def)
qed

section \<open>Property\<close>

text \<open>C23: A session against the echo server of the repository shows every message the user sends back to
  them. When a client has connected and the user types any turns of \<open>text\<close> and \<open>binary\<close> with any lines
  the server accepts, then \<open>/exit\<close> or the end of input, the session ends normally; what it
  prints is the start-up lines, for each turn the prompts and the reply with the line itself and the
  microseconds the clock counted, and the summary of as many samples as there were turns.
  How fast the receiver thread is does not matter, as long as it gets four steps while the
  main thread polls for a reply and while \<open>close\<close> joins it.\<close>

theorem session_echoes:
  assumes lib: "mirrors lib" and env: "ce_api env = mirror_api lib" and clk: "steady (ce_clock env)" and rnd: "ce_rnd env = fl"
    and pin: "receiver_pin (ce_os env) (ce_tag env) config = Inr calls"
    and conn: "ws_connect (mirror_api lib) (client_new (mirror_api lib) server_main host port config) = (Ret (), se_client s)"
    and turns: "\<forall>t \<in> set ts. accepts lib t \<and> CHR 0x0A \<notin> set (snd t)" "length ts \<le> 2 ^ 53"
    and fin: "fin = '''' \<or> fin = ''/exit'' @ nl"
    and input: "se_cin s = \<lparr>cin_text = concat (map turn_input ts) @ fin, cin_good = True\<rparr>"
    and spins: "length ts \<le> length (se_spins s)" "\<forall>sched \<in> set (se_spins s). 4 \<le> sum_list sched"
    and join: "4 \<le> ce_join_steps env"
  shows "\<exists>s' reports. chat_session env s = (Ret (), s') \<and>
    se_out s' = se_out s @ [Say pool_init_msg, Say (''[*] Waiting for server greeting...'' @ nl), Say menu_text] @
      transcript (ce_clock env) (se_now s) ts @ [Say ''> ''] @ reports \<and>
    summarises (length ts) reports \<and> \<not> is_running (se_client s')"
proof -
  from mirror_connect [OF pin, of lib host port] conn have
    l: "linked (ce_os env) (ce_tag env) (se_client s)" and o: "outstanding (se_client s) = []" by auto
  obtain s1 where np: "new_pool env s = (Ret (), s1)"
    and s1: "se_client s1 = se_client s" "se_cin s1 = se_cin s" "se_spins s1 = se_spins s" "se_now s1 = se_now s"
      "se_out s1 = se_out s" "samples_ns (se_stats s1) = []"
    by (cases "pool_new kPoolBlockSize kPoolNumBlocks (ce_storage env) (w_mem (se_world s))")
      (fastforce simp: new_pool_def stats_new_def)
  define s2 where "s2 = s1\<lparr>se_out := se_out s1 @ [Say pool_init_msg, Say (''[*] Waiting for server greeting...'' @ nl)]\<rparr>"
  have t2: "talking env ts fin s2" "outstanding (se_client s2) = []"
    using l o input spins s1 by (simp_all add: talking_def s2_def)
  from mirror_greeting [OF env t2, of 100] obtain s3 where
    gr: "await_greeting env 100 s2 = (Ret (), s3)" "talking env ts fin s3" "outstanding (se_client s3) = []"
      "se_now s3 = se_now s2" "se_stats s3 = se_stats s2" "se_out s3 = se_out s2" by blast
  define s4 where "s4 = s3\<lparr>se_out := se_out s3 @ [Say menu_text]\<rparr>"
  have "talking env ts fin s4" using gr(2) by (simp add: talking_def s4_def)
  from mirror_chat_loop [OF lib env clk fin this turns(1)] gr(3) obtain s5 where
    lp: "chat_loop env s4 = (Ret (), s5)" "linked (ce_os env) (ce_tag env) (se_client s5)"
      "length (samples_ns (se_stats s5)) = length ts"
      "se_out s5 = se_out s4 @ transcript (ce_clock env) (se_now s4) ts @ [Say ''> '']"
    using gr(5) s1(6) by (auto simp: s4_def s2_def dialogue_transcript)
  from summary_shown [OF lp(3) turns(2) rnd] obtain reports where
    sm: "(if 0 < stats_count (se_stats s5) then show_report env ''Session Latency Summary'' (se_stats s5) else return_io ()) s5 =
      (Ret (), s5\<lparr>se_out := se_out s5 @ reports\<rparr>)" "summarises (length ts) reports" by blast
  from mirror_close [OF env _ join, of "s5\<lparr>se_out := se_out s5 @ reports\<rparr>"] lp(2) obtain cl where
    cs: "chat_close env (s5\<lparr>se_out := se_out s5 @ reports\<rparr>) = (Ret (), s5\<lparr>se_out := se_out s5 @ reports, se_client := cl\<rparr>)"
      "\<not> is_running cl" by auto
  have "chat_rest env s1 = (Ret (), s5\<lparr>se_out := se_out s5 @ reports, se_client := cl\<rparr>)"
    using gr(1) lp(1) sm(1) cs(1)
    by (simp add: chat_rest_def bind_io_def say_def get_session_def s2_def s4_def)
  then have "chat_session env s = (Ret (), s5\<lparr>se_out := se_out s5 @ reports, se_client := cl\<rparr>)"
    using np by (simp add: chat_session_rest bind_io_def)
  with lp(4) sm(2) cs(2) gr(4,6) s1(4,5) show ?thesis by (auto simp: s2_def s4_def)
qed

text \<open>A user says \<open>hi\<close>; the round trip takes 2.5 microseconds.\<close>

definition mirror_library :: "frame ws_library" where
  "mirror_library = \<lparr>l_recv = Some, l_send = (\<lambda>f. f), l_format = (\<lambda>f. bytes_string (snd f))\<rparr>"

definition mirror_env :: "mirror chat_env" where
  "mirror_env = \<lparr>ce_api = mirror_api mirror_library, ce_os = linux_os, ce_tag = ''ws'', ce_rnd = fl,
     ce_clock = (\<lambda>n. if n < 2 then 0 else 2500), ce_storage = 4096, ce_join_steps = 4\<rparr>"

definition mirror_session :: "mirror session" where
  "mirror_session = \<lparr>se_client = snd (ws_connect (mirror_api mirror_library)
       (client_new (mirror_api mirror_library) server_main ''localhost'' ''8765'' client_config_default)),
     se_stats = stats_new 0, se_world = \<lparr>w_mem = (\<lambda>_. 0), w_pools = (\<lambda>_. \<lparr>pl_storage = 0, pl_free_head = 0, pl_free_count = 0\<rparr>)\<rparr>,
     se_cin = \<lparr>cin_text = concat (map turn_input [(True, ''hi'')]) @ ''/exit'' @ nl, cin_good = True\<rparr>,
     se_input = '''', se_now = 0, se_spins = [[1, 0, 2, 1]], se_steps = [], se_out = []\<rparr>"

theorem session_echoes_witness:
  "\<exists>s'. chat_session mirror_env mirror_session = (Ret (), s') \<and>
     Say (reply_msg ''text'' ''hi'' 2) \<in> set (se_out s')"
proof -
  have pin: "receiver_pin linux_os ''ws'' client_config_default = Inr []"
    by (simp add: receiver_pin_def client_config_default_def)
  have "steady (\<lambda>n :: nat. if n < 2 then 0 else 2500 :: i64)"
    by (auto simp: steady_def intro!: monoI)
  moreover have "ws_connect (mirror_api mirror_library) (client_new (mirror_api mirror_library) server_main
      ''localhost'' ''8765'' client_config_default) = (Ret (), se_client mirror_session)"
    using mirror_connect [OF pin, of mirror_library "''localhost''" "''8765''"] by (auto simp: mirror_session_def)
  moreover have "receiver_pin (ce_os mirror_env) (ce_tag mirror_env) client_config_default = Inr []"
    using pin by (simp add: mirror_env_def)
  ultimately have "\<exists>s' reports. chat_session mirror_env mirror_session = (Ret (), s') \<and>
      se_out s' = se_out mirror_session @ [Say pool_init_msg, Say (''[*] Waiting for server greeting...'' @ nl), Say menu_text] @
        transcript (ce_clock mirror_env) (se_now mirror_session) [(True, ''hi'')] @ [Say ''> ''] @ reports \<and>
      summarises (length [(True, ''hi'')]) reports \<and> \<not> is_running (se_client s')"
    by (intro session_echoes [where lib = mirror_library and fin = "''/exit'' @ nl"])
      (simp_all add: mirrors_def mirror_library_def mirror_env_def mirror_session_def accepts_def)
  then show ?thesis
    by (auto simp: turn_kind_def turn_rtt_def mirror_env_def mirror_session_def)
qed

end
