(* ===== verification/Legacy_Client.thy ===== *)
theory Legacy_Client
  imports Chat_Session
begin

text \<open>
  The first version of the program, \<open>main.cpp\<close> at the top of the repository: a \<open>WebSocketClient\<close> with
  an unbounded queue under a mutex and a condition variable, its receiver thread, and the chat
  loop on standard input. The mutex makes a push and a pop single steps; waiting on the condition
  variable is the receiver running on until the queue is not empty.
\<close>

section \<open>The client\<close>

text \<open>The points of \<open>receiveContinuous\<close>: the test of the loop, the read, and the push.\<close>

datatype legacy_pc = L_Loop | L_Read | L_Push string | L_Done

record 'w legacy_client =
  lg_stream :: 'w
  lg_host :: string
  lg_port :: string
  lg_messages :: "(string \<times> bool) list"
  lg_receiver :: "legacy_pc thread"

definition legacy_new :: "'w beast_api \<Rightarrow> 'w \<Rightarrow> string \<Rightarrow> string \<Rightarrow> 'w legacy_client" where
  "legacy_new api ioc host port =
     \<lparr>lg_stream = b_stream api ioc, lg_host = host, lg_port = port, lg_messages = [], lg_receiver = NoThread\<rparr>"

definition legacy_establish :: "'w beast_api \<Rightarrow> string \<Rightarrow> string \<Rightarrow> ('w, unit) io" where
  "legacy_establish api host port =
     bind_io (b_resolve api host port) (\<lambda>results.
     bind_io (b_connect api results) (\<lambda>_.
     b_handshake api host ''/''))"

definition legacy_sendText :: "'w beast_api \<Rightarrow> string \<Rightarrow> 'w legacy_client \<Rightarrow> unit outcome \<times> 'w legacy_client" where
  "legacy_sendText api message lg =
     (let (r, w) = b_write api (string_bytes message) (b_text api True (lg_stream lg)) in (r, lg\<lparr>lg_stream := w\<rparr>))"

definition legacy_sendBinary :: "'w beast_api \<Rightarrow> byte list \<Rightarrow> 'w legacy_client \<Rightarrow> unit outcome \<times> 'w legacy_client" where
  "legacy_sendBinary api data lg =
     (let (r, w) = b_write api data (b_binary api True (lg_stream lg)) in (r, lg\<lparr>lg_stream := w\<rparr>))"

text \<open>One step of \<open>receiveContinuous\<close>. A read that does not succeed throws, and the thread ends.\<close>

fun legacy_at :: "'w beast_api \<Rightarrow> legacy_pc \<Rightarrow> 'w legacy_client \<Rightarrow> 'w legacy_client" where
  "legacy_at api L_Loop lg =
     lg\<lparr>lg_receiver := Running (if b_is_open api (lg_stream lg) then L_Read else L_Done)\<rparr>"
| "legacy_at api L_Read lg =
     (case b_read api (lg_stream lg) of
        (None, w) \<Rightarrow> lg\<lparr>lg_stream := w\<rparr>
      | (Some (ReadOk data), w) \<Rightarrow> lg\<lparr>lg_stream := w, lg_receiver := Running (L_Push data)\<rparr>
      | (Some _, w) \<Rightarrow> lg\<lparr>lg_stream := w, lg_receiver := Running L_Done\<rparr>)"
| "legacy_at api (L_Push data) lg =
     lg\<lparr>lg_messages := lg_messages lg @ [(data, b_got_text api (lg_stream lg))], lg_receiver := Running L_Loop\<rparr>"
| "legacy_at api L_Done lg = lg"

definition receiveContinuous_step :: "'w beast_api \<Rightarrow> 'w legacy_client \<Rightarrow> 'w legacy_client" where
  "receiveContinuous_step api lg =
     (case lg_receiver lg of NoThread \<Rightarrow> lg | Running pc \<Rightarrow> legacy_at api pc lg)"

fun receiveContinuous :: "nat \<Rightarrow> 'w beast_api \<Rightarrow> 'w legacy_client \<Rightarrow> 'w legacy_client" where
  "receiveContinuous 0 api lg = lg"
| "receiveContinuous (Suc n) api lg = receiveContinuous n api (receiveContinuous_step api lg)"

text \<open>\<open>getResponse()\<close>: waits while the queue is empty. The number says how many steps the receiver
  makes at most in the meantime; nothing when the queue is still empty after them.\<close>

fun getResponse :: "nat \<Rightarrow> 'w beast_api \<Rightarrow> 'w legacy_client \<Rightarrow> ((string \<times> bool) \<times> 'w legacy_client) option" where
  "getResponse n api lg =
     (case lg_messages lg of
        m # ms \<Rightarrow> Some (m, lg\<lparr>lg_messages := ms\<rparr>)
      | [] \<Rightarrow> (case n of 0 \<Rightarrow> None | Suc k \<Rightarrow> getResponse k api (receiveContinuous_step api lg)))"

declare getResponse.simps [simp del]

section \<open>The session\<close>

record 'w legacy_session =
  ls_client :: "'w legacy_client"
  ls_cin :: cin
  ls_input :: string
  ls_waits :: "nat list"
  ls_out :: "chat_out list"

type_synonym ('w, 'a) legacy = "('w legacy_session, 'a) io"

definition lsay :: "string \<Rightarrow> ('w, unit) legacy" where
  "lsay text s = (Ret (), s\<lparr>ls_out := ls_out s @ [Say text]\<rparr>)"

definition lread :: "('w, string) legacy" where
  "lread s = (let (ok, line, c) = getline (ls_cin s) (ls_input s) in (Ret line, s\<lparr>ls_input := line, ls_cin := c\<rparr>))"

definition lclient ::
  "('w legacy_client \<Rightarrow> unit outcome \<times> 'w legacy_client) \<Rightarrow> ('w, unit) legacy" where
  "lclient f s = (let (r, lg) = f (ls_client s) in (r, s\<lparr>ls_client := lg\<rparr>))"

text \<open>A wait takes the next number of receiver steps; it hangs when no message comes within them.\<close>

definition lresponse :: "'w beast_api \<Rightarrow> ('w, string \<times> bool) legacy" where
  "lresponse api s =
     (case getResponse (case ls_waits s of [] \<Rightarrow> 0 | n # _ \<Rightarrow> n) api (ls_client s) of
        None \<Rightarrow> (Crash (Hangs ''getResponse''), s)
      | Some (m, lg) \<Rightarrow> (Ret m, s\<lparr>ls_client := lg, ls_waits := tl (ls_waits s)\<rparr>))"

text \<open>\<open>connect()\<close>: the assignment of the thread ends the program when there is one already.\<close>

definition legacy_spawn :: "'w beast_api \<Rightarrow> 'w legacy_client \<Rightarrow> unit outcome \<times> 'w legacy_client" where
  "legacy_spawn api lg =
     (let (r, w) = b_spawn api (lg_stream lg); lg1 = lg\<lparr>lg_stream := w\<rparr>
      in case r of
           Ret _ \<Rightarrow> if joinable (lg_receiver lg) then (Crash (Terminate ''assignment to a joinable thread''), lg1)
             else (Ret (), lg1\<lparr>lg_receiver := Running L_Loop\<rparr>)
         | Throw e \<Rightarrow> (Throw e, lg1)
         | Crash e \<Rightarrow> (Crash e, lg1))"

definition on_stream :: "('w, unit) io \<Rightarrow> 'w legacy_client \<Rightarrow> unit outcome \<times> 'w legacy_client" where
  "on_stream f lg = (let (r, w) = f (lg_stream lg) in (r, lg\<lparr>lg_stream := w\<rparr>))"

definition legacy_connect :: "'w beast_api \<Rightarrow> ('w, unit) legacy" where
  "legacy_connect api s =
     (let h = lg_host (ls_client s); p = lg_port (ls_client s)
      in bind_io (lclient (on_stream (legacy_establish api h p))) (\<lambda>_.
         bind_io (lsay (''Connected to '' @ h @ '' on port '' @ p @ nl)) (\<lambda>_.
         lclient (legacy_spawn api))) s)"

text \<open>\<open>close()\<close>: \<open>ws_.close\<close> without an error code throws. The join waits for the receiver.\<close>

definition legacy_close_stream :: "'w beast_api \<Rightarrow> ('w, unit) io" where
  "legacy_close_stream api w =
     (if b_is_open api w
      then case b_close api w of (None, w') \<Rightarrow> (Ret (), w') | (Some e, w') \<Rightarrow> (Throw e, w')
      else (Ret (), w))"

definition legacy_join :: "nat \<Rightarrow> 'w beast_api \<Rightarrow> 'w legacy_client \<Rightarrow> unit outcome \<times> 'w legacy_client" where
  "legacy_join n api lg =
     (if \<not> joinable (lg_receiver lg) then (Ret (), lg)
      else let lg1 = receiveContinuous n api lg
        in if lg_receiver lg1 = Running L_Done then (Ret (), lg1\<lparr>lg_receiver := NoThread\<rparr>)
           else (Crash (Hangs ''join of the receiver thread''), lg1))"

definition legacy_close :: "nat \<Rightarrow> 'w beast_api \<Rightarrow> ('w, unit) legacy" where
  "legacy_close n api =
     bind_io (lclient (on_stream (legacy_close_stream api))) (\<lambda>_. lclient (legacy_join n api))"

definition legacy_prompt :: string where
  "legacy_prompt = (let q = [CHR 0x27] in ''Enter '' @ q @ ''text'' @ q @ '' to send a text message, '' @ q @ ''binary'' @ q @
     '' to send a binary message, or '' @ q @ ''/exit'' @ q @ '' to quit: '')"

definition response_msg :: "string \<times> bool \<Rightarrow> string" where
  "response_msg r = (if snd r then ''Server (Text): '' @ fst r @ nl
     else ''Server (Binary): '' @ fst r @ '' (Received binary message)'' @ nl)"

text \<open>One turn of the loop; the result says whether it goes on.\<close>

definition legacy_turn :: "'w beast_api \<Rightarrow> ('w, bool) legacy" where
  "legacy_turn api =
     bind_io (lsay legacy_prompt) (\<lambda>_.
     bind_io lread (\<lambda>input.
       if input = ''/exit'' then return_io False
       else if input = [] then return_io True
       else
         bind_io
           (if input = ''text''
            then bind_io (lsay ''Enter text message: '') (\<lambda>_. bind_io lread (\<lambda>msg. lclient (legacy_sendText api msg)))
            else if input = ''binary''
            then bind_io (lsay ''Enter binary data as a string (will be converted to binary): '') (\<lambda>_.
              bind_io lread (\<lambda>msg. lclient (legacy_sendBinary api (string_bytes msg))))
            else return_io ()) (\<lambda>_.
         bind_io (lresponse api) (\<lambda>response.
         bind_io (lsay (response_msg response)) (\<lambda>_. return_io True)))))"

text \<open>The loop for a number of turns; it is out of turns when there is no result.\<close>

fun legacy_loop :: "nat \<Rightarrow> 'w beast_api \<Rightarrow> 'w legacy_session \<Rightarrow> unit outcome option \<times> 'w legacy_session" where
  "legacy_loop 0 api s = (None, s)"
| "legacy_loop (Suc n) api s =
     (case legacy_turn api s of
        (Ret b, s') \<Rightarrow> if b then legacy_loop n api s' else (Some (Ret ()), s')
      | (Throw e, s') \<Rightarrow> (Some (Throw e), s')
      | (Crash e, s') \<Rightarrow> (Some (Crash e), s'))"

declare legacy_loop.simps(2) [simp del]

definition loop_io :: "nat \<Rightarrow> 'w beast_api \<Rightarrow> ('w, unit) legacy" where
  "loop_io n api s =
     (case legacy_loop n api s of
        (Some r, s') \<Rightarrow> (r, s')
      | (None, s') \<Rightarrow> (Crash (Hangs ''chatSession''), s'))"

definition chatSession :: "nat \<Rightarrow> nat \<Rightarrow> 'w beast_api \<Rightarrow> ('w, unit) legacy" where
  "chatSession turns joins api =
     bind_io (lresponse api) (\<lambda>response.
     bind_io (lsay (''Server: '' @ fst response @ nl)) (\<lambda>_.
     bind_io (\<lambda>s. (Ret (), s\<lparr>ls_input := []\<rparr>)) (\<lambda>_.
     bind_io (loop_io turns api) (\<lambda>_.
     legacy_close joins api))))"

text \<open>\<open>main()\<close>. The class has no destructor: leaving the \<open>try\<close> block destroys the thread member.\<close>

definition legacy_main :: "nat \<Rightarrow> nat \<Rightarrow> 'w beast_api \<Rightarrow> 'w \<Rightarrow> cin \<Rightarrow> nat list \<Rightarrow> i32 outcome \<times> 'w legacy_session" where
  "legacy_main turns joins api ioc c waits =
     (let s = \<lparr>ls_client = legacy_new api ioc ''echo.websocket.events'' ''80'', ls_cin = c, ls_input = [], ls_waits = waits, ls_out = []\<rparr>;
          (r, s1) = bind_io (legacy_connect api) (\<lambda>_. chatSession turns joins api) s
      in case r of
           Crash e \<Rightarrow> (Crash e, s1)
         | _ \<Rightarrow> if joinable (lg_receiver (ls_client s1)) then (Crash (Terminate ''destruction of a joinable thread''), s1)
           else (case r of
               Throw e \<Rightarrow> (Ret 1, s1\<lparr>ls_out := ls_out s1 @ [Err (''Error: '' @ e @ nl)]\<rparr>)
             | _ \<Rightarrow> (Ret 0, s1)))"

section \<open>The receiver thread stays\<close>

text \<open>Nothing but the end of \<open>close\<close> joins the thread.\<close>

definition has_receiver :: "'w legacy_session \<Rightarrow> bool" where
  "has_receiver s \<longleftrightarrow> joinable (lg_receiver (ls_client s))"

lemma legacy_at_joinable: "joinable (lg_receiver lg) \<Longrightarrow> joinable (lg_receiver (legacy_at api pc lg))"
  by (cases pc) (auto split: prod.splits option.splits read_result.splits)

lemma step_joinable: "joinable (lg_receiver lg) \<Longrightarrow> joinable (lg_receiver (receiveContinuous_step api lg))"
  by (auto simp: receiveContinuous_step_def legacy_at_joinable split: thread.splits)

lemma response_joinable:
  "getResponse n api lg = Some (m, lg') \<Longrightarrow> joinable (lg_receiver lg) \<Longrightarrow> joinable (lg_receiver lg')"
proof (induction n arbitrary: lg)
  case 0
  then show ?case by (subst (asm) getResponse.simps) (auto split: list.splits)
next
  case (Suc n)
  then show ?case by (subst (asm) (2) getResponse.simps) (auto split: list.splits dest: step_joinable)
qed

lemma kept_lsay: "keeps has_receiver (lsay t)"
  by (simp add: keeps_def lsay_def has_receiver_def)

lemma kept_lread: "keeps has_receiver lread"
  by (auto simp: keeps_def lread_def has_receiver_def split: prod.splits)

lemma kept_sends:
  "keeps has_receiver (lclient (legacy_sendText api msg))" "keeps has_receiver (lclient (legacy_sendBinary api d))"
  "keeps has_receiver (lclient (on_stream f))"
  by (auto simp: keeps_def lclient_def legacy_sendText_def legacy_sendBinary_def on_stream_def has_receiver_def
      split: prod.splits)

lemma kept_response: "keeps has_receiver (lresponse api)"
  by (auto simp: keeps_def lresponse_def has_receiver_def split: option.splits dest: response_joinable)

lemmas kept_legacy = keeps_bind keeps_return keeps_if kept_lsay kept_lread kept_sends kept_response

lemma kept_turn: "keeps has_receiver (legacy_turn api)"
  unfolding legacy_turn_def by (intro kept_legacy)

lemma kept_legacy_loop: "has_receiver s \<Longrightarrow> has_receiver (snd (legacy_loop n api s))"
proof (induction n arbitrary: s)
  case (Suc n)
  obtain r s1 where t: "legacy_turn api s = (r, s1)" by (cases "legacy_turn api s")
  from keepsD [OF kept_turn Suc.prems t] Suc.IH [of s1] show ?case
    by (simp add: legacy_loop.simps(2) t split: outcome.split)
qed simp

lemma kept_loop_io: "keeps has_receiver (loop_io n api)"
  unfolding keeps_def loop_io_def
proof (intro allI impI)
  fix s :: "'a legacy_session" assume "has_receiver s"
  from kept_legacy_loop [OF this, of n api] show "has_receiver (snd (case legacy_loop n api s of
      (None, s') \<Rightarrow> (Crash (Hangs ''chatSession''), s') | (Some r, s') \<Rightarrow> (r, s')))"
    by (cases "legacy_loop n api s") (auto split: option.split)
qed

lemma thrown_close: "keeps_thrown has_receiver (legacy_close n api)"
proof -
  have "keeps_thrown has_receiver (lclient (legacy_join n api))"
    by (auto simp: keeps_thrown_def lclient_def legacy_join_def Let_def split: prod.splits if_splits)
  then show ?thesis unfolding legacy_close_def by (intro keeps_thrown_bind kept_legacy)
qed

lemma thrown_chatSession: "keeps_thrown has_receiver (chatSession turns joins api)"
proof -
  have "keeps has_receiver (\<lambda>s. (Ret (), s\<lparr>ls_input := []\<rparr>))"
    by (simp add: keeps_def has_receiver_def)
  then show ?thesis
    unfolding chatSession_def by (intro keeps_thrown_bind kept_legacy kept_loop_io thrown_close)
qed

end
