(* ===== verification/Legacy_Properties.thy ===== *)
theory Legacy_Properties
  imports Legacy_Client Client_Properties
begin

text \<open>
  What the first version of the client gets right, delivery, and what it does not survive: the
  end of standard input and an exception while its receiver thread exists.
\<close>

section \<open>Interleavings of the main thread and the receiver\<close>

datatype legacy_action = LRecv | LText string | LBinary "byte list" | LGet

fun legacy_act :: "'w beast_api \<Rightarrow> legacy_action \<Rightarrow> 'w legacy_client \<Rightarrow> (string \<times> bool) option \<times> 'w legacy_client" where
  "legacy_act api LRecv lg = (None, receiveContinuous_step api lg)"
| "legacy_act api (LText msg) lg = (None, snd (legacy_sendText api msg lg))"
| "legacy_act api (LBinary d) lg = (None, snd (legacy_sendBinary api d lg))"
| "legacy_act api LGet lg = (case getResponse 0 api lg of None \<Rightarrow> (None, lg) | Some (m, lg') \<Rightarrow> (Some m, lg'))"

text \<open>The message a step of the receiver reads, with what \<open>got_text()\<close> says right after.\<close>

fun read_by :: "'w beast_api \<Rightarrow> legacy_action \<Rightarrow> 'w legacy_client \<Rightarrow> (string \<times> bool) list" where
  "read_by api LRecv lg =
     (if lg_receiver lg = Running L_Read
      then (case b_read api (lg_stream lg) of (Some (ReadOk d), w) \<Rightarrow> [(d, b_got_text api w)] | _ \<Rightarrow> []) else [])"
| "read_by api _ lg = []"

fun legacy_trace :: "'w beast_api \<Rightarrow> legacy_action list \<Rightarrow> 'w legacy_client \<Rightarrow>
    (string \<times> bool) list \<times> (string \<times> bool) list \<times> 'w legacy_client" where
  "legacy_trace api [] lg = ([], [], lg)"
| "legacy_trace api (a # as) lg =
     (let (got, lg1) = legacy_act api a lg; (rs, gots, lg2) = legacy_trace api as lg1
      in (read_by api a lg @ rs, the_list got @ gots, lg2))"

text \<open>A message that is read and not yet pushed.\<close>

definition in_flight :: "'w beast_api \<Rightarrow> 'w legacy_client \<Rightarrow> (string \<times> bool) list" where
  "in_flight api lg =
     (case lg_receiver lg of Running (L_Push d) \<Rightarrow> [(d, b_got_text api (lg_stream lg))] | _ \<Rightarrow> [])"

text \<open>Beast: \<open>got_text()\<close> tells about the last message read; sending does not change it.\<close>

definition sending_keeps_type :: "'w beast_api \<Rightarrow> bool" where
  "sending_keeps_type api \<longleftrightarrow> (\<forall>w d on. b_got_text api (snd (b_write api d w)) = b_got_text api w \<and>
     b_got_text api (b_text api on w) = b_got_text api w \<and> b_got_text api (b_binary api on w) = b_got_text api w)"

lemma legacy_act_balance:
  assumes "sending_keeps_type api" and "legacy_act api a lg = (got, lg1)"
  shows "lg_messages lg @ in_flight api lg @ read_by api a lg =
    the_list got @ lg_messages lg1 @ in_flight api lg1"
proof (cases a)
  case LRecv
  with assms(2) have l: "lg1 = receiveContinuous_step api lg" "got = None" by simp_all
  show ?thesis
  proof (cases "lg_receiver lg")
    case (Running pc)
    with LRecv l show ?thesis
      by (cases pc) (auto simp: receiveContinuous_step_def in_flight_def the_list_def split: prod.splits option.splits read_result.splits)
  qed (use LRecv l in \<open>simp add: receiveContinuous_step_def in_flight_def the_list_def\<close>)
next
  case (LText msg)
  with assms(2) have l: "lg1 = lg\<lparr>lg_stream := snd (b_write api (string_bytes msg) (b_text api True (lg_stream lg)))\<rparr>" "got = None"
    by (auto simp: legacy_sendText_def split: prod.splits)
  then show ?thesis using assms(1) LText
    by (simp add: in_flight_def the_list_def sending_keeps_type_def split: thread.split legacy_pc.split)
next
  case (LBinary d)
  with assms(2) have l: "lg1 = lg\<lparr>lg_stream := snd (b_write api d (b_binary api True (lg_stream lg)))\<rparr>" "got = None"
    by (auto simp: legacy_sendBinary_def split: prod.splits)
  then show ?thesis using assms(1) LBinary
    by (simp add: in_flight_def the_list_def sending_keeps_type_def split: thread.split legacy_pc.split)
next
  case LGet
  with assms(2) show ?thesis
    by (cases "lg_messages lg") (auto simp: getResponse.simps in_flight_def the_list_def split: thread.split legacy_pc.split)
qed

section \<open>Properties\<close>

text \<open>C39: The first client loses nothing: in every interleaving of its receiver with sending and
  receiving, the messages \<open>getResponse\<close> returned, then those queued, then the one being pushed, are
  the messages there were before followed by those read since, in order, each with its type.\<close>

theorem legacy_delivery:
  assumes "sending_keeps_type api" and "legacy_trace api as lg = (rs, gots, lg')"
  shows "gots @ lg_messages lg' @ in_flight api lg' = lg_messages lg @ in_flight api lg @ rs"
  using assms(2)
proof (induction as arbitrary: lg rs gots)
  case (Cons a as)
  obtain got lg1 where a: "legacy_act api a lg = (got, lg1)" by (cases "legacy_act api a lg")
  obtain rs' gots' where t: "legacy_trace api as lg1 = (rs', gots', lg')"
    and e: "rs = read_by api a lg @ rs'" "gots = the_list got @ gots'"
    using Cons.prems a by (auto split: prod.splits)
  from Cons.IH [OF t] legacy_act_balance [OF assms(1) a] show ?case unfolding e by (metis append.assoc)
qed simp

definition two_messages :: "read_result option list legacy_client" where
  "two_messages = \<lparr>lg_stream = [Some (ReadOk ''hi''), None, Some (ReadOk ''there'')], lg_host = ''localhost'',
     lg_port = ''80'', lg_messages = [], lg_receiver = Running L_Loop\<rparr>"

theorem legacy_delivery_witness:
  "\<exists>lg'. legacy_trace replay_api [LRecv, LRecv, LText ''x'', LGet, LRecv, LGet, LRecv, LRecv, LRecv] two_messages =
      ([(''hi'', True), (''there'', True)], [(''hi'', True)], lg') \<and>
    [(''hi'', True)] @ lg_messages lg' @ in_flight replay_api lg' = [(''hi'', True), (''there'', True)]"
proof -
  have k: "sending_keeps_type replay_api" by (simp add: sending_keeps_type_def replay_api_def)
  have "\<exists>lg'. legacy_trace replay_api [LRecv, LRecv, LText ''x'', LGet, LRecv, LGet, LRecv, LRecv, LRecv] two_messages =
      ([(''hi'', True), (''there'', True)], [(''hi'', True)], lg')"
    by (simp add: two_messages_def receiveContinuous_step_def replay_api_def legacy_sendText_def getResponse.simps the_list_def)
  then obtain lg' where t: "legacy_trace replay_api [LRecv, LRecv, LText ''x'', LGet, LRecv, LGet, LRecv, LRecv, LRecv] two_messages =
      ([(''hi'', True), (''there'', True)], [(''hi'', True)], lg')" ..
  from legacy_delivery [OF k t] t show ?thesis by (simp add: two_messages_def in_flight_def)
qed

text \<open>At the end of standard input the loop of \<open>chatSession\<close> never ends: it does not test
  \<open>std::getline\<close>, so it prints its prompt again and again, and never closes the connection.\<close>

theorem legacy_eof_spins:
  assumes "cin_text (ls_cin s) = []" and "cin_good (ls_cin s) \<or> ls_input s = []"
  shows "\<exists>s'. legacy_loop n api s = (None, s') \<and> ls_client s' = ls_client s \<and>
    ls_out s' = ls_out s @ replicate n (Say legacy_prompt)"
  using assms
proof (induction n arbitrary: s)
  case (Suc n)
  let ?s1 = "s\<lparr>ls_out := ls_out s @ [Say legacy_prompt], ls_input := [], ls_cin := (ls_cin s)\<lparr>cin_good := False\<rparr>\<rparr>"
  have "lread (s\<lparr>ls_out := ls_out s @ [Say legacy_prompt]\<rparr>) = (Ret [], ?s1)"
    using Suc.prems by (cases "cin_good (ls_cin s)") (auto simp: lread_def getline_def)
  then have t: "legacy_turn api s = (Ret True, ?s1)"
    by (simp add: legacy_turn_def bind_io_def lsay_def return_io_def)
  from Suc.IH [of ?s1] Suc.prems t show ?case by (auto simp: legacy_loop.simps(2) replicate_append_same)
qed simp

theorem legacy_eof_spins_witness:
  "\<exists>s'. legacy_loop 1000 replay_api \<lparr>ls_client = two_messages, ls_cin = \<lparr>cin_text = [], cin_good = True\<rparr>, ls_input = [],
      ls_waits = [], ls_out = []\<rparr> = (None, s') \<and> ls_out s' = replicate 1000 (Say legacy_prompt)"
  using legacy_eof_spins [of "\<lparr>ls_client = two_messages, ls_cin = \<lparr>cin_text = [], cin_good = True\<rparr>, ls_input = [],
      ls_waits = [], ls_out = []\<rparr>" 1000 replay_api] by auto

text \<open>C40: An exception after the connection is up, from sending or from closing, does not reach the
  handler of \<open>main\<close>: the client is destroyed with its receiver thread unjoined, and the program
  ends in \<open>std::terminate\<close>.\<close>

theorem legacy_exception_terminates:
  assumes "legacy_connect api \<lparr>ls_client = legacy_new api ioc ''echo.websocket.events'' ''80'', ls_cin = c, ls_input = [],
      ls_waits = waits, ls_out = []\<rparr> = (Ret (), s1)"
    and "chatSession turns joins api s1 = (Throw e, s2)"
  shows "legacy_main turns joins api ioc c waits = (Crash (Terminate ''destruction of a joinable thread''), s2)"
proof -
  have "has_receiver s1"
    using assms(1)
    by (auto simp: legacy_connect_def bind_io_Ret_iff lclient_def legacy_spawn_def has_receiver_def Let_def
        split: prod.splits outcome.splits if_splits)
  with assms(2) have "has_receiver s2" using thrown_chatSession [unfolded keeps_thrown_def] by blast
  with assms show ?thesis by (simp add: legacy_main_def bind_io_def has_receiver_def)
qed

definition broken_api :: "read_result option list beast_api" where
  "broken_api = replay_api\<lparr>b_write := (\<lambda>d w. (Throw ''Broken pipe'', w))\<rparr>"

theorem legacy_exception_terminates_witness:
  "\<exists>s. legacy_main 5 5 broken_api [Some (ReadOk ''welcome'')] \<lparr>cin_text = ''text'' @ nl @ ''hello'' @ nl, cin_good = True\<rparr> [3] =
    (Crash (Terminate ''destruction of a joinable thread''), s)"
proof -
  let ?c = "\<lparr>cin_text = ''text'' @ nl @ ''hello'' @ nl, cin_good = True\<rparr>"
  let ?lg = "legacy_new broken_api [Some (ReadOk ''welcome'')] ''echo.websocket.events'' ''80''"
  let ?s = "\<lparr>ls_client = ?lg, ls_cin = ?c, ls_input = [], ls_waits = [3], ls_out = []\<rparr>"
  let ?s1 = "?s\<lparr>ls_client := ?lg\<lparr>lg_receiver := Running L_Loop\<rparr>,
    ls_out := [Say (''Connected to '' @ lg_host ?lg @ '' on port '' @ lg_port ?lg @ nl)]\<rparr>"
  have 1: "legacy_connect broken_api ?s = (Ret (), ?s1)"
    by (simp add: legacy_connect_def bind_io_def lclient_def on_stream_def legacy_establish_def broken_api_def replay_api_def
        lsay_def legacy_spawn_def legacy_new_def)
  have "\<exists>s2. chatSession 5 5 broken_api ?s1 = (Throw ''Broken pipe'', s2)"
    by (simp add: chatSession_def bind_io_def lresponse_def getResponse.simps legacy_new_def receiveContinuous_step_def
        numeral_eq_Suc broken_api_def replay_api_def lsay_def loop_io_def legacy_loop.simps legacy_turn_def lread_def getline_def
        nl_def lclient_def legacy_sendText_def)
  then obtain s2 where 2: "chatSession 5 5 broken_api ?s1 = (Throw ''Broken pipe'', s2)" ..
  from legacy_exception_terminates [OF 1 2] show ?thesis ..
qed

end
