(* ===== verification/Spec2Isabelle.thy ===== *)
theory Spec2Isabelle
  imports Spsc_Concurrent Connection_States Managed_Chat Program_Safety Benchmark_Properties Box_Layout Pool_Tests Echo_Server Legacy_Properties
begin

text \<open>
  A verification library for the low-latency WebSocket client.

  \<^bold>\<open>The program.\<close> \<open>src/main.cpp\<close> parses a command line and runs an interactive chat over a client:
  \<open>WebSocketClient\<close> (\<open>include/websocket_client.h\<close>), \<open>SecureWebSocketClient\<close>
  (\<open>include/secure_websocket_client.h\<close>), or a \<open>WebSocketClient\<close> owned by a \<open>ConnectionManager\<close>
  (\<open>include/connection_manager.h\<close>) that reconnects. A client has a receiver thread, which reads
  messages (\<open>include/message.h\<close>) and pushes them into a lock-free ring buffer
  (\<open>include/spsc_queue.h\<close>) the main thread polls. The chat measures round trips
  (\<open>include/latency_stats.h\<close>) and its benchmark borrows buffers from a memory pool
  (\<open>include/memory_pool.h\<close>). Receivers can be pinned to a core (\<open>include/thread_utils.h\<close>); constants
  and wait policies are in \<open>include/config.h\<close>. \<open>benchmarks/benchmark_client.cpp\<close> is a second program on the
  plain client that measures latencies. \<open>main.cpp\<close> at the top of the repository is the first
  version of the program, with a queue under a mutex.

  \<^bold>\<open>Conventions\<close> (\<open>WS_Prelude\<close>, \<open>Cxx_Strings\<close>, \<open>Doubles\<close>, \<open>Byte_Memory\<close>). \<open>size_t\<close>, \<open>int\<close> and
  \<open>uint32_t\<close> are words of 64 and 32 bits. An operation that can go wrong returns a \<open>result\<close>, whose
  left side says how C++ fails: an access out of bounds, a signed overflow, a failed assertion,
  \<open>std::terminate\<close>, or a wait that does not end. An operation that can throw is an \<open>io\<close> function: it
  returns, throws, or ends the program. Doubles are real numbers with a rounding function;
  \<open>fl\<close> is rounding to 53 bits, and the \<open>rounding\<close> locale states what proofs use of it. Boost, the
  system and the clock are records of functions (\<open>beast_api\<close>, \<open>os_api\<close>) and parameters; what a
  theorem needs of them is a hypothesis, and each such theorem has an example that meets it.

  \<^bold>\<open>The ring buffer.\<close> \<open>Spsc_Queue\<close> models the class operation by operation (\<open>try_push\<close>, \<open>try_pop\<close>,
  \<open>size_approx\<close>, \<open>empty\<close>) and interprets the locale \<open>bounded_fifo\<close> of \<open>Fifo_Interface\<close>: any
  sequence of operations behaves like a queue of capacity minus one items. \<open>Spsc_Concurrent\<close> takes
  the two operations apart into their loads and stores, with acquire loads that may return stale
  values: every interleaving of one producer and one consumer is free of data races, delivers
  the items in order, and fails a call only on a buffer that is full, or empty, as far as the thread can see.

  \<^bold>\<open>The memory pool.\<close> \<open>Memory_Pool\<close> models the free list where it lives, in the bytes of the free
  blocks; \<open>Pool_Interface\<close> states what a pool promises (locale \<open>block_pool\<close>) and what follows for its
  users, \<open>Pool_Ptr\<close> models the owner class over it. Every block is always either held once or free
  once, and writing into a held block cannot damage the list.

  \<^bold>\<open>Statistics.\<close> \<open>Latency_Stats\<close> models recording and the report. In exact arithmetic the figures are
  ordered and in range; with IEEE rounding the report is always defined. \<open>Ostream_Format\<close> models fields,
  fixed notation and box-drawing characters, \<open>Report_Layout\<close> the text of the report: its figures can be read
  back, and its frame is a column wider than its rows. \<open>Box_Layout\<close> measures the other boxes.

  \<^bold>\<open>The clients.\<close> \<open>WebSocket_Client\<close> models both classes: the stages of \<open>connect\<close>, sending, receiving,
  closing, and the receiver thread point by point, where a point is a place another thread can
  observe. \<open>Client_Runs\<close> interleaves it with the main thread; \<open>Client_Properties\<close> shows in-order
  delivery, when \<open>connect\<close> and \<open>close\<close> return, and when \<open>spin_receive\<close> does not. The locale \<open>client_class\<close>
  is what the two classes share.

  \<^bold>\<open>The connection manager.\<close> \<open>Connection_Manager\<close> models its three threads point by point and the calls
  of the main thread; \<open>cm_run\<close> is any interleaving. \<open>Connection_Frames\<close> says what each step leaves
  alone and carries invariants of steps to runs (locale \<open>run_invariant\<close>),
  \<open>Connection_Properties\<close> has the invariants, \<open>Connection_Theorems\<close> the results on backoff, recovery and
  stopping. \<open>Connection_States\<close> states the state machine of the manager on its own and shows that every
  interleaving follows it. \<open>Stream_Contract\<close> carries a property of the stream through every run of the manager
  (locales \<open>stream_contract\<close> and \<open>manager_contract\<close>).

  \<^bold>\<open>The program.\<close> \<open>Cli\<close> models the command line, \<open>Chat_Session\<close> the session with every command,
  \<open>Tls_Context\<close> what \<open>main\<close> sets up before a TLS connection, \<open>Program\<close> the branches of \<open>main\<close> with their
  handlers and exit status, and the chat on a client the manager owns. \<open>Chat_Properties\<close> shows that a
  session, whatever happens in it, leaves its pool intact and that a benchmark measures every
  message; the locale \<open>session_preorder\<close> lets such a relation pass through sequences of operations.
  \<open>Io_Safety\<close> has triples for operations that return, throw or end the program; \<open>Chat_Safety\<close> takes
  every operation of the session through them and \<open>Program_Safety\<close> the program without
  \<open>--reconnect\<close>: from the command line to the exit status there is no undefined behaviour and no
  \<open>std::terminate\<close>. \<open>Program_Properties\<close> shows how runs end without a server, what \<open>--ssl\<close> means with
  \<open>--reconnect\<close>, and that the managed chat can outlive its client; \<open>Managed_Chat\<close> that it is otherwise
  the same chat, and that it never gets over a reply that is lost with the connection. \<open>Echo_Server\<close>
  models the test server \<open>websocket_server.py\<close> as one more implementation of the stream and computes what
  a whole session against it prints: every line comes back to the screen, in order.

  \<^bold>\<open>The other programs.\<close> \<open>Benchmark\<close> and \<open>Benchmark_Properties\<close> treat the latency benchmark: what its
  scenarios measure, when its loops end, and how the program exits. \<open>Legacy_Client\<close> and
  \<open>Legacy_Properties\<close> treat the first version. \<open>Unit_Tests\<close> and \<open>Pool_Tests\<close> run the tests under \<open>tests/\<close> on
  the model: the three programs exit with status 0.

  \<^bold>\<open>Bounds.\<close> Loops over data are structural or have a measure: the chat loop ends because each turn
  uses up standard input. Waiting loops (\<open>spin_receive\<close>, \<open>join\<close>, \<open>getResponse\<close>, \<open>drain\<close>) take a schedule or a
  number of steps of the thread they wait for and say so when it was not enough; theorems on them
  give steps that are enough or show that none
  are.

  \<^bold>\<open>Not modelled.\<close> A step of a thread of the manager between two of its points is atomic, and so is an
  operation of the main thread on the manager's client other than waiting for a reply, so data races on the
  manager's pointer itself are outside the model. Boost, OpenSSL, the operating system and the Windows
  certificate store are parameters, and so is the Python library under the test server, of which the
  model has the handler and one connection. The build files do nothing at run time and are not part of
  the model.
\<close>

end
